theory Spec2Isabelle
  imports Main "HOL-Library.Word"
begin

section \<open>The Master funding contract\<close>

text \<open>
  A shallow embedding of the TEALScript contract \<^verbatim>\<open>Master\<close> (the two-phase version with
  \<^verbatim>\<open>cardFundDeployInit\<close> / \<^verbatim>\<open>cardFundDeployComplete\<close>), of \<^verbatim>\<open>ControlledAddress\<close> and of
  the \<^verbatim>\<open>Ownable\<close> mixin.

  Each public method is a function from the call's environment and the contract's storage
  to either an error (the call is rejected and the storage stays as it was) or an outcome:
  the returned value, the new storage, the inner transactions sent and the events logged.

  \<^item> \<^verbatim>\<open>uint64\<close> is \<open>64 word\<close>. The AVM rejects a program whose \<^verbatim>\<open>+\<close>, \<^verbatim>\<open>-\<close> or \<^verbatim>\<open>*\<close>
    leaves the 64-bit range, so run-time arithmetic goes through \<open>add64\<close> and \<open>sub64\<close>.
  \<^item> An address, a 32-byte hash and a 64-byte signature are opaque values, here numbers.
  \<^item> A \<^verbatim>\<open>BoxMap\<close> is a map; a \<^verbatim>\<open>LocalStateMap\<close> is a map from (account, key).
    Reading \<^verbatim>\<open>.value\<close> of a missing box is a failure of the call. A \<^verbatim>\<open>GlobalStateKey\<close>
    holding a number reads 0 before it is first written.
  \<^item> What the ledger supplies to a call is the record \<open>env\<close>: the sender, the clock, asset
    balances, authorising addresses, the address of the account the factory creates, whether
    the ledger accepts an inner transaction, and the primitives \<^verbatim>\<open>sha256\<close> and
    \<^verbatim>\<open>ed25519VerifyBare\<close>. Whether an account holds local storage for the application (opt-in,
    schema capacity) is decided by the ledger before the contract's code and is not modelled.
\<close>

subsection \<open>Data\<close>

type_synonym uint64 = "64 word"
type_synonym Address = nat
type_synonym AssetID = uint64
type_synonym bytes32 = nat
type_synonym bytes64 = nat

definition zeroAddress :: Address where
  "zeroAddress = 0"

record CardFundSetup =
  cfs_partnerChannel :: Address
  cfs_reference :: string

record PartnerChannelSetup =
  pcs_partnerChannelName :: string

record CardFundData =
  cf_partnerChannel :: Address
  cf_owner :: Address
  cf_address :: Address
  cf_paymentNonce :: uint64
  cf_withdrawalNonce :: uint64
  cf_reference :: string

record PartnerChannelData =
  pc_partnerChannelName :: string
  pc_owner :: Address
  pc_address :: Address

record PartnerCardFundData =
  pcf_partnerChannel :: Address
  pcf_cardFundOwner :: Address

record PermissionlessWithdrawalRequest =
  pwr_cardFund :: Address
  pwr_asset :: AssetID
  pwr_amount :: uint64
  pwr_createdAt :: uint64
  pwr_nonce :: uint64

record ApprovedWithdrawalRequest =
  awr_cardFund :: Address
  awr_recipient :: Address
  awr_asset :: AssetID
  awr_amount :: uint64
  awr_expiresAt :: uint64
  awr_nonce :: uint64
  awr_genesisHash :: bytes32

definition MaxPartnerChannelNameLength :: nat where
  "MaxPartnerChannelNameLength = 32"

definition MaxCardFundReferenceLength :: nat where
  "MaxCardFundReferenceLength = 62"

definition WithdrawalTypeApproved :: string where
  "WithdrawalTypeApproved = ''approved''"

definition WithdrawalTypePermissionLess :: string where
  "WithdrawalTypePermissionLess = ''permissionless''"

text \<open>The argument of \<^verbatim>\<open>sha256\<close>: \<^verbatim>\<open>rawBytes\<close> of one of the two records that are hashed.\<close>

datatype raw =
    rawBytesPCF PartnerCardFundData
  | rawBytesAWR ApprovedWithdrawalRequest

text \<open>The contract's storage. \<open>Ownable_owner\<close> is \<^verbatim>\<open>Ownable._owner\<close>.\<close>

record Master =
  cardFundsSetup :: "Address \<times> Address \<rightharpoonup> CardFundSetup"
  cardFunds :: "Address \<rightharpoonup> CardFundData"
  cardFundsActiveCount :: uint64
  partnerChannelsSetup :: "Address \<times> Address \<rightharpoonup> PartnerChannelSetup"
  partnerChannels :: "Address \<rightharpoonup> PartnerChannelData"
  partnerCardFundOwner :: "bytes32 \<rightharpoonup> Address"
  partnerChannelsActiveCount :: uint64
  withdrawalWaitTime :: uint64
  withdrawals :: "Address \<times> Address \<rightharpoonup> PermissionlessWithdrawalRequest"
  settlementNonce :: uint64
  settlementAddress :: "AssetID \<rightharpoonup> Address"
  settlerRoleAddress :: "Address option"
  Ownable_owner :: "Address option"
  Pausable_pauser :: "Address option"
  Pausable_paused :: bool

subsection \<open>Transactions, events, errors\<close>

record PayTxn =
  ptx_sender :: Address
  ptx_receiver :: Address
  ptx_amount :: uint64

record PaymentFields =
  pay_sender :: Address
  pay_receiver :: Address
  pay_amount :: uint64
  pay_closeRemainderTo :: "Address option"

record AssetTransferFields =
  xfer_sender :: Address
  xfer_assetReceiver :: Address
  xfer_xferAsset :: AssetID
  xfer_assetAmount :: uint64
  xfer_assetCloseTo :: "Address option"
  xfer_note :: string

datatype itxn =
    Payment PaymentFields
  | AssetTransfer AssetTransferFields
  | CreateControlledAddress
  | IncreaseOpcodeBudget

datatype event =
    PartnerChannelCreated Address string
  | PartnerChannelClosed Address string
  | CardFundCreated Address Address Address string
  | CardFundClosed Address Address Address string
  | CardFundAssetEnabled Address AssetID
  | CardFundAssetDisabled Address AssetID
  | AssetAllowlistAdded AssetID
  | AssetAllowlistRemoved AssetID
  | Debit Address AssetID uint64 uint64 string
  | Refund Address AssetID uint64 uint64 string
  | SettlementAddressChanged Address Address
  | Settlement Address AssetID uint64 uint64
  | WithdrawalRequest Address Address AssetID uint64 uint64 uint64
  | WithdrawalRequestCancelled Address Address AssetID uint64 uint64 uint64
  | Withdrawal Address Address AssetID uint64 uint64 uint64 uint64 string
  | OwnershipTransferred Address Address

text \<open>
  The assertion tags of the source, and the failures that carry no tag: arithmetic leaving
  the 64-bit range, a missing box or global value, a payment argument that
  \<^verbatim>\<open>verifyPayTxn\<close> rejects, an inner transaction the ledger rejects.
\<close>

datatype error =
    SENDER_NOT_ALLOWED
  | CARD_FUND_NOT_FOUND
  | ASSET_NOT_OPTED_IN
  | ASSET_ALREADY_OPTED_IN
  | CARDFUNDS_STILL_ACTIVE
  | PARTNERCHANNELS_STILL_ACTIVE
  | PARTNER_CHANNEL_NAME_TOO_LONG
  | PARTNER_CHANNEL_NOT_FOUND
  | INVALID_PARTNER_ADDRESS
  | CARD_FUND_REFERENCE_TOO_LONG
  | CARD_FUND_ALREADY_EXISTS
  | INVALID_CARD_ADDRESS
  | NONCE_INVALID
  | SETTLEMENT_ADDRESS_NOT_FOUND
  | INSUFFICIENT_BALANCE
  | WITHDRAWAL_REQUEST_NOT_FOUND
  | AMOUNT_INVALID
  | WITHDRAWAL_TIME_INVALID
  | SIGNATURE_INVALID
  | CONTRACT_PAUSED
  | ARITH_OVERFLOW
  | ARITH_UNDERFLOW
  | VALUE_MISSING
  | PAY_TXN_INVALID
  | INNER_TXN_REJECTED

datatype retval =
    Void
  | RetAddress Address
  | RetRequest PermissionlessWithdrawalRequest

record outcome =
  ret :: retval
  st :: Master
  itxns :: "itxn list"
  logs :: "event list"

record env =
  sender :: Address
  appAddress :: Address
  latestTimestamp :: uint64
  genesisHash :: bytes32
  minBalance :: uint64
  assetOptInMinBalance :: uint64
  opcodeBudget :: nat
  assetBalance :: "Address \<Rightarrow> AssetID \<Rightarrow> uint64"
  isOptedInToAsset :: "Address \<Rightarrow> AssetID \<Rightarrow> bool"
  authAddr :: "Address \<Rightarrow> Address"
  createdAppAddress :: Address
  itxnAccepted :: "itxn \<Rightarrow> bool"
  sha256 :: "raw \<Rightarrow> bytes32"
  ed25519VerifyBare :: "bytes32 \<Rightarrow> bytes64 \<Rightarrow> Address \<Rightarrow> bool"

subsection \<open>Sequencing, assertions, checked arithmetic\<close>

definition andThen :: "error + 'a \<Rightarrow> ('a \<Rightarrow> error + 'b) \<Rightarrow> error + 'b" where
  "andThen m f = (case m of Inl x \<Rightarrow> Inl x | Inr a \<Rightarrow> f a)"

definition assertTag :: "bool \<Rightarrow> error \<Rightarrow> error + unit" where
  "assertTag b x = (if b then Inr () else Inl x)"

definition add64 :: "uint64 \<Rightarrow> uint64 \<Rightarrow> error + uint64" where
  "add64 a b = (if unat a + unat b < 2 ^ 64 then Inr (a + b) else Inl ARITH_OVERFLOW)"

definition sub64 :: "uint64 \<Rightarrow> uint64 \<Rightarrow> error + uint64" where
  "sub64 a b = (if unat b \<le> unat a then Inr (a - b) else Inl ARITH_UNDERFLOW)"

definition valueOf :: "'a option \<Rightarrow> error + 'a" where
  "valueOf x = (case x of None \<Rightarrow> Inl VALUE_MISSING | Some v \<Rightarrow> Inr v)"

definition verifyPayTxn :: "PayTxn \<Rightarrow> Address \<Rightarrow> uint64 \<Rightarrow> error + unit" where
  "verifyPayTxn txn receiver amount =
     assertTag (ptx_receiver txn = receiver \<and> ptx_amount txn = amount) PAY_TXN_INVALID"

definition sendPayment :: "env \<Rightarrow> PaymentFields \<Rightarrow> error + itxn" where
  "sendPayment e f = (if itxnAccepted e (Payment f) then Inr (Payment f) else Inl INNER_TXN_REJECTED)"

definition sendAssetTransfer :: "env \<Rightarrow> AssetTransferFields \<Rightarrow> error + itxn" where
  "sendAssetTransfer e f =
     (if itxnAccepted e (AssetTransfer f) then Inr (AssetTransfer f) else Inl INNER_TXN_REJECTED)"

text \<open>
  \<^verbatim>\<open>ControlledAddress.new\<close>, reached by an inner application call that creates the factory
  application and deletes it at once: the new application rekeys its own account to the
  caller and returns that account's address.
\<close>

definition ControlledAddress_new :: "env \<Rightarrow> error + Address" where
  "ControlledAddress_new e =
     (if itxnAccepted e CreateControlledAddress then Inr (createdAppAddress e)
      else Inl INNER_TXN_REJECTED)"

subsection \<open>Access checks\<close>

definition onlyOwner :: "env \<Rightarrow> Master \<Rightarrow> error + unit" where
  "onlyOwner e s =
     andThen (valueOf (Ownable_owner s)) (\<lambda>owner. assertTag (sender e = owner) SENDER_NOT_ALLOWED)"

definition isOwner :: "env \<Rightarrow> Master \<Rightarrow> error + bool" where
  "isOwner e s = andThen (valueOf (Ownable_owner s)) (\<lambda>owner. Inr (sender e = owner))"

definition onlySettler :: "env \<Rightarrow> Master \<Rightarrow> error + unit" where
  "onlySettler e s =
     andThen (valueOf (settlerRoleAddress s)) (\<lambda>settler.
       assertTag (sender e = settler) SENDER_NOT_ALLOWED)"

text \<open>
  Modelled from the spec: \<^verbatim>\<open>Pausable.whenNotPaused\<close>, whose source file is not part of the
  sources at hand. The spec describes it as a boolean gate: debit, refund and settle require
  the system not to be paused. The tag of its assertion is not known; \<open>CONTRACT_PAUSED\<close>
  stands for it.
\<close>

definition whenNotPaused :: "Master \<Rightarrow> error + unit" where
  "whenNotPaused s = assertTag (\<not> Pausable_paused s) CONTRACT_PAUSED"

definition isCardFundOwner :: "env \<Rightarrow> Master \<Rightarrow> Address \<Rightarrow> error + bool" where
  "isCardFundOwner e s cardFund =
     andThen (assertTag (cardFunds s cardFund \<noteq> None) CARD_FUND_NOT_FOUND) (\<lambda>_.
     andThen (valueOf (cardFunds s cardFund)) (\<lambda>cardFundData.
     Inr (cf_owner cardFundData = sender e)))"

subsection \<open>Internal utilities\<close>

definition hashPartnerCardFund :: "env \<Rightarrow> Address \<Rightarrow> Address \<Rightarrow> bytes32" where
  "hashPartnerCardFund e partnerChannel cardFundOwner =
     sha256 e (rawBytesPCF \<lparr>pcf_partnerChannel = partnerChannel, pcf_cardFundOwner = cardFundOwner\<rparr>)"

definition getCardFundByPartner :: "env \<Rightarrow> Master \<Rightarrow> Address \<Rightarrow> Address \<Rightarrow> error + Address" where
  "getCardFundByPartner e s partnerChannel cardFundOwner =
     (let partnerCardFundOwnerKey = hashPartnerCardFund e partnerChannel cardFundOwner in
      andThen (assertTag (partnerCardFundOwner s partnerCardFundOwnerKey \<noteq> None) CARD_FUND_NOT_FOUND) (\<lambda>_.
      valueOf (partnerCardFundOwner s partnerCardFundOwnerKey)))"

definition getCardFundAssetMbr :: "env \<Rightarrow> uint64" where
  "getCardFundAssetMbr e = assetOptInMinBalance e"

definition cardFundAssetOptIn :: "env \<Rightarrow> Address \<Rightarrow> AssetID \<Rightarrow> error + itxn list \<times> event list" where
  "cardFundAssetOptIn e cardFund asset =
     andThen (assertTag (isOptedInToAsset e (appAddress e) asset) ASSET_NOT_OPTED_IN) (\<lambda>_.
     andThen (sendAssetTransfer e
        \<lparr>xfer_sender = cardFund, xfer_assetReceiver = cardFund, xfer_xferAsset = asset,
         xfer_assetAmount = 0, xfer_assetCloseTo = None, xfer_note = []\<rparr>) (\<lambda>optIn.
     Inr ([optIn], [CardFundAssetEnabled cardFund asset])))"

definition cardFundAssetCloseOut :: "env \<Rightarrow> Address \<Rightarrow> AssetID \<Rightarrow> error + itxn list \<times> event list" where
  "cardFundAssetCloseOut e cardFund asset =
     andThen (sendAssetTransfer e
        \<lparr>xfer_sender = cardFund, xfer_assetReceiver = cardFund, xfer_xferAsset = asset,
         xfer_assetAmount = 0, xfer_assetCloseTo = Some cardFund, xfer_note = []\<rparr>) (\<lambda>closeOut.
     andThen (sendPayment e
        \<lparr>pay_sender = cardFund, pay_receiver = sender e, pay_amount = getCardFundAssetMbr e,
         pay_closeRemainderTo = None\<rparr>) (\<lambda>refund.
     Inr ([closeOut, refund], [CardFundAssetDisabled cardFund asset])))"

text \<open>
  \<^verbatim>\<open>withdrawFunds\<close>. The source binds \<^verbatim>\<open>nonceValue\<close> to \<^verbatim>\<open>this.cardFunds(cardFund).value\<close>
  and assigns its field: in TEALScript a variable bound to a stored object refers to the
  storage, so the assignment writes the box.
\<close>

definition withdrawFunds ::
  "env \<Rightarrow> Master \<Rightarrow> Address \<Rightarrow> AssetID \<Rightarrow> uint64 \<Rightarrow> uint64 \<Rightarrow> uint64 \<Rightarrow> string
     \<Rightarrow> error + Master \<times> itxn list \<times> event list" where
  "withdrawFunds e s cardFund asset amount timestamp nonce withdrawalType =
     andThen (if amount > 0
        then andThen (sendAssetTransfer e
               \<lparr>xfer_sender = cardFund, xfer_assetReceiver = sender e, xfer_xferAsset = asset,
                xfer_assetAmount = amount, xfer_assetCloseTo = None, xfer_note = []\<rparr>) (\<lambda>t. Inr [t])
        else Inr []) (\<lambda>sent.
     andThen (valueOf (cardFunds s cardFund)) (\<lambda>nonceValue.
     Inr (s\<lparr>cardFunds := (cardFunds s)(cardFund \<mapsto> nonceValue\<lparr>cf_withdrawalNonce := nonce\<rparr>)\<rparr>,
          sent,
          [Withdrawal cardFund (sender e) asset amount
             (if withdrawalType = WithdrawalTypePermissionLess then timestamp else 0)
             (if withdrawalType = WithdrawalTypeApproved then timestamp else 0)
             nonce withdrawalType])))"

definition updateSettlementAddress :: "Master \<Rightarrow> AssetID \<Rightarrow> Address \<Rightarrow> Master \<times> event list" where
  "updateSettlementAddress s asset newSettlementAddress =
     (let oldSettlementAddress =
            (case settlementAddress s asset of Some a \<Rightarrow> a | None \<Rightarrow> zeroAddress)
      in (s\<lparr>settlementAddress := (settlementAddress s)(asset \<mapsto> newSettlementAddress)\<rparr>,
          [SettlementAddressChanged oldSettlementAddress newSettlementAddress]))"

definition transferOwnership_internal :: "Master \<Rightarrow> Address \<Rightarrow> Master \<times> event list" where
  "transferOwnership_internal s newOwner =
     (let previousOwner = (case Ownable_owner s of Some a \<Rightarrow> a | None \<Rightarrow> zeroAddress)
      in (s\<lparr>Ownable_owner := Some newOwner\<rparr>, [OwnershipTransferred previousOwner newOwner]))"

subsection \<open>Creation, ownership, pausing\<close>

text \<open>The storage of an application that has just been created: nothing is written yet.\<close>

definition emptyStorage :: Master where
  "emptyStorage =
     \<lparr>cardFundsSetup = Map.empty, cardFunds = Map.empty, cardFundsActiveCount = 0,
      partnerChannelsSetup = Map.empty, partnerChannels = Map.empty,
      partnerCardFundOwner = Map.empty, partnerChannelsActiveCount = 0,
      withdrawalWaitTime = 0, withdrawals = Map.empty, settlementNonce = 0,
      settlementAddress = Map.empty, settlerRoleAddress = None, Ownable_owner = None,
      Pausable_pauser = None, Pausable_paused = False\<rparr>"

definition deploy :: "env \<Rightarrow> Address \<Rightarrow> error + outcome" where
  "deploy e owner =
     (case transferOwnership_internal emptyStorage owner of (s1, ev) \<Rightarrow>
      Inr \<lparr>ret = RetAddress (appAddress e), st = s1\<lparr>Pausable_pauser := Some (sender e)\<rparr>,
           itxns = [], logs = ev\<rparr>)"

definition update :: "env \<Rightarrow> Master \<Rightarrow> error + outcome" where
  "update e s =
     andThen (onlyOwner e s) (\<lambda>_. Inr \<lparr>ret = Void, st = s, itxns = [], logs = []\<rparr>)"

definition destroy :: "env \<Rightarrow> Master \<Rightarrow> error + outcome" where
  "destroy e s =
     andThen (onlyOwner e s) (\<lambda>_.
     andThen (assertTag (cardFundsActiveCount s = 0) CARDFUNDS_STILL_ACTIVE) (\<lambda>_.
     andThen (assertTag (partnerChannelsActiveCount s = 0) PARTNERCHANNELS_STILL_ACTIVE) (\<lambda>_.
     andThen (valueOf (Ownable_owner s)) (\<lambda>owner.
     andThen (sendPayment e
        \<lparr>pay_sender = appAddress e, pay_receiver = appAddress e, pay_amount = 0,
         pay_closeRemainderTo = Some owner\<rparr>) (\<lambda>closing.
     Inr \<lparr>ret = Void, st = s, itxns = [closing], logs = []\<rparr>)))))"

definition transferOwnership :: "env \<Rightarrow> Master \<Rightarrow> Address \<Rightarrow> error + outcome" where
  "transferOwnership e s newOwner =
     andThen (onlyOwner e s) (\<lambda>_.
     (case transferOwnership_internal s newOwner of (s1, ev) \<Rightarrow>
      Inr \<lparr>ret = Void, st = s1, itxns = [], logs = ev\<rparr>))"

text \<open>
  Modelled from the spec: \<^verbatim>\<open>Pausable.pause\<close> and \<^verbatim>\<open>Pausable.unpause\<close>, whose source file
  is not part of the sources at hand. The spec describes the mixin as a pause/unpause gate
  held by a pauser role; \<^verbatim>\<open>deploy\<close> makes the deployer the pauser.
\<close>

definition pause :: "env \<Rightarrow> Master \<Rightarrow> error + outcome" where
  "pause e s =
     andThen (valueOf (Pausable_pauser s)) (\<lambda>pauser.
     andThen (assertTag (sender e = pauser) SENDER_NOT_ALLOWED) (\<lambda>_.
     Inr \<lparr>ret = Void, st = s\<lparr>Pausable_paused := True\<rparr>, itxns = [], logs = []\<rparr>))"

definition unpause :: "env \<Rightarrow> Master \<Rightarrow> error + outcome" where
  "unpause e s =
     andThen (valueOf (Pausable_pauser s)) (\<lambda>pauser.
     andThen (assertTag (sender e = pauser) SENDER_NOT_ALLOWED) (\<lambda>_.
     Inr \<lparr>ret = Void, st = s\<lparr>Pausable_paused := False\<rparr>, itxns = [], logs = []\<rparr>))"

subsection \<open>Owner methods\<close>

definition setWithdrawalTimeout :: "env \<Rightarrow> Master \<Rightarrow> uint64 \<Rightarrow> error + outcome" where
  "setWithdrawalTimeout e s seconds =
     andThen (onlyOwner e s) (\<lambda>_.
     Inr \<lparr>ret = Void, st = s\<lparr>withdrawalWaitTime := seconds\<rparr>, itxns = [], logs = []\<rparr>)"

definition setSettlerRole :: "env \<Rightarrow> Master \<Rightarrow> Address \<Rightarrow> error + outcome" where
  "setSettlerRole e s newSettlerAddress =
     andThen (onlyOwner e s) (\<lambda>_.
     Inr \<lparr>ret = Void, st = s\<lparr>settlerRoleAddress := Some newSettlerAddress\<rparr>, itxns = [], logs = []\<rparr>)"

definition setSettlementAddress :: "env \<Rightarrow> Master \<Rightarrow> AssetID \<Rightarrow> Address \<Rightarrow> error + outcome" where
  "setSettlementAddress e s settlementAsset newSettlementAddress =
     andThen (onlyOwner e s) (\<lambda>_.
     (case updateSettlementAddress s settlementAsset newSettlementAddress of (s1, ev) \<Rightarrow>
      Inr \<lparr>ret = Void, st = s1, itxns = [], logs = ev\<rparr>))"

subsection \<open>Partner channels\<close>

text \<open>
  The name is an ABI string, shorter than \<open>2 ^ 16\<close> bytes, so the sum stays far inside the
  64-bit range and the arithmetic is written with the plain word operations.
\<close>

definition getPartnerChannelBoxMbr :: "string \<Rightarrow> uint64" where
  "getPartnerChannelBoxMbr partnerChannelName =
     2500 + 400 * ((2 + 32) + (2 + 32 + 32 + (2 + of_nat (length partnerChannelName))))"

definition partnerChannelDeployInit :: "env \<Rightarrow> Master \<Rightarrow> PayTxn \<Rightarrow> string \<Rightarrow> error + outcome" where
  "partnerChannelDeployInit e s mbr partnerChannelName =
     andThen (verifyPayTxn mbr (appAddress e) (minBalance e)) (\<lambda>_.
     andThen (ControlledAddress_new e) (\<lambda>partnerChannelAddr.
     andThen (sendPayment e
        \<lparr>pay_sender = appAddress e, pay_receiver = partnerChannelAddr, pay_amount = minBalance e,
         pay_closeRemainderTo = None\<rparr>) (\<lambda>funding.
     andThen (assertTag (length partnerChannelName \<le> MaxPartnerChannelNameLength)
        PARTNER_CHANNEL_NAME_TOO_LONG) (\<lambda>_.
     (let partnerChannelData = \<lparr>pcs_partnerChannelName = partnerChannelName\<rparr> in
      Inr \<lparr>ret = RetAddress partnerChannelAddr,
           st = s\<lparr>partnerChannelsSetup :=
                  (partnerChannelsSetup s)((sender e, partnerChannelAddr) \<mapsto> partnerChannelData)\<rparr>,
           itxns = [CreateControlledAddress, funding], logs = []\<rparr>)))))"

definition partnerChannelDeployComplete :: "env \<Rightarrow> Master \<Rightarrow> PayTxn \<Rightarrow> Address \<Rightarrow> error + outcome" where
  "partnerChannelDeployComplete e s mbr partnerChannelAddr =
     andThen (assertTag (partnerChannelsSetup s (sender e, partnerChannelAddr) \<noteq> None)
        PARTNER_CHANNEL_NOT_FOUND) (\<lambda>_.
     andThen (valueOf (partnerChannelsSetup s (sender e, partnerChannelAddr))) (\<lambda>partnerChannelSetup.
     andThen (verifyPayTxn mbr (appAddress e)
        (getPartnerChannelBoxMbr (pcs_partnerChannelName partnerChannelSetup))) (\<lambda>_.
     andThen (assertTag (authAddr e partnerChannelAddr = appAddress e) INVALID_PARTNER_ADDRESS) (\<lambda>_.
     (let partnerChannelData =
            \<lparr>pc_partnerChannelName = pcs_partnerChannelName partnerChannelSetup,
             pc_owner = sender e, pc_address = partnerChannelAddr\<rparr> in
      andThen (add64 (partnerChannelsActiveCount s) 1) (\<lambda>count.
      Inr \<lparr>ret = RetAddress partnerChannelAddr,
           st = s\<lparr>partnerChannels := (partnerChannels s)(partnerChannelAddr \<mapsto> partnerChannelData),
                  partnerChannelsSetup := (partnerChannelsSetup s)((sender e, partnerChannelAddr) := None),
                  partnerChannelsActiveCount := count\<rparr>,
           itxns = [],
           logs = [PartnerChannelCreated partnerChannelAddr
                     (pc_partnerChannelName partnerChannelData)]\<rparr>))))))"

definition partnerChannelClose :: "env \<Rightarrow> Master \<Rightarrow> Address \<Rightarrow> error + outcome" where
  "partnerChannelClose e s partnerChannel =
     andThen (assertTag (partnerChannels s partnerChannel \<noteq> None) PARTNER_CHANNEL_NOT_FOUND) (\<lambda>_.
     andThen (valueOf (partnerChannels s partnerChannel)) (\<lambda>partnerChannelData.
     (let partnerChannelName = pc_partnerChannelName partnerChannelData;
          eventData = PartnerChannelClosed partnerChannel partnerChannelName in
      andThen (assertTag (pc_owner partnerChannelData = sender e) SENDER_NOT_ALLOWED) (\<lambda>_.
      andThen (sendPayment e
         \<lparr>pay_sender = partnerChannel, pay_receiver = partnerChannel, pay_amount = 0,
          pay_closeRemainderTo = Some (sender e)\<rparr>) (\<lambda>closing.
      (let boxCost = getPartnerChannelBoxMbr (pc_partnerChannelName partnerChannelData) in
       andThen (sendPayment e
          \<lparr>pay_sender = appAddress e, pay_receiver = sender e, pay_amount = boxCost,
           pay_closeRemainderTo = None\<rparr>) (\<lambda>refund.
       andThen (sub64 (partnerChannelsActiveCount s) 1) (\<lambda>count.
       Inr \<lparr>ret = Void,
            st = s\<lparr>partnerChannels := (partnerChannels s)(partnerChannel := None),
                   partnerChannelsActiveCount := count\<rparr>,
            itxns = [closing, refund], logs = [eventData]\<rparr>))))))))"

subsection \<open>Card funds\<close>

text \<open>
  The reference is an ABI string too. The source's comment gives the two box costs; the
  constants are kept as written.
\<close>

definition getCardFundBoxMbr :: "string \<Rightarrow> uint64" where
  "getCardFundBoxMbr reference =
     (let cardFundDataBoxCost =
            2500 + 400 * ((2 + 32) + ((32 + 32 + 32 + 8 + 8 + (2 + (2 + of_nat (length reference))))));
          partnerCardFundOwnerBoxCost = 2500 + 400 * (2 + 32 + 32)
      in cardFundDataBoxCost + partnerCardFundOwnerBoxCost)"

definition cardFundDeployInit ::
  "env \<Rightarrow> Master \<Rightarrow> PayTxn \<Rightarrow> Address \<Rightarrow> AssetID \<Rightarrow> string \<Rightarrow> error + outcome" where
  "cardFundDeployInit e s accountMbr partnerChannel asset reference =
     andThen (assertTag (partnerChannels s partnerChannel \<noteq> None) PARTNER_CHANNEL_NOT_FOUND) (\<lambda>_.
     andThen (assertTag (length reference \<le> MaxCardFundReferenceLength)
        CARD_FUND_REFERENCE_TOO_LONG) (\<lambda>_.
     (let partnerCardFundOwnerKey = hashPartnerCardFund e partnerChannel (sender e) in
      andThen (assertTag (partnerCardFundOwner s partnerCardFundOwnerKey = None)
         CARD_FUND_ALREADY_EXISTS) (\<lambda>_.
      (let assetMbr = (if asset \<noteq> 0 then assetOptInMinBalance e else 0) in
       andThen (add64 (minBalance e) assetMbr) (\<lambda>accountCost.
       andThen (verifyPayTxn accountMbr (appAddress e) accountCost) (\<lambda>_.
       andThen (ControlledAddress_new e) (\<lambda>cardFundAddr.
       andThen (sendPayment e
          \<lparr>pay_sender = appAddress e, pay_receiver = cardFundAddr, pay_amount = accountCost,
           pay_closeRemainderTo = None\<rparr>) (\<lambda>funding.
       andThen (if asset \<noteq> 0 then cardFundAssetOptIn e cardFundAddr asset else Inr ([], [])) (\<lambda>(optIn, ev).
       (let cardFundSetupData = \<lparr>cfs_partnerChannel = partnerChannel, cfs_reference = reference\<rparr> in
        Inr \<lparr>ret = RetAddress cardFundAddr,
             st = s\<lparr>cardFundsSetup := (cardFundsSetup s)((sender e, cardFundAddr) \<mapsto> cardFundSetupData)\<rparr>,
             itxns = [CreateControlledAddress, funding] @ optIn, logs = ev\<rparr>)))))))))))"

definition cardFundDeployComplete :: "env \<Rightarrow> Master \<Rightarrow> PayTxn \<Rightarrow> Address \<Rightarrow> error + outcome" where
  "cardFundDeployComplete e s boxMbr cardFundAddr =
     andThen (assertTag (cardFundsSetup s (sender e, cardFundAddr) \<noteq> None) CARD_FUND_NOT_FOUND) (\<lambda>_.
     andThen (valueOf (cardFundsSetup s (sender e, cardFundAddr))) (\<lambda>cardFundSetup.
     (let partnerCardFundOwnerKey =
            hashPartnerCardFund e (cfs_partnerChannel cardFundSetup) (sender e) in
      andThen (assertTag (partnerCardFundOwner s partnerCardFundOwnerKey = None)
         CARD_FUND_ALREADY_EXISTS) (\<lambda>_.
      andThen (verifyPayTxn boxMbr (appAddress e)
         (getCardFundBoxMbr (cfs_reference cardFundSetup))) (\<lambda>_.
      andThen (assertTag (authAddr e cardFundAddr = appAddress e) INVALID_CARD_ADDRESS) (\<lambda>_.
      (let cardFundData =
             \<lparr>cf_partnerChannel = cfs_partnerChannel cardFundSetup, cf_owner = sender e,
              cf_address = cardFundAddr, cf_paymentNonce = 0, cf_withdrawalNonce = 0,
              cf_reference = cfs_reference cardFundSetup\<rparr> in
       andThen (add64 (cardFundsActiveCount s) 1) (\<lambda>count.
       Inr \<lparr>ret = RetAddress cardFundAddr,
            st = s\<lparr>cardFunds := (cardFunds s)(cardFundAddr \<mapsto> cardFundData),
                   cardFundsActiveCount := count,
                   partnerCardFundOwner :=
                     (partnerCardFundOwner s)(partnerCardFundOwnerKey \<mapsto> cardFundAddr),
                   cardFundsSetup := (cardFundsSetup s)((sender e, cardFundAddr) := None)\<rparr>,
            itxns = [],
            logs = [CardFundCreated (sender e) cardFundAddr (cfs_partnerChannel cardFundSetup)
                      (cfs_reference cardFundSetup)]\<rparr>))))))))"

definition cardFundClose :: "env \<Rightarrow> Master \<Rightarrow> Address \<Rightarrow> error + outcome" where
  "cardFundClose e s cardFund =
     andThen (isCardFundOwner e s cardFund) (\<lambda>isHolder.
     andThen (assertTag isHolder SENDER_NOT_ALLOWED) (\<lambda>_.
     andThen (valueOf (cardFunds s cardFund)) (\<lambda>cardFundData.
     (let eventData = CardFundClosed (cf_owner cardFundData) cardFund
            (cf_partnerChannel cardFundData) (cf_reference cardFundData);
          partnerCardFundOwnerKey =
            hashPartnerCardFund e (cf_partnerChannel cardFundData) (cf_owner cardFundData) in
      andThen (sendPayment e
         \<lparr>pay_sender = cardFund, pay_receiver = cardFund, pay_amount = 0,
          pay_closeRemainderTo = Some (sender e)\<rparr>) (\<lambda>closing.
      (let boxCost = getCardFundBoxMbr (cf_reference cardFundData) in
       andThen (sendPayment e
          \<lparr>pay_sender = appAddress e, pay_receiver = sender e, pay_amount = boxCost,
           pay_closeRemainderTo = None\<rparr>) (\<lambda>refund.
       andThen (sub64 (cardFundsActiveCount s) 1) (\<lambda>count.
       Inr \<lparr>ret = Void,
            st = s\<lparr>cardFunds := (cardFunds s)(cardFund := None),
                   cardFundsActiveCount := count,
                   partnerCardFundOwner := (partnerCardFundOwner s)(partnerCardFundOwnerKey := None)\<rparr>,
            itxns = [closing, refund], logs = [eventData]\<rparr>))))))))"

subsection \<open>Asset allowlist\<close>

definition getAssetAllowlistMbr :: "env \<Rightarrow> error + uint64" where
  "getAssetAllowlistMbr e =
     (let assetSettlementAddressCost = 2500 + 400 * (2 + 8 + 32) in
      add64 (assetOptInMinBalance e) assetSettlementAddressCost)"

definition assetAllowlistAdd :: "env \<Rightarrow> Master \<Rightarrow> PayTxn \<Rightarrow> AssetID \<Rightarrow> Address \<Rightarrow> error + outcome" where
  "assetAllowlistAdd e s mbr asset settlementAddr =
     andThen (onlyOwner e s) (\<lambda>_.
     andThen (assertTag (\<not> isOptedInToAsset e (appAddress e) asset) ASSET_ALREADY_OPTED_IN) (\<lambda>_.
     andThen (getAssetAllowlistMbr e) (\<lambda>cost.
     andThen (verifyPayTxn mbr (appAddress e) cost) (\<lambda>_.
     andThen (sendAssetTransfer e
        \<lparr>xfer_sender = appAddress e, xfer_assetReceiver = appAddress e, xfer_xferAsset = asset,
         xfer_assetAmount = 0, xfer_assetCloseTo = None, xfer_note = []\<rparr>) (\<lambda>optIn.
     (case updateSettlementAddress s asset settlementAddr of (s1, ev) \<Rightarrow>
      Inr \<lparr>ret = Void, st = s1, itxns = [optIn], logs = AssetAllowlistAdded asset # ev\<rparr>))))))"

definition assetAllowlistRemove :: "env \<Rightarrow> Master \<Rightarrow> AssetID \<Rightarrow> error + outcome" where
  "assetAllowlistRemove e s asset =
     andThen (onlyOwner e s) (\<lambda>_.
     andThen (assertTag (isOptedInToAsset e (appAddress e) asset) ASSET_NOT_OPTED_IN) (\<lambda>_.
     andThen (sendAssetTransfer e
        \<lparr>xfer_sender = appAddress e, xfer_assetReceiver = appAddress e, xfer_xferAsset = asset,
         xfer_assetAmount = 0, xfer_assetCloseTo = Some (appAddress e), xfer_note = []\<rparr>) (\<lambda>closeOut.
     andThen (getAssetAllowlistMbr e) (\<lambda>cost.
     andThen (sendPayment e
        \<lparr>pay_sender = appAddress e, pay_receiver = sender e, pay_amount = cost,
         pay_closeRemainderTo = None\<rparr>) (\<lambda>refund.
     Inr \<lparr>ret = Void, st = s\<lparr>settlementAddress := (settlementAddress s)(asset := None)\<rparr>,
          itxns = [closeOut, refund], logs = [AssetAllowlistRemoved asset]\<rparr>)))))"

subsection \<open>Debit, refund, settlement\<close>

definition cardFundDebit ::
  "env \<Rightarrow> Master \<Rightarrow> Address \<Rightarrow> AssetID \<Rightarrow> uint64 \<Rightarrow> uint64 \<Rightarrow> string \<Rightarrow> error + outcome" where
  "cardFundDebit e s cardFund asset amount nonce ref =
     andThen (whenNotPaused s) (\<lambda>_.
     andThen (onlySettler e s) (\<lambda>_.
     andThen (valueOf (cardFunds s cardFund)) (\<lambda>cardFundData.
     andThen (add64 (cf_paymentNonce cardFundData) 1) (\<lambda>expectedPaymentNonce.
     andThen (assertTag (expectedPaymentNonce = nonce) NONCE_INVALID) (\<lambda>_.
     andThen (sendAssetTransfer e
        \<lparr>xfer_sender = cardFund, xfer_assetReceiver = appAddress e, xfer_xferAsset = asset,
         xfer_assetAmount = amount, xfer_assetCloseTo = None, xfer_note = ref\<rparr>) (\<lambda>transfer.
     Inr \<lparr>ret = Void,
          st = s\<lparr>cardFunds := (cardFunds s)(cardFund \<mapsto>
                   cardFundData\<lparr>cf_paymentNonce := expectedPaymentNonce\<rparr>)\<rparr>,
          itxns = [transfer], logs = [Debit cardFund asset amount nonce ref]\<rparr>))))))"

definition cardFundRefund ::
  "env \<Rightarrow> Master \<Rightarrow> Address \<Rightarrow> AssetID \<Rightarrow> uint64 \<Rightarrow> uint64 \<Rightarrow> string \<Rightarrow> error + outcome" where
  "cardFundRefund e s cardFund asset amount nonce ref =
     andThen (whenNotPaused s) (\<lambda>_.
     andThen (onlySettler e s) (\<lambda>_.
     andThen (valueOf (cardFunds s cardFund)) (\<lambda>cardFundData.
     andThen (add64 (cf_paymentNonce cardFundData) 1) (\<lambda>expectedPaymentNonce.
     andThen (assertTag (expectedPaymentNonce = nonce) NONCE_INVALID) (\<lambda>_.
     andThen (sendAssetTransfer e
        \<lparr>xfer_sender = appAddress e, xfer_assetReceiver = cardFund, xfer_xferAsset = asset,
         xfer_assetAmount = amount, xfer_assetCloseTo = None, xfer_note = ref\<rparr>) (\<lambda>transfer.
     Inr \<lparr>ret = Void,
          st = s\<lparr>cardFunds := (cardFunds s)(cardFund \<mapsto>
                   cardFundData\<lparr>cf_paymentNonce := expectedPaymentNonce\<rparr>)\<rparr>,
          itxns = [transfer], logs = [Refund cardFund asset amount nonce ref]\<rparr>))))))"

definition getSettlementAddress :: "Master \<Rightarrow> AssetID \<Rightarrow> error + Address" where
  "getSettlementAddress s asset =
     andThen (assertTag (settlementAddress s asset \<noteq> None) SETTLEMENT_ADDRESS_NOT_FOUND) (\<lambda>_.
     valueOf (settlementAddress s asset))"

definition settle :: "env \<Rightarrow> Master \<Rightarrow> AssetID \<Rightarrow> uint64 \<Rightarrow> uint64 \<Rightarrow> error + outcome" where
  "settle e s asset amount nonce =
     andThen (whenNotPaused s) (\<lambda>_.
     andThen (onlySettler e s) (\<lambda>_.
     andThen (add64 (settlementNonce s) 1) (\<lambda>expectedSettlementNonce.
     andThen (assertTag (expectedSettlementNonce = nonce) NONCE_INVALID) (\<lambda>_.
     andThen (getSettlementAddress s asset) (\<lambda>assetReceiver.
     andThen (sendAssetTransfer e
        \<lparr>xfer_sender = appAddress e, xfer_assetReceiver = assetReceiver, xfer_xferAsset = asset,
         xfer_assetAmount = amount, xfer_assetCloseTo = None, xfer_note = []\<rparr>) (\<lambda>transfer.
     Inr \<lparr>ret = Void, st = s\<lparr>settlementNonce := expectedSettlementNonce\<rparr>,
          itxns = [transfer], logs = [Settlement assetReceiver asset amount nonce]\<rparr>))))))"

subsection \<open>Card holder methods\<close>

text \<open>\<^verbatim>\<open>this.isOwner() || this.isCardFundOwner(cardFund)\<close>: the right operand runs only when the left is false.\<close>

definition isOwnerOrCardFundOwner :: "env \<Rightarrow> Master \<Rightarrow> Address \<Rightarrow> error + bool" where
  "isOwnerOrCardFundOwner e s cardFund =
     andThen (isOwner e s) (\<lambda>contractOwner.
     if contractOwner then Inr True else isCardFundOwner e s cardFund)"

definition cardFundEnableAsset :: "env \<Rightarrow> Master \<Rightarrow> PayTxn \<Rightarrow> Address \<Rightarrow> AssetID \<Rightarrow> error + outcome" where
  "cardFundEnableAsset e s mbr cardFund asset =
     andThen (isOwnerOrCardFundOwner e s cardFund) (\<lambda>allowed.
     andThen (assertTag allowed SENDER_NOT_ALLOWED) (\<lambda>_.
     andThen (verifyPayTxn mbr (appAddress e) (getCardFundAssetMbr e)) (\<lambda>_.
     andThen (sendPayment e
        \<lparr>pay_sender = appAddress e, pay_receiver = cardFund, pay_amount = getCardFundAssetMbr e,
         pay_closeRemainderTo = None\<rparr>) (\<lambda>funding.
     andThen (cardFundAssetOptIn e cardFund asset) (\<lambda>(optIn, ev).
     Inr \<lparr>ret = Void, st = s, itxns = funding # optIn, logs = ev\<rparr>)))))"

definition cardFundDisableAsset :: "env \<Rightarrow> Master \<Rightarrow> Address \<Rightarrow> AssetID \<Rightarrow> error + outcome" where
  "cardFundDisableAsset e s cardFund asset =
     andThen (isOwnerOrCardFundOwner e s cardFund) (\<lambda>allowed.
     andThen (assertTag allowed SENDER_NOT_ALLOWED) (\<lambda>_.
     andThen (cardFundAssetCloseOut e cardFund asset) (\<lambda>(sent, ev).
     Inr \<lparr>ret = Void, st = s, itxns = sent, logs = ev\<rparr>)))"

definition cardFundInitPermissionlessWithdrawal ::
  "env \<Rightarrow> Master \<Rightarrow> Address \<Rightarrow> AssetID \<Rightarrow> uint64 \<Rightarrow> error + outcome" where
  "cardFundInitPermissionlessWithdrawal e s cardFund asset amount =
     andThen (isCardFundOwner e s cardFund) (\<lambda>isHolder.
     andThen (assertTag isHolder SENDER_NOT_ALLOWED) (\<lambda>_.
     andThen (valueOf (cardFunds s cardFund)) (\<lambda>cardFundData.
     andThen (assertTag (amount \<le> assetBalance e cardFund asset) INSUFFICIENT_BALANCE) (\<lambda>_.
     andThen (add64 (cf_withdrawalNonce cardFundData) 1) (\<lambda>nextNonce.
     (let withdrawal =
            \<lparr>pwr_cardFund = cardFund, pwr_asset = asset, pwr_amount = amount,
             pwr_createdAt = latestTimestamp e, pwr_nonce = nextNonce\<rparr> in
      Inr \<lparr>ret = RetRequest withdrawal,
           st = s\<lparr>withdrawals := (withdrawals s)((sender e, cardFund) \<mapsto> withdrawal)\<rparr>,
           itxns = [],
           logs = [WithdrawalRequest cardFund (sender e) asset amount (latestTimestamp e)
                     nextNonce]\<rparr>))))))"

definition cardFundWithdrawalCancel :: "env \<Rightarrow> Master \<Rightarrow> Address \<Rightarrow> error + outcome" where
  "cardFundWithdrawalCancel e s cardFund =
     andThen (isCardFundOwner e s cardFund) (\<lambda>isHolder.
     andThen (assertTag isHolder SENDER_NOT_ALLOWED) (\<lambda>_.
     andThen (assertTag (withdrawals s (sender e, cardFund) \<noteq> None) WITHDRAWAL_REQUEST_NOT_FOUND) (\<lambda>_.
     andThen (valueOf (withdrawals s (sender e, cardFund))) (\<lambda>withdrawalRequest.
     Inr \<lparr>ret = Void,
          st = s\<lparr>withdrawals := (withdrawals s)((sender e, cardFund) := None)\<rparr>,
          itxns = [],
          logs = [WithdrawalRequestCancelled (pwr_cardFund withdrawalRequest) (sender e)
                    (pwr_asset withdrawalRequest) (pwr_amount withdrawalRequest)
                    (pwr_createdAt withdrawalRequest) (pwr_nonce withdrawalRequest)]\<rparr>))))"

definition cardFundExecutePermissionlessWithdrawal ::
  "env \<Rightarrow> Master \<Rightarrow> Address \<Rightarrow> uint64 \<Rightarrow> error + outcome" where
  "cardFundExecutePermissionlessWithdrawal e s cardFund amount =
     andThen (isCardFundOwner e s cardFund) (\<lambda>isHolder.
     andThen (assertTag isHolder SENDER_NOT_ALLOWED) (\<lambda>_.
     andThen (assertTag (withdrawals s (sender e, cardFund) \<noteq> None) WITHDRAWAL_REQUEST_NOT_FOUND) (\<lambda>_.
     andThen (valueOf (cardFunds s cardFund)) (\<lambda>cardFundData.
     andThen (valueOf (withdrawals s (sender e, cardFund))) (\<lambda>withdrawal.
     andThen (assertTag (amount \<le> pwr_amount withdrawal) AMOUNT_INVALID) (\<lambda>_.
     andThen (add64 (cf_withdrawalNonce cardFundData) 1) (\<lambda>nextNonce.
     andThen (assertTag (nextNonce = pwr_nonce withdrawal) NONCE_INVALID) (\<lambda>_.
     andThen (add64 (pwr_createdAt withdrawal) (withdrawalWaitTime s)) (\<lambda>releaseTime.
     andThen (assertTag (latestTimestamp e \<ge> releaseTime) WITHDRAWAL_TIME_INVALID) (\<lambda>_.
     andThen (withdrawFunds e s cardFund (pwr_asset withdrawal) amount (pwr_createdAt withdrawal)
        (pwr_nonce withdrawal) WithdrawalTypePermissionLess) (\<lambda>(s1, sent, ev).
     Inr \<lparr>ret = Void,
          st = s1\<lparr>withdrawals := (withdrawals s1)((sender e, cardFund) := None)\<rparr>,
          itxns = sent, logs = ev\<rparr>)))))))))))"

text \<open>
  \<^verbatim>\<open>while (globals.opcodeBudget < 2500) { increaseOpcodeBudget(); }\<close>: every round sends
  one inner application call, which adds the 700 units of one application call to the
  budget. The result is the list of the calls sent.
\<close>

function ensureOpcodeBudget :: "env \<Rightarrow> nat \<Rightarrow> error + itxn list" where
  "ensureOpcodeBudget e budget =
     (if budget < 2500
      then (if itxnAccepted e IncreaseOpcodeBudget
            then andThen (ensureOpcodeBudget e (budget + 700)) (\<lambda>calls.
                   Inr (IncreaseOpcodeBudget # calls))
            else Inl INNER_TXN_REJECTED)
      else Inr [])"
  by pat_completeness auto
termination
  by (relation "measure (\<lambda>(e, budget). 2500 - budget)") auto

definition cardFundExecuteApprovedWithdrawal ::
  "env \<Rightarrow> Master \<Rightarrow> Address \<Rightarrow> AssetID \<Rightarrow> uint64 \<Rightarrow> uint64 \<Rightarrow> uint64 \<Rightarrow> bytes64
     \<Rightarrow> error + outcome" where
  "cardFundExecuteApprovedWithdrawal e s cardFund asset amount expiresAt nonce signature =
     andThen (isCardFundOwner e s cardFund) (\<lambda>isHolder.
     andThen (assertTag isHolder SENDER_NOT_ALLOWED) (\<lambda>_.
     andThen (valueOf (cardFunds s cardFund)) (\<lambda>cardFundData.
     andThen (assertTag (latestTimestamp e < expiresAt) WITHDRAWAL_TIME_INVALID) (\<lambda>_.
     andThen (add64 (cf_withdrawalNonce cardFundData) 1) (\<lambda>expectedWithdrawalNonce.
     andThen (assertTag (expectedWithdrawalNonce = nonce) NONCE_INVALID) (\<lambda>_.
     (let withdrawal =
            \<lparr>awr_cardFund = cardFund, awr_recipient = sender e, awr_asset = asset,
             awr_amount = amount, awr_expiresAt = expiresAt, awr_nonce = nonce,
             awr_genesisHash = genesisHash e\<rparr>;
          withdrawalHash = sha256 e (rawBytesAWR withdrawal) in
      andThen (ensureOpcodeBudget e (opcodeBudget e)) (\<lambda>budgetCalls.
      andThen (valueOf (settlerRoleAddress s)) (\<lambda>settler.
      andThen (assertTag (ed25519VerifyBare e withdrawalHash signature settler) SIGNATURE_INVALID) (\<lambda>_.
      andThen (withdrawFunds e s cardFund asset amount expiresAt nonce WithdrawalTypeApproved)
        (\<lambda>(s1, sent, ev).
      Inr \<lparr>ret = Void, st = s1, itxns = budgetCalls @ sent, logs = ev\<rparr>)))))))))))"

subsection \<open>The contract as a transition system\<close>

datatype call =
    Update
  | Destroy
  | TransferOwnership Address
  | Pause
  | Unpause
  | SetWithdrawalTimeout uint64
  | SetSettlerRole Address
  | SetSettlementAddress AssetID Address
  | PartnerChannelDeployInit PayTxn string
  | PartnerChannelDeployComplete PayTxn Address
  | PartnerChannelClose Address
  | CardFundDeployInit PayTxn Address AssetID string
  | CardFundDeployComplete PayTxn Address
  | CardFundClose Address
  | AssetAllowlistAdd PayTxn AssetID Address
  | AssetAllowlistRemove AssetID
  | CardFundDebit Address AssetID uint64 uint64 string
  | CardFundRefund Address AssetID uint64 uint64 string
  | Settle AssetID uint64 uint64
  | CardFundEnableAsset PayTxn Address AssetID
  | CardFundDisableAsset Address AssetID
  | CardFundInitPermissionlessWithdrawal Address AssetID uint64
  | CardFundWithdrawalCancel Address
  | CardFundExecutePermissionlessWithdrawal Address uint64
  | CardFundExecuteApprovedWithdrawal Address AssetID uint64 uint64 uint64 bytes64

fun perform :: "env \<Rightarrow> Master \<Rightarrow> call \<Rightarrow> error + outcome" where
  "perform e s Update = update e s"
| "perform e s Destroy = destroy e s"
| "perform e s (TransferOwnership a) = transferOwnership e s a"
| "perform e s Pause = pause e s"
| "perform e s Unpause = unpause e s"
| "perform e s (SetWithdrawalTimeout n) = setWithdrawalTimeout e s n"
| "perform e s (SetSettlerRole a) = setSettlerRole e s a"
| "perform e s (SetSettlementAddress x a) = setSettlementAddress e s x a"
| "perform e s (PartnerChannelDeployInit p n) = partnerChannelDeployInit e s p n"
| "perform e s (PartnerChannelDeployComplete p a) = partnerChannelDeployComplete e s p a"
| "perform e s (PartnerChannelClose a) = partnerChannelClose e s a"
| "perform e s (CardFundDeployInit p a x r) = cardFundDeployInit e s p a x r"
| "perform e s (CardFundDeployComplete p a) = cardFundDeployComplete e s p a"
| "perform e s (CardFundClose a) = cardFundClose e s a"
| "perform e s (AssetAllowlistAdd p x a) = assetAllowlistAdd e s p x a"
| "perform e s (AssetAllowlistRemove x) = assetAllowlistRemove e s x"
| "perform e s (CardFundDebit a x n k r) = cardFundDebit e s a x n k r"
| "perform e s (CardFundRefund a x n k r) = cardFundRefund e s a x n k r"
| "perform e s (Settle x n k) = settle e s x n k"
| "perform e s (CardFundEnableAsset p a x) = cardFundEnableAsset e s p a x"
| "perform e s (CardFundDisableAsset a x) = cardFundDisableAsset e s a x"
| "perform e s (CardFundInitPermissionlessWithdrawal a x n) =
     cardFundInitPermissionlessWithdrawal e s a x n"
| "perform e s (CardFundWithdrawalCancel a) = cardFundWithdrawalCancel e s a"
| "perform e s (CardFundExecutePermissionlessWithdrawal a n) =
     cardFundExecutePermissionlessWithdrawal e s a n"
| "perform e s (CardFundExecuteApprovedWithdrawal a x n t k g) =
     cardFundExecuteApprovedWithdrawal e s a x n t k g"

text \<open>
  A rejected call leaves the storage as it was: the ledger commits a transaction whole or
  not at all.
\<close>

definition storageAfter :: "Master \<Rightarrow> error + outcome \<Rightarrow> Master" where
  "storageAfter s r = (case r of Inl _ \<Rightarrow> s | Inr out \<Rightarrow> st out)"

text \<open>
  An account that closes out of the application or clears its state loses its local
  storage: its pending set-ups and its withdrawal request.
\<close>

definition clearLocalState :: "Address \<Rightarrow> Master \<Rightarrow> Master" where
  "clearLocalState a s =
     s\<lparr>cardFundsSetup := (\<lambda>k. if fst k = a then None else cardFundsSetup s k),
       partnerChannelsSetup := (\<lambda>k. if fst k = a then None else partnerChannelsSetup s k),
       withdrawals := (\<lambda>k. if fst k = a then None else withdrawals s k)\<rparr>"

text \<open>
  The ledger derives the address of a newly created application from a counter that never
  repeats, so the account the factory creates has an address the contract has not recorded.
\<close>

definition freshAddress :: "Master \<Rightarrow> Address \<Rightarrow> bool" where
  "freshAddress s a =
     (cardFunds s a = None \<and> partnerChannels s a = None \<and>
      (\<forall>u. cardFundsSetup s (u, a) = None) \<and> (\<forall>u. partnerChannelsSetup s (u, a) = None))"

text \<open>
  The storages the contract can reach: it is created by \<^verbatim>\<open>deploy\<close>, and then any account
  calls any method, in any order, with any arguments and under any environment whose hash
  function is \<open>H\<close>, the one of the ledger, and whose factory address is fresh. A call
  that fails changes nothing, so only successful calls are steps. (\<^verbatim>\<open>update\<close> is the
  owner's permission to replace the program; what a replaced program does is not part of
  this model.)
\<close>

inductive reachable :: "(raw \<Rightarrow> bytes32) \<Rightarrow> Master \<Rightarrow> bool" for H :: "raw \<Rightarrow> bytes32" where
  reachable_deploy: "deploy e owner = Inr out \<Longrightarrow> reachable H (st out)"
| reachable_call:
    "reachable H s \<Longrightarrow> sha256 e = H \<Longrightarrow> freshAddress s (createdAppAddress e) \<Longrightarrow>
     perform e s c = Inr out \<Longrightarrow> reachable H (st out)"
| reachable_clear: "reachable H s \<Longrightarrow> reachable H (clearLocalState a s)"

subsection \<open>The registry invariant\<close>

text \<open>
  What holds of every reachable storage: the two counters count the entries of the two box
  maps; a pending set-up names an address that is not yet in the map, and no two accounts
  have a pending set-up for the same address; every card fund is indexed under the hash of
  its (partner channel, owner) pair, and every index entry points to such a card fund.
\<close>

definition registryInv :: "(raw \<Rightarrow> bytes32) \<Rightarrow> Master \<Rightarrow> bool" where
  "registryInv H s =
     (finite (dom (cardFunds s)) \<and> unat (cardFundsActiveCount s) = card (dom (cardFunds s)) \<and>
      finite (dom (partnerChannels s)) \<and>
      unat (partnerChannelsActiveCount s) = card (dom (partnerChannels s)) \<and>
      (\<forall>u a. cardFundsSetup s (u, a) \<noteq> None \<longrightarrow> cardFunds s a = None) \<and>
      (\<forall>u v a. cardFundsSetup s (u, a) \<noteq> None \<and> cardFundsSetup s (v, a) \<noteq> None \<longrightarrow> u = v) \<and>
      (\<forall>u a. partnerChannelsSetup s (u, a) \<noteq> None \<longrightarrow> partnerChannels s a = None) \<and>
      (\<forall>u v a. partnerChannelsSetup s (u, a) \<noteq> None \<and> partnerChannelsSetup s (v, a) \<noteq> None
         \<longrightarrow> u = v) \<and>
      (\<forall>f cf. cardFunds s f = Some cf \<longrightarrow>
         partnerCardFundOwner s
           (H (rawBytesPCF \<lparr>pcf_partnerChannel = cf_partnerChannel cf,
                            pcf_cardFundOwner = cf_owner cf\<rparr>)) = Some f) \<and>
      (\<forall>h f. partnerCardFundOwner s h = Some f \<longrightarrow>
         (\<exists>cf. cardFunds s f = Some cf \<and>
            h = H (rawBytesPCF \<lparr>pcf_partnerChannel = cf_partnerChannel cf,
                                pcf_cardFundOwner = cf_owner cf\<rparr>))))"

text \<open>What a call may do to the registry: the parts of the storage the invariant reads.\<close>

definition sameRegistry :: "Master \<Rightarrow> Master \<Rightarrow> bool" where
  "sameRegistry s t =
     (cardFunds t = cardFunds s \<and> cardFundsActiveCount t = cardFundsActiveCount s \<and>
      partnerChannels t = partnerChannels s \<and>
      partnerChannelsActiveCount t = partnerChannelsActiveCount s \<and>
      cardFundsSetup t = cardFundsSetup s \<and> partnerChannelsSetup t = partnerChannelsSetup s \<and>
      partnerCardFundOwner t = partnerCardFundOwner s)"

text \<open>
  What one call may do to the two nonces of a card fund that exists before and after it:
  nothing, or advance exactly one of them by one.
\<close>

definition nonceStep :: "CardFundData \<Rightarrow> CardFundData \<Rightarrow> bool" where
  "nonceStep cf0 cf1 =
     (cf_paymentNonce cf1 = cf_paymentNonce cf0 \<and> cf_withdrawalNonce cf1 = cf_withdrawalNonce cf0 \<or>
      unat (cf_paymentNonce cf1) = unat (cf_paymentNonce cf0) + 1 \<and>
        cf_withdrawalNonce cf1 = cf_withdrawalNonce cf0 \<or>
      cf_paymentNonce cf1 = cf_paymentNonce cf0 \<and>
        unat (cf_withdrawalNonce cf1) = unat (cf_withdrawalNonce cf0) + 1)"

subsection \<open>An example deployment\<close>

text \<open>
  Concrete values on which the theorems below are run: the contract owner is account 1, the
  settler account 2, a user account 3; the application's own account is 100; the factory
  hands out 200 for the partner channel ``Acme'' and 201 for the user's card fund; the asset
  is 5 and settles to account 9.
\<close>

definition exampleApproval :: ApprovedWithdrawalRequest where
  "exampleApproval =
     \<lparr>awr_cardFund = 201, awr_recipient = 3, awr_asset = 5, awr_amount = 50,
      awr_expiresAt = 2000, awr_nonce = 1, awr_genesisHash = 7\<rparr>"

definition exampleHash :: "raw \<Rightarrow> bytes32" where
  "exampleHash r =
     (case r of
        rawBytesPCF p \<Rightarrow> 2 + 1000 * pcf_partnerChannel p + pcf_cardFundOwner p
      | rawBytesAWR w \<Rightarrow> (if w = exampleApproval then 1 else 0))"

definition exampleEnv :: "Address \<Rightarrow> uint64 \<Rightarrow> Address \<Rightarrow> env" where
  "exampleEnv caller now created =
     \<lparr>sender = caller, appAddress = 100, latestTimestamp = now, genesisHash = 7,
      minBalance = 100000, assetOptInMinBalance = 100000, opcodeBudget = 700,
      assetBalance = (\<lambda>a x. if a = 201 \<and> x = 5 then 80 else 0),
      isOptedInToAsset = (\<lambda>a x. x = 5 \<and> (a = 100 \<or> a = 201)),
      authAddr = (\<lambda>a. if a = 200 \<or> a = 201 then 100 else a),
      createdAppAddress = created, itxnAccepted = (\<lambda>t. True), sha256 = exampleHash,
      ed25519VerifyBare = (\<lambda>h sg pk. h = 1 \<and> sg = 77 \<and> pk = 2)\<rparr>"

definition exampleBase :: Master where
  "exampleBase =
     emptyStorage\<lparr>Ownable_owner := Some 1, Pausable_pauser := Some 1,
       settlerRoleAddress := Some 2, withdrawalWaitTime := 86400,
       settlementAddress := [5 \<mapsto> 9]\<rparr>"

definition examplePendingChannel :: Master where
  "examplePendingChannel =
     exampleBase\<lparr>partnerChannelsSetup := [(3, 200) \<mapsto> \<lparr>pcs_partnerChannelName = ''Acme''\<rparr>]\<rparr>"

definition exampleChannel :: Master where
  "exampleChannel =
     exampleBase\<lparr>partnerChannels :=
         [200 \<mapsto> \<lparr>pc_partnerChannelName = ''Acme'', pc_owner = 3, pc_address = 200\<rparr>],
       partnerChannelsActiveCount := 1\<rparr>"

definition examplePendingFund :: Master where
  "examplePendingFund =
     exampleChannel\<lparr>cardFundsSetup :=
         [(3, 201) \<mapsto> \<lparr>cfs_partnerChannel = 200, cfs_reference = ''ref''\<rparr>]\<rparr>"

definition exampleFund :: Master where
  "exampleFund =
     exampleChannel\<lparr>cardFunds :=
         [201 \<mapsto> \<lparr>cf_partnerChannel = 200, cf_owner = 3, cf_address = 201, cf_paymentNonce = 0,
                   cf_withdrawalNonce = 0, cf_reference = ''ref''\<rparr>],
       cardFundsActiveCount := 1,
       partnerCardFundOwner := [200005 \<mapsto> 201]\<rparr>"

definition exampleRequest :: Master where
  "exampleRequest =
     exampleFund\<lparr>withdrawals :=
         [(3, 201) \<mapsto> \<lparr>pwr_cardFund = 201, pwr_asset = 5, pwr_amount = 50, pwr_createdAt = 1000,
                       pwr_nonce = 1\<rparr>]\<rparr>"

text \<open>
  The race of the two-phase protocol: the user has started two card funds under the same
  partner channel (201 and 202) and has completed the first.
\<close>

definition exampleRace :: Master where
  "exampleRace =
     exampleFund\<lparr>cardFundsSetup :=
         [(3, 202) \<mapsto> \<lparr>cfs_partnerChannel = 200, cfs_reference = ''ref''\<rparr>]\<rparr>"

text \<open>The card fund after its first withdrawal.\<close>

definition exampleWithdrawn :: Master where
  "exampleWithdrawn =
     exampleFund\<lparr>cardFunds :=
         [201 \<mapsto> \<lparr>cf_partnerChannel = 200, cf_owner = 3, cf_address = 201, cf_paymentNonce = 0,
                   cf_withdrawalNonce = 1, cf_reference = ''ref''\<rparr>]\<rparr>"

section \<open>Properties\<close>

subsection \<open>Unfolding the checks\<close>

lemmas check_defs = andThen_def assertTag_def valueOf_def verifyPayTxn_def sendPayment_def
  sendAssetTransfer_def add64_def sub64_def

lemmas example_defs = exampleEnv_def exampleBase_def examplePendingChannel_def
  exampleChannel_def examplePendingFund_def exampleFund_def exampleRequest_def
  exampleRace_def emptyStorage_def exampleHash_def exampleApproval_def

subsection \<open>When a call succeeds\<close>

lemma andThen_Inr_iff: "andThen m f = Inr y \<longleftrightarrow> (\<exists>x. m = Inr x \<and> f x = Inr y)"
  by (cases m) (simp_all add: andThen_def)

lemma andThen_Inr: "m = Inr x \<Longrightarrow> andThen m f = f x"
  by (simp add: andThen_def)

lemma andThen_Inl: "m = Inl x \<Longrightarrow> andThen m f = Inl x"
  by (simp add: andThen_def)

lemma assertTag_Inr_iff: "assertTag b x = Inr u \<longleftrightarrow> b"
  by (simp add: assertTag_def)

lemma assertTag_Inl_iff: "assertTag b x = Inl y \<longleftrightarrow> \<not> b \<and> y = x"
  by (auto simp: assertTag_def)

lemma valueOf_Inr_iff: "valueOf m = Inr v \<longleftrightarrow> m = Some v"
  by (cases m) (simp_all add: valueOf_def)

lemma add64_Inr_iff: "add64 a b = Inr c \<longleftrightarrow> unat a + unat b < 2 ^ 64 \<and> c = a + b"
  by (auto simp: add64_def)

lemma add64_unat: "add64 a b = Inr c \<Longrightarrow> unat c = unat a + unat b"
  using unat_add_lem [of a b] by (simp add: add64_Inr_iff)

lemma sub64_Inr_iff: "sub64 a b = Inr c \<longleftrightarrow> unat b \<le> unat a \<and> c = a - b"
  by (auto simp: sub64_def)

lemma sub64_unat: "sub64 a b = Inr c \<Longrightarrow> unat c = unat a - unat b"
  by (simp add: sub64_Inr_iff unat_sub word_le_nat_alt)

lemma sendAssetTransfer_Inr_iff:
  "sendAssetTransfer e f = Inr t \<longleftrightarrow> itxnAccepted e (AssetTransfer f) \<and> t = AssetTransfer f"
  by (auto simp: sendAssetTransfer_def)

lemma sendPayment_Inr_iff:
  "sendPayment e f = Inr t \<longleftrightarrow> itxnAccepted e (Payment f) \<and> t = Payment f"
  by (auto simp: sendPayment_def)

lemma isCardFundOwner_Inr_iff:
  "isCardFundOwner e s cardFund = Inr b \<longleftrightarrow>
     (\<exists>cf. cardFunds s cardFund = Some cf \<and> b = (cf_owner cf = sender e))"
  by (cases "cardFunds s cardFund") (auto simp: isCardFundOwner_def check_defs)

lemmas success_iffs = andThen_Inr_iff assertTag_Inr_iff valueOf_Inr_iff add64_Inr_iff sub64_Inr_iff
  sendAssetTransfer_Inr_iff sendPayment_Inr_iff isCardFundOwner_Inr_iff

lemma cardFundDebit_success:
  assumes "cardFundDebit e s cardFund asset amount nonce ref = Inr out"
  shows "\<exists>cf. cardFunds s cardFund = Some cf \<and> unat nonce = unat (cf_paymentNonce cf) + 1 \<and>
     st out = s\<lparr>cardFunds := (cardFunds s)(cardFund \<mapsto> cf\<lparr>cf_paymentNonce := nonce\<rparr>)\<rparr>"
  using assms unat_add_lem [of "cf_paymentNonce (the (cardFunds s cardFund))" 1]
  by (auto simp: cardFundDebit_def success_iffs)

lemma cardFundRefund_success:
  assumes "cardFundRefund e s cardFund asset amount nonce ref = Inr out"
  shows "\<exists>cf. cardFunds s cardFund = Some cf \<and> unat nonce = unat (cf_paymentNonce cf) + 1 \<and>
     st out = s\<lparr>cardFunds := (cardFunds s)(cardFund \<mapsto> cf\<lparr>cf_paymentNonce := nonce\<rparr>)\<rparr>"
  using assms unat_add_lem [of "cf_paymentNonce (the (cardFunds s cardFund))" 1]
  by (auto simp: cardFundRefund_def success_iffs)

lemma withdrawFunds_success:
  assumes "withdrawFunds e s cardFund asset amount timestamp nonce wt = Inr (s1, sent, ev)"
  shows "\<exists>cf. cardFunds s cardFund = Some cf \<and>
     s1 = s\<lparr>cardFunds := (cardFunds s)(cardFund \<mapsto> cf\<lparr>cf_withdrawalNonce := nonce\<rparr>)\<rparr> \<and>
     sent = (if amount > 0 then [AssetTransfer
               \<lparr>xfer_sender = cardFund, xfer_assetReceiver = sender e, xfer_xferAsset = asset,
                xfer_assetAmount = amount, xfer_assetCloseTo = None, xfer_note = []\<rparr>] else []) \<and>
     ev = [Withdrawal cardFund (sender e) asset amount
             (if wt = WithdrawalTypePermissionLess then timestamp else 0)
             (if wt = WithdrawalTypeApproved then timestamp else 0)
             nonce wt]"
  using assms by (auto simp: withdrawFunds_def success_iffs split: if_splits)

lemma executePermissionless_success:
  assumes "cardFundExecutePermissionlessWithdrawal e s cardFund amount = Inr out"
  shows "\<exists>cf w. cardFunds s cardFund = Some cf \<and> cf_owner cf = sender e \<and>
     withdrawals s (sender e, cardFund) = Some w \<and> amount \<le> pwr_amount w \<and>
     unat (pwr_nonce w) = unat (cf_withdrawalNonce cf) + 1 \<and>
     pwr_nonce w = cf_withdrawalNonce cf + 1 \<and>
     unat (pwr_createdAt w) + unat (withdrawalWaitTime s) \<le> unat (latestTimestamp e) \<and>
     st out = s\<lparr>cardFunds := (cardFunds s)(cardFund \<mapsto> cf\<lparr>cf_withdrawalNonce := pwr_nonce w\<rparr>),
                withdrawals := (withdrawals s)((sender e, cardFund) := None)\<rparr> \<and>
     itxns out = (if amount > 0 then [AssetTransfer
               \<lparr>xfer_sender = cardFund, xfer_assetReceiver = sender e, xfer_xferAsset = pwr_asset w,
                xfer_assetAmount = amount, xfer_assetCloseTo = None, xfer_note = []\<rparr>] else []) \<and>
     logs out = [Withdrawal cardFund (sender e) (pwr_asset w) amount (pwr_createdAt w) 0
                   (pwr_nonce w) WithdrawalTypePermissionLess]"
proof -
  from assms obtain cf w s1 sent ev where
    cf: "cardFunds s cardFund = Some cf" and own: "cf_owner cf = sender e"
    and w: "withdrawals s (sender e, cardFund) = Some w" and am: "amount \<le> pwr_amount w"
    and n1: "unat (cf_withdrawalNonce cf) + unat (1::uint64) < 2 ^ 64"
    and n2: "cf_withdrawalNonce cf + 1 = pwr_nonce w"
    and t1: "unat (pwr_createdAt w) + unat (withdrawalWaitTime s) < 2 ^ 64"
    and t2: "pwr_createdAt w + withdrawalWaitTime s \<le> latestTimestamp e"
    and wf: "withdrawFunds e s cardFund (pwr_asset w) amount (pwr_createdAt w) (pwr_nonce w)
        WithdrawalTypePermissionLess = Inr (s1, sent, ev)"
    and out: "out = \<lparr>ret = Void, st = s1\<lparr>withdrawals := (withdrawals s1)((sender e, cardFund) := None)\<rparr>,
          itxns = sent, logs = ev\<rparr>"
    by (auto simp: cardFundExecutePermissionlessWithdrawal_def success_iffs)
  from n1 n2 have n: "unat (pwr_nonce w) = unat (cf_withdrawalNonce cf) + 1"
    using unat_add_lem [of "cf_withdrawalNonce cf" 1] by simp
  from t1 t2 have t: "unat (pwr_createdAt w) + unat (withdrawalWaitTime s) \<le> unat (latestTimestamp e)"
    using unat_add_lem [of "pwr_createdAt w" "withdrawalWaitTime s"] by (simp add: word_le_nat_alt)
  from withdrawFunds_success [OF wf] cf out own w am n n2 t show ?thesis
    by (auto simp: WithdrawalTypePermissionLess_def WithdrawalTypeApproved_def)
qed

lemma sameRegistry_inv: "sameRegistry s t \<Longrightarrow> registryInv H s \<Longrightarrow> registryInv H t"
  by (simp add: sameRegistry_def registryInv_def)

lemma update_same: "update e s = Inr out \<Longrightarrow> sameRegistry s (st out)"
  by (auto simp: update_def success_iffs sameRegistry_def)

lemma destroy_same: "destroy e s = Inr out \<Longrightarrow> sameRegistry s (st out)"
  by (auto simp: destroy_def success_iffs sameRegistry_def)

lemma transferOwnership_same: "transferOwnership e s a = Inr out \<Longrightarrow> sameRegistry s (st out)"
  by (auto simp: transferOwnership_def transferOwnership_internal_def success_iffs sameRegistry_def Let_def)

lemma pause_same: "pause e s = Inr out \<Longrightarrow> sameRegistry s (st out)"
  by (auto simp: pause_def success_iffs sameRegistry_def)

lemma unpause_same: "unpause e s = Inr out \<Longrightarrow> sameRegistry s (st out)"
  by (auto simp: unpause_def success_iffs sameRegistry_def)

lemma setWithdrawalTimeout_same: "setWithdrawalTimeout e s n = Inr out \<Longrightarrow> sameRegistry s (st out)"
  by (auto simp: setWithdrawalTimeout_def success_iffs sameRegistry_def)

lemma setSettlerRole_same: "setSettlerRole e s a = Inr out \<Longrightarrow> sameRegistry s (st out)"
  by (auto simp: setSettlerRole_def success_iffs sameRegistry_def)

lemma setSettlementAddress_same: "setSettlementAddress e s x a = Inr out \<Longrightarrow> sameRegistry s (st out)"
  by (auto simp: setSettlementAddress_def updateSettlementAddress_def success_iffs sameRegistry_def Let_def)

lemma assetAllowlistAdd_same: "assetAllowlistAdd e s p x a = Inr out \<Longrightarrow> sameRegistry s (st out)"
  by (auto simp: assetAllowlistAdd_def updateSettlementAddress_def success_iffs sameRegistry_def Let_def)

lemma assetAllowlistRemove_same: "assetAllowlistRemove e s x = Inr out \<Longrightarrow> sameRegistry s (st out)"
  by (auto simp: assetAllowlistRemove_def success_iffs sameRegistry_def)

lemma settle_same: "settle e s x n k = Inr out \<Longrightarrow> sameRegistry s (st out)"
  by (auto simp: settle_def success_iffs sameRegistry_def)

lemma cardFundEnableAsset_same: "cardFundEnableAsset e s p a x = Inr out \<Longrightarrow> sameRegistry s (st out)"
  by (auto simp: cardFundEnableAsset_def success_iffs sameRegistry_def split: prod.splits)

lemma cardFundDisableAsset_same: "cardFundDisableAsset e s a x = Inr out \<Longrightarrow> sameRegistry s (st out)"
  by (auto simp: cardFundDisableAsset_def success_iffs sameRegistry_def split: prod.splits)

lemma initWithdrawal_same:
  "cardFundInitPermissionlessWithdrawal e s a x n = Inr out \<Longrightarrow> sameRegistry s (st out)"
  by (auto simp: cardFundInitPermissionlessWithdrawal_def success_iffs sameRegistry_def Let_def)

lemma withdrawalCancel_same: "cardFundWithdrawalCancel e s a = Inr out \<Longrightarrow> sameRegistry s (st out)"
  by (auto simp: cardFundWithdrawalCancel_def success_iffs sameRegistry_def)

lemma registryInv_pendingFund:
  "registryInv H s \<Longrightarrow> cardFundsSetup s (u, a) \<noteq> None \<Longrightarrow> cardFunds s a = None"
  unfolding registryInv_def by blast

lemma registryInv_pendingFund_unique:
  "registryInv H s \<Longrightarrow> cardFundsSetup s (u, a) \<noteq> None \<Longrightarrow>
   cardFundsSetup s (v, a) \<noteq> None \<Longrightarrow> u = v"
  unfolding registryInv_def by blast

lemma registryInv_pendingChannel:
  "registryInv H s \<Longrightarrow> partnerChannelsSetup s (u, a) \<noteq> None \<Longrightarrow> partnerChannels s a = None"
  unfolding registryInv_def by blast

lemma registryInv_pendingChannel_unique:
  "registryInv H s \<Longrightarrow> partnerChannelsSetup s (u, a) \<noteq> None \<Longrightarrow>
   partnerChannelsSetup s (v, a) \<noteq> None \<Longrightarrow> u = v"
  unfolding registryInv_def by blast

lemma registryInv_indexed:
  "registryInv H s \<Longrightarrow> cardFunds s f = Some cf \<Longrightarrow>
   partnerCardFundOwner s
     (H (rawBytesPCF \<lparr>pcf_partnerChannel = cf_partnerChannel cf,
                      pcf_cardFundOwner = cf_owner cf\<rparr>)) = Some f"
  unfolding registryInv_def by blast

lemma registryInv_index_active:
  "registryInv H s \<Longrightarrow> partnerCardFundOwner s h = Some f \<Longrightarrow>
   \<exists>cf. cardFunds s f = Some cf \<and>
     h = H (rawBytesPCF \<lparr>pcf_partnerChannel = cf_partnerChannel cf,
                         pcf_cardFundOwner = cf_owner cf\<rparr>)"
  unfolding registryInv_def by blast

lemma registryInv_counts:
  "registryInv H s \<Longrightarrow>
   finite (dom (cardFunds s)) \<and> unat (cardFundsActiveCount s) = card (dom (cardFunds s)) \<and>
   finite (dom (partnerChannels s)) \<and>
   unat (partnerChannelsActiveCount s) = card (dom (partnerChannels s))"
  unfolding registryInv_def by blast

lemma nonce_update_inv:
  assumes inv: "registryInv H s" and f: "cardFunds s f = Some cf"
    and p: "cf_partnerChannel cf' = cf_partnerChannel cf" and ow: "cf_owner cf' = cf_owner cf"
    and t: "cardFunds t = (cardFunds s)(f \<mapsto> cf')"
      "cardFundsActiveCount t = cardFundsActiveCount s"
      "partnerChannels t = partnerChannels s"
      "partnerChannelsActiveCount t = partnerChannelsActiveCount s"
      "cardFundsSetup t = cardFundsSetup s" "partnerChannelsSetup t = partnerChannelsSetup s"
      "partnerCardFundOwner t = partnerCardFundOwner s"
  shows "registryInv H t"
proof -
  from f have d: "dom ((cardFunds s)(f \<mapsto> cf')) = dom (cardFunds s)" by auto
  show ?thesis
    unfolding registryInv_def t d
  proof (intro conjI allI impI)
    fix u a assume "cardFundsSetup s (u, a) \<noteq> None"
    from registryInv_pendingFund [OF inv this] f
    show "((cardFunds s)(f \<mapsto> cf')) a = None" by auto
  next
    fix g cg assume g: "((cardFunds s)(f \<mapsto> cf')) g = Some cg"
    show "partnerCardFundOwner s
           (H (rawBytesPCF \<lparr>pcf_partnerChannel = cf_partnerChannel cg,
                            pcf_cardFundOwner = cf_owner cg\<rparr>)) = Some g"
    proof (cases "g = f")
      case True
      with g have "cg = cf'" by simp
      with registryInv_indexed [OF inv f] p ow True show ?thesis by simp
    next
      case False
      with g have "cardFunds s g = Some cg" by simp
      from registryInv_indexed [OF inv this] show ?thesis .
    qed
  next
    fix h g assume "partnerCardFundOwner s h = Some g"
    from registryInv_index_active [OF inv this] obtain cg where
      cg: "cardFunds s g = Some cg"
        "h = H (rawBytesPCF \<lparr>pcf_partnerChannel = cf_partnerChannel cg,
                              pcf_cardFundOwner = cf_owner cg\<rparr>)" by blast
    show "\<exists>cg. ((cardFunds s)(f \<mapsto> cf')) g = Some cg \<and>
            h = H (rawBytesPCF \<lparr>pcf_partnerChannel = cf_partnerChannel cg,
                                pcf_cardFundOwner = cf_owner cg\<rparr>)"
    proof (cases "g = f")
      case True
      with cg f have "cg = cf" by simp
      with cg p ow True show ?thesis by (intro exI [of _ cf']) simp
    next
      case False
      with cg show ?thesis by (intro exI [of _ cg]) simp
    qed
  next
    fix u v a
    assume "cardFundsSetup s (u, a) \<noteq> None \<and> cardFundsSetup s (v, a) \<noteq> None"
    then show "u = v" using registryInv_pendingFund_unique [OF inv] by blast
  next
    fix u a assume "partnerChannelsSetup s (u, a) \<noteq> None"
    from registryInv_pendingChannel [OF inv this] show "partnerChannels s a = None" .
  next
    fix u v a
    assume "partnerChannelsSetup s (u, a) \<noteq> None \<and> partnerChannelsSetup s (v, a) \<noteq> None"
    then show "u = v" using registryInv_pendingChannel_unique [OF inv] by blast
  qed (use registryInv_counts [OF inv] in simp_all)
qed

lemma cardFundDebit_inv:
  assumes "cardFundDebit e s a x n k r = Inr out" "registryInv H s"
  shows "registryInv H (st out)"
proof -
  from cardFundDebit_success [OF assms(1)] obtain cf where
    cf: "cardFunds s a = Some cf" and
    st: "st out = s\<lparr>cardFunds := (cardFunds s)(a \<mapsto> cf\<lparr>cf_paymentNonce := k\<rparr>)\<rparr>" by blast
  show ?thesis
    by (rule nonce_update_inv [OF assms(2) cf, of "cf\<lparr>cf_paymentNonce := k\<rparr>"]) (simp_all add: st)
qed

lemma cardFundRefund_inv:
  assumes "cardFundRefund e s a x n k r = Inr out" "registryInv H s"
  shows "registryInv H (st out)"
proof -
  from cardFundRefund_success [OF assms(1)] obtain cf where
    cf: "cardFunds s a = Some cf" and
    st: "st out = s\<lparr>cardFunds := (cardFunds s)(a \<mapsto> cf\<lparr>cf_paymentNonce := k\<rparr>)\<rparr>" by blast
  show ?thesis
    by (rule nonce_update_inv [OF assms(2) cf, of "cf\<lparr>cf_paymentNonce := k\<rparr>"]) (simp_all add: st)
qed

lemma executePermissionless_storage:
  assumes "cardFundExecutePermissionlessWithdrawal e s a n = Inr out"
  shows "\<exists>cf k. cardFunds s a = Some cf \<and>
    st out = s\<lparr>cardFunds := (cardFunds s)(a \<mapsto> cf\<lparr>cf_withdrawalNonce := k\<rparr>),
               withdrawals := (withdrawals s)((sender e, a) := None)\<rparr>"
  using executePermissionless_success [OF assms]
  by (elim exE conjE, intro exI conjI) assumption+

lemma executePermissionless_inv:
  assumes "cardFundExecutePermissionlessWithdrawal e s a n = Inr out" "registryInv H s"
  shows "registryInv H (st out)"
proof -
  from executePermissionless_storage [OF assms(1)] obtain cf k where
    cf: "cardFunds s a = Some cf" and
    st: "st out = s\<lparr>cardFunds := (cardFunds s)(a \<mapsto> cf\<lparr>cf_withdrawalNonce := k\<rparr>),
                withdrawals := (withdrawals s)((sender e, a) := None)\<rparr>" by blast
  show ?thesis
    by (rule nonce_update_inv [OF assms(2) cf, of "cf\<lparr>cf_withdrawalNonce := k\<rparr>"])
      (simp_all add: st)
qed

lemma ensureOpcodeBudget_calls:
  "ensureOpcodeBudget e b = Inr calls \<Longrightarrow> calls = replicate (length calls) IncreaseOpcodeBudget"
proof (induction e b arbitrary: calls rule: ensureOpcodeBudget.induct)
  case (1 e budget)
  show ?case
  proof (cases "budget < 2500")
    case True
    with "1.prems" obtain r where
      acc: "itxnAccepted e IncreaseOpcodeBudget" and
      r: "ensureOpcodeBudget e (budget + 700) = Inr r" and c: "calls = IncreaseOpcodeBudget # r"
      by (subst (asm) ensureOpcodeBudget.simps) (auto simp: andThen_Inr_iff split: if_splits)
    from "1.IH" [OF True acc r] c show ?thesis by simp
  next
    case False
    with "1.prems" show ?thesis by (subst (asm) ensureOpcodeBudget.simps) simp
  qed
qed

lemma ensureOpcodeBudget_accepted:
  "itxnAccepted e IncreaseOpcodeBudget \<Longrightarrow> \<exists>calls. ensureOpcodeBudget e b = Inr calls"
proof (induction e b rule: ensureOpcodeBudget.induct)
  case (1 e budget)
  show ?case
  proof (cases "budget < 2500")
    case True
    from "1.IH" [OF True "1.prems" "1.prems"] obtain r where
      "ensureOpcodeBudget e (budget + 700) = Inr r" by blast
    with True "1.prems" show ?thesis
      by (subst ensureOpcodeBudget.simps) (simp add: andThen_def)
  next
    case False
    then show ?thesis by (subst ensureOpcodeBudget.simps) simp
  qed
qed

lemma ensureOpcodeBudget_enough:
  "budget \<ge> 2500 \<Longrightarrow> ensureOpcodeBudget e budget = Inr []"
  by (subst ensureOpcodeBudget.simps) simp

lemma executeApproved_success_iff:
  "cardFundExecuteApprovedWithdrawal e s cardFund asset amount expiresAt nonce sg = Inr out \<longleftrightarrow>
     (\<exists>cf settler calls.
        cardFunds s cardFund = Some cf \<and> cf_owner cf = sender e \<and>
        latestTimestamp e < expiresAt \<and>
        unat (cf_withdrawalNonce cf) + 1 < 2 ^ 64 \<and> nonce = cf_withdrawalNonce cf + 1 \<and>
        ensureOpcodeBudget e (opcodeBudget e) = Inr calls \<and>
        settlerRoleAddress s = Some settler \<and>
        ed25519VerifyBare e
          (sha256 e (rawBytesAWR
             \<lparr>awr_cardFund = cardFund, awr_recipient = sender e, awr_asset = asset,
              awr_amount = amount, awr_expiresAt = expiresAt, awr_nonce = nonce,
              awr_genesisHash = genesisHash e\<rparr>)) sg settler \<and>
        (amount > 0 \<longrightarrow> itxnAccepted e (AssetTransfer
               \<lparr>xfer_sender = cardFund, xfer_assetReceiver = sender e, xfer_xferAsset = asset,
                xfer_assetAmount = amount, xfer_assetCloseTo = None, xfer_note = []\<rparr>)) \<and>
        out = \<lparr>ret = Void,
               st = s\<lparr>cardFunds := (cardFunds s)(cardFund \<mapsto> cf\<lparr>cf_withdrawalNonce := nonce\<rparr>)\<rparr>,
               itxns = calls @ (if amount > 0 then [AssetTransfer
                 \<lparr>xfer_sender = cardFund, xfer_assetReceiver = sender e, xfer_xferAsset = asset,
                  xfer_assetAmount = amount, xfer_assetCloseTo = None, xfer_note = []\<rparr>] else []),
               logs = [Withdrawal cardFund (sender e) asset amount 0 expiresAt nonce
                         WithdrawalTypeApproved]\<rparr>)"
  by (auto simp: cardFundExecuteApprovedWithdrawal_def withdrawFunds_def success_iffs Let_def
      WithdrawalTypePermissionLess_def WithdrawalTypeApproved_def split: if_splits)

lemma executeApproved_inv:
  assumes "cardFundExecuteApprovedWithdrawal e s a x n t k g = Inr out" "registryInv H s"
  shows "registryInv H (st out)"
proof -
  from assms(1) obtain cf where
    cf: "cardFunds s a = Some cf" and
    st: "st out = s\<lparr>cardFunds := (cardFunds s)(a \<mapsto> cf\<lparr>cf_withdrawalNonce := k\<rparr>)\<rparr>"
    unfolding executeApproved_success_iff by auto
  show ?thesis
    by (rule nonce_update_inv [OF assms(2) cf, of "cf\<lparr>cf_withdrawalNonce := k\<rparr>"])
      (simp_all add: st)
qed

lemma partnerChannelDeployInit_success:
  assumes "partnerChannelDeployInit e s mbr name = Inr out"
  shows "length name \<le> MaxPartnerChannelNameLength \<and>
    st out = s\<lparr>partnerChannelsSetup := (partnerChannelsSetup s)
       ((sender e, createdAppAddress e) \<mapsto> \<lparr>pcs_partnerChannelName = name\<rparr>)\<rparr>"
  using assms
  by (auto simp: partnerChannelDeployInit_def ControlledAddress_new_def verifyPayTxn_def
      success_iffs Let_def split: if_splits)

lemma cardFundDeployInit_success:
  assumes "cardFundDeployInit e s mbr pc asset reference = Inr out"
  shows "partnerChannels s pc \<noteq> None \<and> length reference \<le> MaxCardFundReferenceLength \<and>
    partnerCardFundOwner s (hashPartnerCardFund e pc (sender e)) = None \<and>
    st out = s\<lparr>cardFundsSetup := (cardFundsSetup s)
       ((sender e, createdAppAddress e) \<mapsto> \<lparr>cfs_partnerChannel = pc, cfs_reference = reference\<rparr>)\<rparr>"
  using assms
  by (auto simp: cardFundDeployInit_def ControlledAddress_new_def verifyPayTxn_def
      success_iffs Let_def split: if_splits prod.splits)

lemma partnerChannelDeployComplete_success:
  assumes "partnerChannelDeployComplete e s mbr a = Inr out"
  shows "\<exists>pcs. partnerChannelsSetup s (sender e, a) = Some pcs \<and>
    ptx_receiver mbr = appAddress e \<and>
    ptx_amount mbr = getPartnerChannelBoxMbr (pcs_partnerChannelName pcs) \<and>
    authAddr e a = appAddress e \<and>
    unat (partnerChannelsActiveCount s) + 1 < 2 ^ 64 \<and>
    st out = s\<lparr>partnerChannels := (partnerChannels s)(a \<mapsto>
                   \<lparr>pc_partnerChannelName = pcs_partnerChannelName pcs, pc_owner = sender e,
                    pc_address = a\<rparr>),
                partnerChannelsSetup := (partnerChannelsSetup s)((sender e, a) := None),
                partnerChannelsActiveCount := partnerChannelsActiveCount s + 1\<rparr>"
  using assms
  by (auto simp: partnerChannelDeployComplete_def verifyPayTxn_def success_iffs Let_def)

lemma cardFundDeployComplete_success:
  assumes "cardFundDeployComplete e s mbr a = Inr out"
  shows "\<exists>cfs. cardFundsSetup s (sender e, a) = Some cfs \<and>
    partnerCardFundOwner s (hashPartnerCardFund e (cfs_partnerChannel cfs) (sender e)) = None \<and>
    ptx_receiver mbr = appAddress e \<and>
    ptx_amount mbr = getCardFundBoxMbr (cfs_reference cfs) \<and>
    authAddr e a = appAddress e \<and>
    unat (cardFundsActiveCount s) + 1 < 2 ^ 64 \<and>
    st out = s\<lparr>cardFunds := (cardFunds s)(a \<mapsto>
                   \<lparr>cf_partnerChannel = cfs_partnerChannel cfs, cf_owner = sender e,
                    cf_address = a, cf_paymentNonce = 0, cf_withdrawalNonce = 0,
                    cf_reference = cfs_reference cfs\<rparr>),
                cardFundsActiveCount := cardFundsActiveCount s + 1,
                partnerCardFundOwner := (partnerCardFundOwner s)
                   (hashPartnerCardFund e (cfs_partnerChannel cfs) (sender e) \<mapsto> a),
                cardFundsSetup := (cardFundsSetup s)((sender e, a) := None)\<rparr>"
  using assms
  by (auto simp: cardFundDeployComplete_def verifyPayTxn_def success_iffs Let_def)

lemma partnerChannelClose_success:
  assumes "partnerChannelClose e s a = Inr out"
  shows "\<exists>d. partnerChannels s a = Some d \<and> pc_owner d = sender e \<and>
    1 \<le> unat (partnerChannelsActiveCount s) \<and>
    st out = s\<lparr>partnerChannels := (partnerChannels s)(a := None),
                partnerChannelsActiveCount := partnerChannelsActiveCount s - 1\<rparr>"
  using assms
  by (auto simp: partnerChannelClose_def success_iffs Let_def)

lemma cardFundClose_success:
  assumes "cardFundClose e s a = Inr out"
  shows "\<exists>cf. cardFunds s a = Some cf \<and> cf_owner cf = sender e \<and>
    1 \<le> unat (cardFundsActiveCount s) \<and>
    st out = s\<lparr>cardFunds := (cardFunds s)(a := None),
                cardFundsActiveCount := cardFundsActiveCount s - 1,
                partnerCardFundOwner := (partnerCardFundOwner s)
                  (hashPartnerCardFund e (cf_partnerChannel cf) (cf_owner cf) := None)\<rparr>"
  using assms
  by (auto simp: cardFundClose_def success_iffs Let_def)

lemma unat_plus_one: "unat (c::uint64) + 1 < 2 ^ 64 \<Longrightarrow> unat (c + 1) = Suc (unat c)"
  using unat_add_lem [of c 1] by simp

lemma unat_minus_one_pos: "1 \<le> unat (c::uint64) \<Longrightarrow> unat (c - 1) = unat c - 1"
  by (metis unat_1 unat_sub word_le_nat_alt)

lemma pending_channel_inv:
  assumes inv: "registryInv H s"
    and fr: "partnerChannels s a = None" "\<And>v. partnerChannelsSetup s (v, a) = None"
    and t: "cardFunds t = cardFunds s"
      "cardFundsActiveCount t = cardFundsActiveCount s"
      "partnerChannels t = partnerChannels s"
      "partnerChannelsActiveCount t = partnerChannelsActiveCount s"
      "cardFundsSetup t = cardFundsSetup s"
      "partnerChannelsSetup t = (partnerChannelsSetup s)((w, a) \<mapsto> pcs)"
      "partnerCardFundOwner t = partnerCardFundOwner s"
  shows "registryInv H t"
  unfolding registryInv_def t
proof (intro conjI allI impI)
  fix u b
  assume "((partnerChannelsSetup s)((w, a) \<mapsto> pcs)) (u, b) \<noteq> None"
  then show "partnerChannels s b = None"
    using fr registryInv_pendingChannel [OF inv, of u b] by (auto split: if_splits)
next
  fix u v b
  assume "((partnerChannelsSetup s)((w, a) \<mapsto> pcs)) (u, b) \<noteq> None \<and>
    ((partnerChannelsSetup s)((w, a) \<mapsto> pcs)) (v, b) \<noteq> None"
  then show "u = v"
    using fr registryInv_pendingChannel_unique [OF inv, of u b v] by (auto split: if_splits)
next
  fix u b assume "cardFundsSetup s (u, b) \<noteq> None"
  from registryInv_pendingFund [OF inv this] show "cardFunds s b = None" .
next
  fix u v b
  assume "cardFundsSetup s (u, b) \<noteq> None \<and> cardFundsSetup s (v, b) \<noteq> None"
  then show "u = v" using registryInv_pendingFund_unique [OF inv] by blast
next
  fix f cf assume "cardFunds s f = Some cf"
  from registryInv_indexed [OF inv this]
  show "partnerCardFundOwner s
         (H (rawBytesPCF \<lparr>pcf_partnerChannel = cf_partnerChannel cf,
                          pcf_cardFundOwner = cf_owner cf\<rparr>)) = Some f" .
next
  fix h f assume "partnerCardFundOwner s h = Some f"
  from registryInv_index_active [OF inv this]
  show "\<exists>cf. cardFunds s f = Some cf \<and>
          h = H (rawBytesPCF \<lparr>pcf_partnerChannel = cf_partnerChannel cf,
                              pcf_cardFundOwner = cf_owner cf\<rparr>)" .
qed (use registryInv_counts [OF inv] in simp_all)

lemma pending_fund_inv:
  assumes inv: "registryInv H s"
    and fr: "cardFunds s a = None" "\<And>v. cardFundsSetup s (v, a) = None"
    and t: "cardFunds t = cardFunds s"
      "cardFundsActiveCount t = cardFundsActiveCount s"
      "partnerChannels t = partnerChannels s"
      "partnerChannelsActiveCount t = partnerChannelsActiveCount s"
      "cardFundsSetup t = (cardFundsSetup s)((w, a) \<mapsto> cfs)"
      "partnerChannelsSetup t = partnerChannelsSetup s"
      "partnerCardFundOwner t = partnerCardFundOwner s"
  shows "registryInv H t"
  unfolding registryInv_def t
proof (intro conjI allI impI)
  fix u b
  assume "((cardFundsSetup s)((w, a) \<mapsto> cfs)) (u, b) \<noteq> None"
  then show "cardFunds s b = None"
    using fr registryInv_pendingFund [OF inv, of u b] by (auto split: if_splits)
next
  fix u v b
  assume "((cardFundsSetup s)((w, a) \<mapsto> cfs)) (u, b) \<noteq> None \<and>
    ((cardFundsSetup s)((w, a) \<mapsto> cfs)) (v, b) \<noteq> None"
  then show "u = v"
    using fr registryInv_pendingFund_unique [OF inv, of u b v] by (auto split: if_splits)
next
  fix u b assume "partnerChannelsSetup s (u, b) \<noteq> None"
  from registryInv_pendingChannel [OF inv this] show "partnerChannels s b = None" .
next
  fix u v b
  assume "partnerChannelsSetup s (u, b) \<noteq> None \<and> partnerChannelsSetup s (v, b) \<noteq> None"
  then show "u = v" using registryInv_pendingChannel_unique [OF inv] by blast
next
  fix f cf assume "cardFunds s f = Some cf"
  from registryInv_indexed [OF inv this]
  show "partnerCardFundOwner s
         (H (rawBytesPCF \<lparr>pcf_partnerChannel = cf_partnerChannel cf,
                          pcf_cardFundOwner = cf_owner cf\<rparr>)) = Some f" .
next
  fix h f assume "partnerCardFundOwner s h = Some f"
  from registryInv_index_active [OF inv this]
  show "\<exists>cf. cardFunds s f = Some cf \<and>
          h = H (rawBytesPCF \<lparr>pcf_partnerChannel = cf_partnerChannel cf,
                              pcf_cardFundOwner = cf_owner cf\<rparr>)" .
qed (use registryInv_counts [OF inv] in simp_all)

lemma complete_channel_inv:
  assumes inv: "registryInv H s"
    and pend: "partnerChannelsSetup s (w, a) \<noteq> None"
    and room: "unat (partnerChannelsActiveCount s) + 1 < 2 ^ 64"
    and t: "cardFunds t = cardFunds s"
      "cardFundsActiveCount t = cardFundsActiveCount s"
      "partnerChannels t = (partnerChannels s)(a \<mapsto> d)"
      "partnerChannelsActiveCount t = partnerChannelsActiveCount s + 1"
      "cardFundsSetup t = cardFundsSetup s"
      "partnerChannelsSetup t = (partnerChannelsSetup s)((w, a) := None)"
      "partnerCardFundOwner t = partnerCardFundOwner s"
  shows "registryInv H t"
proof -
  from registryInv_pendingChannel [OF inv pend] have new: "a \<notin> dom (partnerChannels s)" by auto
  from registryInv_counts [OF inv] have
    fin: "finite (dom (partnerChannels s))" and
    cnt: "unat (partnerChannelsActiveCount s) = card (dom (partnerChannels s))" by simp_all
  show ?thesis
    unfolding registryInv_def t
  proof (intro conjI allI impI)
    show "finite (dom ((partnerChannels s)(a \<mapsto> d)))" using fin by simp
    show "unat (partnerChannelsActiveCount s + 1) = card (dom ((partnerChannels s)(a \<mapsto> d)))"
      using fin new cnt unat_plus_one [OF room] by simp
  next
    fix u b
    assume h: "((partnerChannelsSetup s)((w, a) := None)) (u, b) \<noteq> None"
    then have old: "partnerChannelsSetup s (u, b) \<noteq> None" and ne: "(u, b) \<noteq> (w, a)"
      by (auto split: if_splits)
    from registryInv_pendingChannel_unique [OF inv old, of w] pend ne have "b \<noteq> a" by auto
    with registryInv_pendingChannel [OF inv old]
    show "((partnerChannels s)(a \<mapsto> d)) b = None" by simp
  next
    fix u v b
    assume "((partnerChannelsSetup s)((w, a) := None)) (u, b) \<noteq> None \<and>
      ((partnerChannelsSetup s)((w, a) := None)) (v, b) \<noteq> None"
    then show "u = v"
      using registryInv_pendingChannel_unique [OF inv, of u b v] by (auto split: if_splits)
  next
    fix u b assume "cardFundsSetup s (u, b) \<noteq> None"
    from registryInv_pendingFund [OF inv this] show "cardFunds s b = None" .
  next
    fix u v b
    assume "cardFundsSetup s (u, b) \<noteq> None \<and> cardFundsSetup s (v, b) \<noteq> None"
    then show "u = v" using registryInv_pendingFund_unique [OF inv] by blast
  next
    fix f cf assume "cardFunds s f = Some cf"
    from registryInv_indexed [OF inv this]
    show "partnerCardFundOwner s
           (H (rawBytesPCF \<lparr>pcf_partnerChannel = cf_partnerChannel cf,
                            pcf_cardFundOwner = cf_owner cf\<rparr>)) = Some f" .
  next
    fix h f assume "partnerCardFundOwner s h = Some f"
    from registryInv_index_active [OF inv this]
    show "\<exists>cf. cardFunds s f = Some cf \<and>
            h = H (rawBytesPCF \<lparr>pcf_partnerChannel = cf_partnerChannel cf,
                                pcf_cardFundOwner = cf_owner cf\<rparr>)" .
  qed (use registryInv_counts [OF inv] in simp_all)
qed

lemma close_channel_inv:
  assumes inv: "registryInv H s"
    and ex: "partnerChannels s a \<noteq> None"
    and pos: "1 \<le> unat (partnerChannelsActiveCount s)"
    and t: "cardFunds t = cardFunds s"
      "cardFundsActiveCount t = cardFundsActiveCount s"
      "partnerChannels t = (partnerChannels s)(a := None)"
      "partnerChannelsActiveCount t = partnerChannelsActiveCount s - 1"
      "cardFundsSetup t = cardFundsSetup s"
      "partnerChannelsSetup t = partnerChannelsSetup s"
      "partnerCardFundOwner t = partnerCardFundOwner s"
  shows "registryInv H t"
proof -
  from ex have old: "a \<in> dom (partnerChannels s)" by auto
  from registryInv_counts [OF inv] have
    fin: "finite (dom (partnerChannels s))" and
    cnt: "unat (partnerChannelsActiveCount s) = card (dom (partnerChannels s))" by simp_all
  show ?thesis
    unfolding registryInv_def t
  proof (intro conjI allI impI)
    show "finite (dom ((partnerChannels s)(a := None)))" using fin by simp
    show "unat (partnerChannelsActiveCount s - 1) = card (dom ((partnerChannels s)(a := None)))"
      using fin old cnt unat_minus_one_pos [OF pos] by simp
  next
    fix u b
    assume "partnerChannelsSetup s (u, b) \<noteq> None"
    from registryInv_pendingChannel [OF inv this]
    show "((partnerChannels s)(a := None)) b = None" by simp
  next
    fix u v b
    assume "partnerChannelsSetup s (u, b) \<noteq> None \<and> partnerChannelsSetup s (v, b) \<noteq> None"
    then show "u = v" using registryInv_pendingChannel_unique [OF inv] by blast
  next
    fix u b assume "cardFundsSetup s (u, b) \<noteq> None"
    from registryInv_pendingFund [OF inv this] show "cardFunds s b = None" .
  next
    fix u v b
    assume "cardFundsSetup s (u, b) \<noteq> None \<and> cardFundsSetup s (v, b) \<noteq> None"
    then show "u = v" using registryInv_pendingFund_unique [OF inv] by blast
  next
    fix f cf assume "cardFunds s f = Some cf"
    from registryInv_indexed [OF inv this]
    show "partnerCardFundOwner s
           (H (rawBytesPCF \<lparr>pcf_partnerChannel = cf_partnerChannel cf,
                            pcf_cardFundOwner = cf_owner cf\<rparr>)) = Some f" .
  next
    fix h f assume "partnerCardFundOwner s h = Some f"
    from registryInv_index_active [OF inv this]
    show "\<exists>cf. cardFunds s f = Some cf \<and>
            h = H (rawBytesPCF \<lparr>pcf_partnerChannel = cf_partnerChannel cf,
                                pcf_cardFundOwner = cf_owner cf\<rparr>)" .
  qed (use registryInv_counts [OF inv] in simp_all)
qed

lemma complete_fund_inv:
  assumes inv: "registryInv H s"
    and pend: "cardFundsSetup s (w, a) \<noteq> None"
    and free: "partnerCardFundOwner s
        (H (rawBytesPCF \<lparr>pcf_partnerChannel = cf_partnerChannel d,
                         pcf_cardFundOwner = cf_owner d\<rparr>)) = None"
    and room: "unat (cardFundsActiveCount s) + 1 < 2 ^ 64"
    and t: "cardFunds t = (cardFunds s)(a \<mapsto> d)"
      "cardFundsActiveCount t = cardFundsActiveCount s + 1"
      "partnerChannels t = partnerChannels s"
      "partnerChannelsActiveCount t = partnerChannelsActiveCount s"
      "cardFundsSetup t = (cardFundsSetup s)((w, a) := None)"
      "partnerChannelsSetup t = partnerChannelsSetup s"
      "partnerCardFundOwner t = (partnerCardFundOwner s)
        (H (rawBytesPCF \<lparr>pcf_partnerChannel = cf_partnerChannel d,
                         pcf_cardFundOwner = cf_owner d\<rparr>) \<mapsto> a)"
  shows "registryInv H t"
proof -
  let ?k = "H (rawBytesPCF \<lparr>pcf_partnerChannel = cf_partnerChannel d,
                            pcf_cardFundOwner = cf_owner d\<rparr>)"
  from registryInv_pendingFund [OF inv pend] have none: "cardFunds s a = None" .
  then have new: "a \<notin> dom (cardFunds s)" by auto
  from registryInv_counts [OF inv] have
    fin: "finite (dom (cardFunds s))" and
    cnt: "unat (cardFundsActiveCount s) = card (dom (cardFunds s))" by simp_all
  show ?thesis
    unfolding registryInv_def t
  proof (intro conjI allI impI)
    show "finite (dom ((cardFunds s)(a \<mapsto> d)))" using fin by simp
    show "unat (cardFundsActiveCount s + 1) = card (dom ((cardFunds s)(a \<mapsto> d)))"
      using fin new cnt unat_plus_one [OF room] by simp
  next
    fix u b
    assume h: "((cardFundsSetup s)((w, a) := None)) (u, b) \<noteq> None"
    then have old: "cardFundsSetup s (u, b) \<noteq> None" and ne: "(u, b) \<noteq> (w, a)"
      by (auto split: if_splits)
    from registryInv_pendingFund_unique [OF inv old, of w] pend ne have "b \<noteq> a" by auto
    with registryInv_pendingFund [OF inv old]
    show "((cardFunds s)(a \<mapsto> d)) b = None" by simp
  next
    fix u v b
    assume "((cardFundsSetup s)((w, a) := None)) (u, b) \<noteq> None \<and>
      ((cardFundsSetup s)((w, a) := None)) (v, b) \<noteq> None"
    then show "u = v"
      using registryInv_pendingFund_unique [OF inv, of u b v] by (auto split: if_splits)
  next
    fix u b assume "partnerChannelsSetup s (u, b) \<noteq> None"
    from registryInv_pendingChannel [OF inv this] show "partnerChannels s b = None" .
  next
    fix u v b
    assume "partnerChannelsSetup s (u, b) \<noteq> None \<and> partnerChannelsSetup s (v, b) \<noteq> None"
    then show "u = v" using registryInv_pendingChannel_unique [OF inv] by blast
  next
    fix f cf assume f: "((cardFunds s)(a \<mapsto> d)) f = Some cf"
    show "((partnerCardFundOwner s)(?k \<mapsto> a))
           (H (rawBytesPCF \<lparr>pcf_partnerChannel = cf_partnerChannel cf,
                            pcf_cardFundOwner = cf_owner cf\<rparr>)) = Some f"
    proof (cases "f = a")
      case True
      with f show ?thesis by simp
    next
      case False
      with f have old: "cardFunds s f = Some cf" by simp
      from registryInv_indexed [OF inv old] free
      have "H (rawBytesPCF \<lparr>pcf_partnerChannel = cf_partnerChannel cf,
                            pcf_cardFundOwner = cf_owner cf\<rparr>) \<noteq> ?k" by auto
      with registryInv_indexed [OF inv old] show ?thesis by simp
    qed
  next
    fix h f assume hf: "((partnerCardFundOwner s)(?k \<mapsto> a)) h = Some f"
    show "\<exists>cf. ((cardFunds s)(a \<mapsto> d)) f = Some cf \<and>
            h = H (rawBytesPCF \<lparr>pcf_partnerChannel = cf_partnerChannel cf,
                                pcf_cardFundOwner = cf_owner cf\<rparr>)"
    proof (cases "h = ?k")
      case True
      with hf have "f = a" by simp
      with True show ?thesis by (intro exI [of _ d]) simp
    next
      case False
      with hf have "partnerCardFundOwner s h = Some f" by simp
      from registryInv_index_active [OF inv this] obtain cf where
        cf: "cardFunds s f = Some cf"
          "h = H (rawBytesPCF \<lparr>pcf_partnerChannel = cf_partnerChannel cf,
                                pcf_cardFundOwner = cf_owner cf\<rparr>)" by blast
      with none have "f \<noteq> a" by auto
      with cf show ?thesis by (intro exI [of _ cf]) simp
    qed
  qed (use registryInv_counts [OF inv] in simp_all)
qed

lemma close_fund_inv:
  assumes inv: "registryInv H s"
    and ex: "cardFunds s a = Some d"
    and pos: "1 \<le> unat (cardFundsActiveCount s)"
    and t: "cardFunds t = (cardFunds s)(a := None)"
      "cardFundsActiveCount t = cardFundsActiveCount s - 1"
      "partnerChannels t = partnerChannels s"
      "partnerChannelsActiveCount t = partnerChannelsActiveCount s"
      "cardFundsSetup t = cardFundsSetup s"
      "partnerChannelsSetup t = partnerChannelsSetup s"
      "partnerCardFundOwner t = (partnerCardFundOwner s)
        (H (rawBytesPCF \<lparr>pcf_partnerChannel = cf_partnerChannel d,
                         pcf_cardFundOwner = cf_owner d\<rparr>) := None)"
  shows "registryInv H t"
proof -
  let ?k = "H (rawBytesPCF \<lparr>pcf_partnerChannel = cf_partnerChannel d,
                            pcf_cardFundOwner = cf_owner d\<rparr>)"
  from ex have old: "a \<in> dom (cardFunds s)" by auto
  from registryInv_indexed [OF inv ex] have ka: "partnerCardFundOwner s ?k = Some a" .
  from registryInv_counts [OF inv] have
    fin: "finite (dom (cardFunds s))" and
    cnt: "unat (cardFundsActiveCount s) = card (dom (cardFunds s))" by simp_all
  show ?thesis
    unfolding registryInv_def t
  proof (intro conjI allI impI)
    show "finite (dom ((cardFunds s)(a := None)))" using fin by simp
    show "unat (cardFundsActiveCount s - 1) = card (dom ((cardFunds s)(a := None)))"
      using fin old cnt unat_minus_one_pos [OF pos] by simp
  next
    fix u b
    assume "cardFundsSetup s (u, b) \<noteq> None"
    from registryInv_pendingFund [OF inv this]
    show "((cardFunds s)(a := None)) b = None" by simp
  next
    fix u v b
    assume "cardFundsSetup s (u, b) \<noteq> None \<and> cardFundsSetup s (v, b) \<noteq> None"
    then show "u = v" using registryInv_pendingFund_unique [OF inv] by blast
  next
    fix u b assume "partnerChannelsSetup s (u, b) \<noteq> None"
    from registryInv_pendingChannel [OF inv this] show "partnerChannels s b = None" .
  next
    fix u v b
    assume "partnerChannelsSetup s (u, b) \<noteq> None \<and> partnerChannelsSetup s (v, b) \<noteq> None"
    then show "u = v" using registryInv_pendingChannel_unique [OF inv] by blast
  next
    fix f cf assume f: "((cardFunds s)(a := None)) f = Some cf"
    then have ne: "f \<noteq> a" and old: "cardFunds s f = Some cf" by (auto split: if_splits)
    from registryInv_indexed [OF inv old] ka ne
    have "H (rawBytesPCF \<lparr>pcf_partnerChannel = cf_partnerChannel cf,
                          pcf_cardFundOwner = cf_owner cf\<rparr>) \<noteq> ?k" by auto
    with registryInv_indexed [OF inv old]
    show "((partnerCardFundOwner s)(?k := None))
           (H (rawBytesPCF \<lparr>pcf_partnerChannel = cf_partnerChannel cf,
                            pcf_cardFundOwner = cf_owner cf\<rparr>)) = Some f" by simp
  next
    fix h f assume hf: "((partnerCardFundOwner s)(?k := None)) h = Some f"
    then have ne: "h \<noteq> ?k" and old: "partnerCardFundOwner s h = Some f"
      by (auto split: if_splits)
    from registryInv_index_active [OF inv old] obtain cf where
      cf: "cardFunds s f = Some cf"
        "h = H (rawBytesPCF \<lparr>pcf_partnerChannel = cf_partnerChannel cf,
                              pcf_cardFundOwner = cf_owner cf\<rparr>)" by blast
    with ne ex have "f \<noteq> a" by auto
    with cf show "\<exists>cf. ((cardFunds s)(a := None)) f = Some cf \<and>
            h = H (rawBytesPCF \<lparr>pcf_partnerChannel = cf_partnerChannel cf,
                                pcf_cardFundOwner = cf_owner cf\<rparr>)"
      by (intro exI [of _ cf]) simp
  qed (use registryInv_counts [OF inv] in simp_all)
qed

lemma fewer_pending_inv:
  assumes inv: "registryInv H s"
    and subF: "\<And>k. cardFundsSetup t k \<noteq> None \<Longrightarrow> cardFundsSetup s k \<noteq> None"
    and subC: "\<And>k. partnerChannelsSetup t k \<noteq> None \<Longrightarrow> partnerChannelsSetup s k \<noteq> None"
    and t: "cardFunds t = cardFunds s"
      "cardFundsActiveCount t = cardFundsActiveCount s"
      "partnerChannels t = partnerChannels s"
      "partnerChannelsActiveCount t = partnerChannelsActiveCount s"
      "partnerCardFundOwner t = partnerCardFundOwner s"
  shows "registryInv H t"
  unfolding registryInv_def t
proof (intro conjI allI impI)
  fix u b assume "cardFundsSetup t (u, b) \<noteq> None"
  from registryInv_pendingFund [OF inv subF [OF this]] show "cardFunds s b = None" .
next
  fix u v b
  assume "cardFundsSetup t (u, b) \<noteq> None \<and> cardFundsSetup t (v, b) \<noteq> None"
  then show "u = v" using registryInv_pendingFund_unique [OF inv, of u b v] subF by blast
next
  fix u b assume "partnerChannelsSetup t (u, b) \<noteq> None"
  from registryInv_pendingChannel [OF inv subC [OF this]] show "partnerChannels s b = None" .
next
  fix u v b
  assume "partnerChannelsSetup t (u, b) \<noteq> None \<and> partnerChannelsSetup t (v, b) \<noteq> None"
  then show "u = v" using registryInv_pendingChannel_unique [OF inv, of u b v] subC by blast
next
  fix f cf assume "cardFunds s f = Some cf"
  from registryInv_indexed [OF inv this]
  show "partnerCardFundOwner s
         (H (rawBytesPCF \<lparr>pcf_partnerChannel = cf_partnerChannel cf,
                          pcf_cardFundOwner = cf_owner cf\<rparr>)) = Some f" .
next
  fix h f assume "partnerCardFundOwner s h = Some f"
  from registryInv_index_active [OF inv this]
  show "\<exists>cf. cardFunds s f = Some cf \<and>
          h = H (rawBytesPCF \<lparr>pcf_partnerChannel = cf_partnerChannel cf,
                              pcf_cardFundOwner = cf_owner cf\<rparr>)" .
qed (use registryInv_counts [OF inv] in simp_all)

lemma clearLocalState_inv:
  assumes inv: "registryInv H s"
  shows "registryInv H (clearLocalState a s)"
  by (rule fewer_pending_inv [OF inv]) (simp_all add: clearLocalState_def split: if_splits)

lemma deploy_inv: "deploy e owner = Inr out \<Longrightarrow> registryInv H (st out)"
  by (auto simp: deploy_def transferOwnership_internal_def emptyStorage_def registryInv_def Let_def)

lemma partnerChannelDeployInit_inv:
  assumes ok: "partnerChannelDeployInit e s mbr name = Inr out" and inv: "registryInv H s"
    and fresh: "freshAddress s (createdAppAddress e)"
  shows "registryInv H (st out)"
  using fresh
  by (intro pending_channel_inv [OF inv, of "createdAppAddress e" _ "sender e"])
    (simp_all add: partnerChannelDeployInit_success [OF ok] freshAddress_def)

lemma cardFundDeployInit_inv:
  assumes ok: "cardFundDeployInit e s mbr pc x r = Inr out" and inv: "registryInv H s"
    and fresh: "freshAddress s (createdAppAddress e)"
  shows "registryInv H (st out)"
  using fresh
  by (intro pending_fund_inv [OF inv, of "createdAppAddress e" _ "sender e"])
    (simp_all add: cardFundDeployInit_success [OF ok] freshAddress_def)

lemma partnerChannelDeployComplete_inv:
  assumes ok: "partnerChannelDeployComplete e s mbr a = Inr out" and inv: "registryInv H s"
  shows "registryInv H (st out)"
proof -
  from partnerChannelDeployComplete_success [OF ok] obtain pcs where
    p: "partnerChannelsSetup s (sender e, a) = Some pcs"
    and r: "unat (partnerChannelsActiveCount s) + 1 < 2 ^ 64"
    and st: "st out = s\<lparr>partnerChannels := (partnerChannels s)(a \<mapsto>
                   \<lparr>pc_partnerChannelName = pcs_partnerChannelName pcs, pc_owner = sender e,
                    pc_address = a\<rparr>),
                partnerChannelsSetup := (partnerChannelsSetup s)((sender e, a) := None),
                partnerChannelsActiveCount := partnerChannelsActiveCount s + 1\<rparr>"
    by blast
  from p have p': "partnerChannelsSetup s (sender e, a) \<noteq> None" by simp
  show ?thesis
    by (rule complete_channel_inv [OF inv p' r]) (simp_all add: st)
qed

lemma partnerChannelClose_inv:
  assumes ok: "partnerChannelClose e s a = Inr out" and inv: "registryInv H s"
  shows "registryInv H (st out)"
proof -
  from partnerChannelClose_success [OF ok] obtain d where
    p: "partnerChannels s a = Some d"
    and r: "1 \<le> unat (partnerChannelsActiveCount s)"
    and st: "st out = s\<lparr>partnerChannels := (partnerChannels s)(a := None),
                partnerChannelsActiveCount := partnerChannelsActiveCount s - 1\<rparr>"
    by blast
  from p have p': "partnerChannels s a \<noteq> None" by simp
  show ?thesis
    by (rule close_channel_inv [OF inv p' r]) (simp_all add: st)
qed

lemma cardFundDeployComplete_inv:
  assumes ok: "cardFundDeployComplete e s mbr a = Inr out" and inv: "registryInv H s"
    and H: "sha256 e = H"
  shows "registryInv H (st out)"
proof -
  from cardFundDeployComplete_success [OF ok] obtain cfs where
    p: "cardFundsSetup s (sender e, a) = Some cfs"
    and free: "partnerCardFundOwner s (hashPartnerCardFund e (cfs_partnerChannel cfs) (sender e)) = None"
    and r: "unat (cardFundsActiveCount s) + 1 < 2 ^ 64"
    and st: "st out = s\<lparr>cardFunds := (cardFunds s)(a \<mapsto>
                   \<lparr>cf_partnerChannel = cfs_partnerChannel cfs, cf_owner = sender e,
                    cf_address = a, cf_paymentNonce = 0, cf_withdrawalNonce = 0,
                    cf_reference = cfs_reference cfs\<rparr>),
                cardFundsActiveCount := cardFundsActiveCount s + 1,
                partnerCardFundOwner := (partnerCardFundOwner s)
                   (hashPartnerCardFund e (cfs_partnerChannel cfs) (sender e) \<mapsto> a),
                cardFundsSetup := (cardFundsSetup s)((sender e, a) := None)\<rparr>"
    by blast
  from p have p': "cardFundsSetup s (sender e, a) \<noteq> None" by simp
  let ?d = "\<lparr>cf_partnerChannel = cfs_partnerChannel cfs, cf_owner = sender e,
                    cf_address = a, cf_paymentNonce = 0, cf_withdrawalNonce = 0,
                    cf_reference = cfs_reference cfs\<rparr>"
  show ?thesis
    by (rule complete_fund_inv [OF inv p' _ r, of ?d])
      (use free H in \<open>simp_all add: st hashPartnerCardFund_def\<close>)
qed

lemma cardFundClose_inv:
  assumes ok: "cardFundClose e s a = Inr out" and inv: "registryInv H s"
    and H: "sha256 e = H"
  shows "registryInv H (st out)"
proof -
  from cardFundClose_success [OF ok] obtain cf where
    p: "cardFunds s a = Some cf"
    and r: "1 \<le> unat (cardFundsActiveCount s)"
    and st: "st out = s\<lparr>cardFunds := (cardFunds s)(a := None),
                cardFundsActiveCount := cardFundsActiveCount s - 1,
                partnerCardFundOwner := (partnerCardFundOwner s)
                  (hashPartnerCardFund e (cf_partnerChannel cf) (cf_owner cf) := None)\<rparr>"
    by blast
  show ?thesis
    by (rule close_fund_inv [OF inv p r]) (use H in \<open>simp_all add: st hashPartnerCardFund_def\<close>)
qed

lemma perform_inv:
  assumes ok: "perform e s c = Inr out" and inv: "registryInv H s"
    and H: "sha256 e = H" and fresh: "freshAddress s (createdAppAddress e)"
  shows "registryInv H (st out)"
proof (cases c)
  case Update
  with ok inv show ?thesis by (auto intro: sameRegistry_inv update_same)
next
  case Destroy
  with ok inv show ?thesis by (auto intro: sameRegistry_inv destroy_same)
next
  case (TransferOwnership a)
  with ok inv show ?thesis by (auto intro: sameRegistry_inv transferOwnership_same)
next
  case Pause
  with ok inv show ?thesis by (auto intro: sameRegistry_inv pause_same)
next
  case Unpause
  with ok inv show ?thesis by (auto intro: sameRegistry_inv unpause_same)
next
  case (SetWithdrawalTimeout n)
  with ok inv show ?thesis by (auto intro: sameRegistry_inv setWithdrawalTimeout_same)
next
  case (SetSettlerRole a)
  with ok inv show ?thesis by (auto intro: sameRegistry_inv setSettlerRole_same)
next
  case (SetSettlementAddress x a)
  with ok inv show ?thesis by (auto intro: sameRegistry_inv setSettlementAddress_same)
next
  case (PartnerChannelDeployInit p n)
  with ok inv fresh show ?thesis by (auto intro: partnerChannelDeployInit_inv)
next
  case (PartnerChannelDeployComplete p a)
  with ok inv show ?thesis by (auto intro: partnerChannelDeployComplete_inv)
next
  case (PartnerChannelClose a)
  with ok inv show ?thesis by (auto intro: partnerChannelClose_inv)
next
  case (CardFundDeployInit p a x r)
  with ok inv fresh show ?thesis by (auto intro: cardFundDeployInit_inv)
next
  case (CardFundDeployComplete p a)
  with ok inv H show ?thesis by (auto intro: cardFundDeployComplete_inv)
next
  case (CardFundClose a)
  with ok inv H show ?thesis by (auto intro: cardFundClose_inv)
next
  case (AssetAllowlistAdd p x a)
  with ok inv show ?thesis by (auto intro: sameRegistry_inv assetAllowlistAdd_same)
next
  case (AssetAllowlistRemove x)
  with ok inv show ?thesis by (auto intro: sameRegistry_inv assetAllowlistRemove_same)
next
  case (CardFundDebit a x n k r)
  with ok inv show ?thesis by (auto intro: cardFundDebit_inv)
next
  case (CardFundRefund a x n k r)
  with ok inv show ?thesis by (auto intro: cardFundRefund_inv)
next
  case (Settle x n k)
  with ok inv show ?thesis by (auto intro: sameRegistry_inv settle_same)
next
  case (CardFundEnableAsset p a x)
  with ok inv show ?thesis by (auto intro: sameRegistry_inv cardFundEnableAsset_same)
next
  case (CardFundDisableAsset a x)
  with ok inv show ?thesis by (auto intro: sameRegistry_inv cardFundDisableAsset_same)
next
  case (CardFundInitPermissionlessWithdrawal a x n)
  with ok inv show ?thesis by (auto intro: sameRegistry_inv initWithdrawal_same)
next
  case (CardFundWithdrawalCancel a)
  with ok inv show ?thesis by (auto intro: sameRegistry_inv withdrawalCancel_same)
next
  case (CardFundExecutePermissionlessWithdrawal a n)
  with ok inv show ?thesis by (auto intro: executePermissionless_inv)
next
  case (CardFundExecuteApprovedWithdrawal a x n t k g)
  with ok inv show ?thesis by (auto intro: executeApproved_inv)
qed

lemma reachable_registryInv: "reachable H s \<Longrightarrow> registryInv H s"
proof (induction rule: reachable.induct)
  case (reachable_deploy e owner out)
  then show ?case by (rule deploy_inv)
next
  case (reachable_call s e c out)
  then show ?case by (auto intro: perform_inv)
next
  case (reachable_clear s a)
  then show ?case by (simp add: clearLocalState_inv)
qed

lemma getPartnerChannelBoxMbr_unat:
  assumes "length name < 2 ^ 16"
  shows "unat (getPartnerChannelBoxMbr name) =
    2500 + 400 * ((2 + 32) + (2 + 32 + 32 + (2 + length name)))"
proof (rule of_nat_inverse)
  show "word_of_nat (2500 + 400 * ((2 + 32) + (2 + 32 + 32 + (2 + length name)))) =
    getPartnerChannelBoxMbr name"
    by (simp add: getPartnerChannelBoxMbr_def)
  show "2500 + 400 * ((2 + 32) + (2 + 32 + 32 + (2 + length name))) < 2 ^ LENGTH(64)"
    using assms by simp
qed

subsection \<open>The example deployment is reachable\<close>

lemma reachable_exampleBase: "reachable exampleHash exampleBase"
proof -
  let ?s0 = "emptyStorage\<lparr>Ownable_owner := Some 1, Pausable_pauser := Some 1\<rparr>"
  let ?s1 = "?s0\<lparr>settlerRoleAddress := Some 2\<rparr>"
  let ?s2 = "?s1\<lparr>withdrawalWaitTime := 86400\<rparr>"
  have "deploy (exampleEnv 1 0 0) 1 =
      Inr \<lparr>ret = RetAddress 100, st = ?s0, itxns = [], logs = [OwnershipTransferred 0 1]\<rparr>"
    by (simp add: deploy_def transferOwnership_internal_def example_defs zeroAddress_def)
  from reachable_deploy [OF this] have r0: "reachable exampleHash ?s0" by simp
  have "perform (exampleEnv 1 0 0) ?s0 (SetSettlerRole 2) =
      Inr \<lparr>ret = Void, st = ?s1, itxns = [], logs = []\<rparr>"
    by (simp add: setSettlerRole_def onlyOwner_def check_defs example_defs)
  from reachable_call [OF r0 _ _ this] have r1: "reachable exampleHash ?s1"
    by (simp add: exampleEnv_def freshAddress_def emptyStorage_def)
  have "perform (exampleEnv 1 0 0) ?s1 (SetWithdrawalTimeout 86400) =
      Inr \<lparr>ret = Void, st = ?s2, itxns = [], logs = []\<rparr>"
    by (simp add: setWithdrawalTimeout_def onlyOwner_def check_defs example_defs)
  from reachable_call [OF r1 _ _ this] have r2: "reachable exampleHash ?s2"
    by (simp add: exampleEnv_def freshAddress_def emptyStorage_def)
  have "perform (exampleEnv 1 0 0) ?s2 (SetSettlementAddress 5 9) =
      Inr \<lparr>ret = Void, st = exampleBase, itxns = [], logs = [SettlementAddressChanged 0 9]\<rparr>"
    by (simp add: setSettlementAddress_def updateSettlementAddress_def onlyOwner_def check_defs
        example_defs zeroAddress_def)
  from reachable_call [OF r2 _ _ this] show ?thesis
    by (simp add: exampleEnv_def freshAddress_def emptyStorage_def)
qed

lemma reachable_examplePendingChannel: "reachable exampleHash examplePendingChannel"
proof -
  have "perform (exampleEnv 3 1000 200) exampleBase
      (PartnerChannelDeployInit \<lparr>ptx_sender = 3, ptx_receiver = 100, ptx_amount = 100000\<rparr> ''Acme'') =
      Inr \<lparr>ret = RetAddress 200, st = examplePendingChannel,
        itxns = [CreateControlledAddress,
                 Payment \<lparr>pay_sender = 100, pay_receiver = 200, pay_amount = 100000,
                          pay_closeRemainderTo = None\<rparr>], logs = []\<rparr>"
    by (simp add: partnerChannelDeployInit_def ControlledAddress_new_def check_defs example_defs
        MaxPartnerChannelNameLength_def)
  from reachable_call [OF reachable_exampleBase _ _ this] show ?thesis
    by (simp add: example_defs freshAddress_def)
qed

lemma reachable_exampleChannel: "reachable exampleHash exampleChannel"
proof -
  have "perform (exampleEnv 3 1000 0) examplePendingChannel
      (PartnerChannelDeployComplete \<lparr>ptx_sender = 3, ptx_receiver = 100, ptx_amount = 44900\<rparr> 200) =
      Inr \<lparr>ret = RetAddress 200, st = exampleChannel, itxns = [],
             logs = [PartnerChannelCreated 200 ''Acme'']\<rparr>"
    by (simp add: partnerChannelDeployComplete_def check_defs example_defs
        getPartnerChannelBoxMbr_def fun_eq_iff)
  from reachable_call [OF reachable_examplePendingChannel _ _ this] show ?thesis
    by (simp add: example_defs freshAddress_def)
qed

lemma reachable_examplePendingFund: "reachable exampleHash examplePendingFund"
proof -
  have "perform (exampleEnv 3 1000 201) exampleChannel
      (CardFundDeployInit \<lparr>ptx_sender = 3, ptx_receiver = 100, ptx_amount = 200000\<rparr> 200 5 ''ref'') =
      Inr \<lparr>ret = RetAddress 201, st = examplePendingFund,
        itxns = [CreateControlledAddress,
                 Payment \<lparr>pay_sender = 100, pay_receiver = 201, pay_amount = 200000,
                          pay_closeRemainderTo = None\<rparr>,
                 AssetTransfer \<lparr>xfer_sender = 201, xfer_assetReceiver = 201, xfer_xferAsset = 5,
                   xfer_assetAmount = 0, xfer_assetCloseTo = None, xfer_note = []\<rparr>],
        logs = [CardFundAssetEnabled 201 5]\<rparr>"
    by (simp add: cardFundDeployInit_def cardFundAssetOptIn_def hashPartnerCardFund_def
        ControlledAddress_new_def check_defs example_defs MaxCardFundReferenceLength_def)
  from reachable_call [OF reachable_exampleChannel _ _ this] show ?thesis
    by (simp add: example_defs freshAddress_def)
qed

lemma getCardFundBoxMbr_ref: "getCardFundBoxMbr ''ref'' = 92600"
  by (simp add: getCardFundBoxMbr_def)

lemma reachable_exampleFund: "reachable exampleHash exampleFund"
proof -
  have "perform (exampleEnv 3 1000 0) examplePendingFund
      (CardFundDeployComplete \<lparr>ptx_sender = 3, ptx_receiver = 100, ptx_amount = 92600\<rparr> 201) =
      Inr \<lparr>ret = RetAddress 201, st = exampleFund, itxns = [],
             logs = [CardFundCreated 3 201 200 ''ref'']\<rparr>"
    by (simp add: cardFundDeployComplete_def hashPartnerCardFund_def check_defs example_defs
        getCardFundBoxMbr_ref fun_eq_iff)
  from reachable_call [OF reachable_examplePendingFund _ _ this] show ?thesis
    by (simp add: example_defs freshAddress_def)
qed

lemma reachable_exampleRequest: "reachable exampleHash exampleRequest"
proof -
  have "perform (exampleEnv 3 1000 0) exampleFund (CardFundInitPermissionlessWithdrawal 201 5 50) =
      Inr \<lparr>ret = RetRequest \<lparr>pwr_cardFund = 201, pwr_asset = 5, pwr_amount = 50,
                pwr_createdAt = 1000, pwr_nonce = 1\<rparr>,
             st = exampleRequest, itxns = [],
             logs = [WithdrawalRequest 201 3 5 50 1000 1]\<rparr>"
    by (simp add: cardFundInitPermissionlessWithdrawal_def isCardFundOwner_def check_defs
        example_defs Let_def)
  from reachable_call [OF reachable_exampleFund _ _ this] show ?thesis
    by (simp add: example_defs freshAddress_def)
qed

lemma reachable_exampleRace: "reachable exampleHash exampleRace"
proof -
  let ?two = "examplePendingFund\<lparr>cardFundsSetup :=
         [(3, 201) \<mapsto> \<lparr>cfs_partnerChannel = 200, cfs_reference = ''ref''\<rparr>,
          (3, 202) \<mapsto> \<lparr>cfs_partnerChannel = 200, cfs_reference = ''ref''\<rparr>]\<rparr>"
  have "perform (exampleEnv 3 1000 202) examplePendingFund
      (CardFundDeployInit \<lparr>ptx_sender = 3, ptx_receiver = 100, ptx_amount = 100000\<rparr> 200 0 ''ref'') =
      Inr \<lparr>ret = RetAddress 202, st = ?two,
        itxns = [CreateControlledAddress,
                 Payment \<lparr>pay_sender = 100, pay_receiver = 202, pay_amount = 100000,
                          pay_closeRemainderTo = None\<rparr>],
        logs = []\<rparr>"
    by (simp add: cardFundDeployInit_def hashPartnerCardFund_def
        ControlledAddress_new_def check_defs example_defs MaxCardFundReferenceLength_def)
  from reachable_call [OF reachable_examplePendingFund _ _ this]
  have two: "reachable exampleHash ?two"
    by (simp add: example_defs freshAddress_def)
  have "perform (exampleEnv 3 1000 0) ?two
      (CardFundDeployComplete \<lparr>ptx_sender = 3, ptx_receiver = 100, ptx_amount = 92600\<rparr> 201) =
      Inr \<lparr>ret = RetAddress 201, st = exampleRace, itxns = [],
             logs = [CardFundCreated 3 201 200 ''ref'']\<rparr>"
    by (simp add: cardFundDeployComplete_def hashPartnerCardFund_def check_defs example_defs
        getCardFundBoxMbr_ref fun_eq_iff)
  from reachable_call [OF two _ _ this] show ?thesis
    by (simp add: example_defs freshAddress_def)
qed

lemma same_pair_same_fund:
  assumes inv: "registryInv H s"
    and f: "cardFunds s f = Some cf" and g: "cardFunds s g = Some cg"
    and p: "cf_partnerChannel cf = cf_partnerChannel cg" and ow: "cf_owner cf = cf_owner cg"
  shows "f = g"
  using registryInv_indexed [OF inv f] registryInv_indexed [OF inv g] p ow by simp

lemma cardFundDeployInit_indexed:
  assumes "partnerCardFundOwner s (hashPartnerCardFund e pc (sender e)) \<noteq> None"
  shows "\<exists>x. cardFundDeployInit e s mbr pc asset reference = Inl x"
    and "partnerChannels s pc \<noteq> None \<Longrightarrow> length reference \<le> MaxCardFundReferenceLength \<Longrightarrow>
      cardFundDeployInit e s mbr pc asset reference = Inl CARD_FUND_ALREADY_EXISTS"
  using assms by (auto simp: cardFundDeployInit_def andThen_def assertTag_def Let_def)

lemma cardFundDeployComplete_indexed:
  assumes "cardFundsSetup s (sender e, a) = Some cfs"
    and "partnerCardFundOwner s (hashPartnerCardFund e (cfs_partnerChannel cfs) (sender e)) \<noteq> None"
  shows "cardFundDeployComplete e s mbr a = Inl CARD_FUND_ALREADY_EXISTS"
  using assms by (auto simp: cardFundDeployComplete_def andThen_def assertTag_def valueOf_def Let_def)


lemma dom_update_present: "m a = Some x \<Longrightarrow> dom (m(a \<mapsto> y)) = dom m"
  by auto

lemma perform_other_registry:
  assumes ok: "perform e s c = Inr out"
    and c: "\<forall>p a. c \<noteq> CardFundDeployComplete p a" "\<forall>a. c \<noteq> CardFundClose a"
      "\<forall>p a. c \<noteq> PartnerChannelDeployComplete p a" "\<forall>a. c \<noteq> PartnerChannelClose a"
  shows "dom (cardFunds (st out)) = dom (cardFunds s) \<and>
    cardFundsActiveCount (st out) = cardFundsActiveCount s \<and>
    partnerChannels (st out) = partnerChannels s \<and>
    partnerChannelsActiveCount (st out) = partnerChannelsActiveCount s"
proof (cases c)
  case Update
  with ok update_same [of e s out] show ?thesis by (simp add: sameRegistry_def)
next
  case Destroy
  with ok destroy_same [of e s out] show ?thesis by (simp add: sameRegistry_def)
next
  case (TransferOwnership a)
  with ok transferOwnership_same [of e s a out] show ?thesis by (simp add: sameRegistry_def)
next
  case Pause
  with ok pause_same [of e s out] show ?thesis by (simp add: sameRegistry_def)
next
  case Unpause
  with ok unpause_same [of e s out] show ?thesis by (simp add: sameRegistry_def)
next
  case (SetWithdrawalTimeout n)
  with ok setWithdrawalTimeout_same [of e s n out] show ?thesis by (simp add: sameRegistry_def)
next
  case (SetSettlerRole a)
  with ok setSettlerRole_same [of e s a out] show ?thesis by (simp add: sameRegistry_def)
next
  case (SetSettlementAddress x a)
  with ok setSettlementAddress_same [of e s x a out] show ?thesis by (simp add: sameRegistry_def)
next
  case (PartnerChannelDeployInit p n)
  with ok partnerChannelDeployInit_success [of e s p n out] show ?thesis by simp
next
  case (PartnerChannelDeployComplete p a)
  with c show ?thesis by simp
next
  case (PartnerChannelClose a)
  with c show ?thesis by simp
next
  case (CardFundDeployInit p a x r)
  with ok cardFundDeployInit_success [of e s p a x r out] show ?thesis by simp
next
  case (CardFundDeployComplete p a)
  with c show ?thesis by simp
next
  case (CardFundClose a)
  with c show ?thesis by simp
next
  case (AssetAllowlistAdd p x a)
  with ok assetAllowlistAdd_same [of e s p x a out] show ?thesis by (simp add: sameRegistry_def)
next
  case (AssetAllowlistRemove x)
  with ok assetAllowlistRemove_same [of e s x out] show ?thesis by (simp add: sameRegistry_def)
next
  case (CardFundDebit a x n k r)
  with ok cardFundDebit_success [of e s a x n k r out] show ?thesis
    by (auto split: if_splits)
next
  case (CardFundRefund a x n k r)
  with ok cardFundRefund_success [of e s a x n k r out] show ?thesis
    by (auto split: if_splits)
next
  case (Settle x n k)
  with ok settle_same [of e s x n k out] show ?thesis by (simp add: sameRegistry_def)
next
  case (CardFundEnableAsset p a x)
  with ok cardFundEnableAsset_same [of e s p a x out] show ?thesis by (simp add: sameRegistry_def)
next
  case (CardFundDisableAsset a x)
  with ok cardFundDisableAsset_same [of e s a x out] show ?thesis by (simp add: sameRegistry_def)
next
  case (CardFundInitPermissionlessWithdrawal a x n)
  with ok initWithdrawal_same [of e s a x n out] show ?thesis by (simp add: sameRegistry_def)
next
  case (CardFundWithdrawalCancel a)
  with ok withdrawalCancel_same [of e s a out] show ?thesis by (simp add: sameRegistry_def)
next
  case (CardFundExecutePermissionlessWithdrawal a n)
  with ok executePermissionless_storage [of e s a n out] show ?thesis
    by (auto split: if_splits)
next
  case (CardFundExecuteApprovedWithdrawal a x n t k g)
  with ok show ?thesis by (auto simp: executeApproved_success_iff split: if_splits)
qed

lemma example_permissionless_run:
  "cardFundExecutePermissionlessWithdrawal (exampleEnv 3 87400 0) exampleRequest 201 50 =
     Inr \<lparr>ret = Void, st = exampleWithdrawn,
          itxns = [AssetTransfer \<lparr>xfer_sender = 201, xfer_assetReceiver = 3, xfer_xferAsset = 5,
                     xfer_assetAmount = 50, xfer_assetCloseTo = None, xfer_note = []\<rparr>],
          logs = [Withdrawal 201 3 5 50 1000 0 1 ''permissionless'']\<rparr>"
  by (simp add: cardFundExecutePermissionlessWithdrawal_def withdrawFunds_def isCardFundOwner_def
      check_defs example_defs exampleWithdrawn_def fun_eq_iff
      WithdrawalTypePermissionLess_def WithdrawalTypeApproved_def)

lemma example_approved_run:
  "cardFundExecuteApprovedWithdrawal (exampleEnv 3 1000 0) exampleFund 201 5 50 2000 1 77 =
     Inr \<lparr>ret = Void, st = exampleWithdrawn,
          itxns = [IncreaseOpcodeBudget, IncreaseOpcodeBudget, IncreaseOpcodeBudget,
                   AssetTransfer \<lparr>xfer_sender = 201, xfer_assetReceiver = 3, xfer_xferAsset = 5,
                     xfer_assetAmount = 50, xfer_assetCloseTo = None, xfer_note = []\<rparr>],
          logs = [Withdrawal 201 3 5 50 0 2000 1 ''approved'']\<rparr>"
  by (simp add: cardFundExecuteApprovedWithdrawal_def withdrawFunds_def isCardFundOwner_def
      ensureOpcodeBudget.simps check_defs example_defs exampleWithdrawn_def fun_eq_iff
      WithdrawalTypePermissionLess_def WithdrawalTypeApproved_def)

subsection \<open>The partner channel's box deposit\<close>

text \<open>
  Claim C5. For a partner channel whose name has length \<open>n\<close> (at most 32, the bound that
  \<^verbatim>\<open>partnerChannelDeployInit\<close> enforces), the box deposit is
  \<open>2500 + 400 * ((2 + 32) + (2 + 32 + 32 + (2 + n)))\<close>. \<^verbatim>\<open>partnerChannelDeployComplete\<close>
  succeeds only when the attached payment pays exactly that amount to the application, and
  it stores the name; \<^verbatim>\<open>partnerChannelClose\<close>, when it succeeds, sends exactly two inner
  payments: the one that closes the channel's account to the caller, and the refund of
  exactly that amount, computed from the stored name, from the application to the caller.
\<close>

theorem partnerChannel_box_deposit:
  assumes "length name \<le> MaxPartnerChannelNameLength"
  shows "unat (getPartnerChannelBoxMbr name) =
      2500 + 400 * ((2 + 32) + (2 + 32 + 32 + (2 + length name)))
    \<and> (\<forall>e s mbr a out pcs.
          partnerChannelsSetup s (sender e, a) = Some pcs \<and> pcs_partnerChannelName pcs = name \<and>
          partnerChannelDeployComplete e s mbr a = Inr out \<longrightarrow>
          ptx_receiver mbr = appAddress e \<and> ptx_amount mbr = getPartnerChannelBoxMbr name \<and>
          partnerChannels (st out) a =
            Some \<lparr>pc_partnerChannelName = name, pc_owner = sender e, pc_address = a\<rparr>)
    \<and> (\<forall>e s a out d.
          partnerChannels s a = Some d \<and> pc_partnerChannelName d = name \<and>
          partnerChannelClose e s a = Inr out \<longrightarrow>
          itxns out =
            [Payment \<lparr>pay_sender = a, pay_receiver = a, pay_amount = 0,
                      pay_closeRemainderTo = Some (sender e)\<rparr>,
             Payment \<lparr>pay_sender = appAddress e, pay_receiver = sender e,
                      pay_amount = getPartnerChannelBoxMbr name, pay_closeRemainderTo = None\<rparr>])"
proof (intro conjI allI impI)
  show "unat (getPartnerChannelBoxMbr name) =
      2500 + 400 * ((2 + 32) + (2 + 32 + 32 + (2 + length name)))"
    using assms by (intro getPartnerChannelBoxMbr_unat) (simp add: MaxPartnerChannelNameLength_def)
next
  fix e s mbr a out pcs
  assume h: "partnerChannelsSetup s (sender e, a) = Some pcs \<and> pcs_partnerChannelName pcs = name \<and>
          partnerChannelDeployComplete e s mbr a = Inr out"
  then have c: "partnerChannelDeployComplete e s mbr a = Inr out" by simp
  from h c show "ptx_receiver mbr = appAddress e"
    by (auto simp: partnerChannelDeployComplete_def check_defs Let_def split: if_splits)
  from h c show "ptx_amount mbr = getPartnerChannelBoxMbr name"
    by (auto simp: partnerChannelDeployComplete_def check_defs Let_def split: if_splits)
  from h c show "partnerChannels (st out) a =
            Some \<lparr>pc_partnerChannelName = name, pc_owner = sender e, pc_address = a\<rparr>"
    by (auto simp: partnerChannelDeployComplete_def check_defs Let_def split: if_splits)
next
  fix e s a out d
  assume h: "partnerChannels s a = Some d \<and> pc_partnerChannelName d = name \<and>
          partnerChannelClose e s a = Inr out"
  then show "itxns out =
            [Payment \<lparr>pay_sender = a, pay_receiver = a, pay_amount = 0,
                      pay_closeRemainderTo = Some (sender e)\<rparr>,
             Payment \<lparr>pay_sender = appAddress e, pay_receiver = sender e,
                      pay_amount = getPartnerChannelBoxMbr name, pay_closeRemainderTo = None\<rparr>]"
    by (auto simp: partnerChannelClose_def check_defs Let_def split: if_splits)
qed

theorem partnerChannel_box_deposit_witness:
  "length ''Acme'' \<le> MaxPartnerChannelNameLength
   \<and> unat (getPartnerChannelBoxMbr ''Acme'') = 2500 + 400 * ((2 + 32) + (2 + 32 + 32 + (2 + 4)))
   \<and> getPartnerChannelBoxMbr ''Acme'' = 44900
   \<and> partnerChannelDeployComplete (exampleEnv 3 1000 0) examplePendingChannel
        \<lparr>ptx_sender = 3, ptx_receiver = 100, ptx_amount = 44900\<rparr> 200
      = Inr \<lparr>ret = RetAddress 200, st = exampleChannel, itxns = [],
             logs = [PartnerChannelCreated 200 ''Acme'']\<rparr>
   \<and> partnerChannelClose (exampleEnv 3 1000 0) exampleChannel 200
      = Inr \<lparr>ret = Void, st = exampleBase,
             itxns = [Payment \<lparr>pay_sender = 200, pay_receiver = 200, pay_amount = 0,
                               pay_closeRemainderTo = Some 3\<rparr>,
                      Payment \<lparr>pay_sender = 100, pay_receiver = 3, pay_amount = 44900,
                               pay_closeRemainderTo = None\<rparr>],
             logs = [PartnerChannelClosed 200 ''Acme'']\<rparr>"
proof -
  have len: "length ''Acme'' \<le> MaxPartnerChannelNameLength"
    by (simp add: MaxPartnerChannelNameLength_def)
  note T = partnerChannel_box_deposit [OF len]
  have mbr: "getPartnerChannelBoxMbr ''Acme'' = 44900"
    by (simp add: getPartnerChannelBoxMbr_def)
  have complete: "partnerChannelDeployComplete (exampleEnv 3 1000 0) examplePendingChannel
        \<lparr>ptx_sender = 3, ptx_receiver = 100, ptx_amount = 44900\<rparr> 200
      = Inr \<lparr>ret = RetAddress 200, st = exampleChannel, itxns = [],
             logs = [PartnerChannelCreated 200 ''Acme'']\<rparr>"
    by (simp add: partnerChannelDeployComplete_def check_defs example_defs mbr fun_eq_iff)
  have close: "partnerChannelClose (exampleEnv 3 1000 0) exampleChannel 200
      = Inr \<lparr>ret = Void, st = exampleBase,
             itxns = [Payment \<lparr>pay_sender = 200, pay_receiver = 200, pay_amount = 0,
                               pay_closeRemainderTo = Some 3\<rparr>,
                      Payment \<lparr>pay_sender = 100, pay_receiver = 3, pay_amount = 44900,
                               pay_closeRemainderTo = None\<rparr>],
             logs = [PartnerChannelClosed 200 ''Acme'']\<rparr>"
    by (simp add: partnerChannelClose_def check_defs example_defs mbr fun_eq_iff)
  from T have "unat (getPartnerChannelBoxMbr ''Acme'') =
      2500 + 400 * ((2 + 32) + (2 + 32 + 32 + (2 + 4)))"
    by simp
  with len complete mbr close show ?thesis by simp
qed

subsection \<open>One card fund for each partner channel and owner\<close>

text \<open>
  Claim C2. In every reachable storage no two card funds share their (partner channel,
  owner) pair: every card fund is indexed under the hash of its pair, and every index entry
  points to an active card fund with that hash. \<^verbatim>\<open>cardFundDeployInit\<close> by an account whose
  pair is already indexed is rejected, with \<^verbatim>\<open>CARD_FUND_ALREADY_EXISTS\<close> when the partner
  channel exists and the reference is short enough (the two checks that come first).
  \<^verbatim>\<open>cardFundDeployComplete\<close> looks the index up again: for a pending set-up whose pair has
  been indexed since, it fails with \<^verbatim>\<open>CARD_FUND_ALREADY_EXISTS\<close> and writes nothing; when it
  succeeds the pair was not indexed before and is indexed to the new fund afterwards.
\<close>

theorem one_card_fund_per_pair:
  assumes "reachable H s"
  shows "(\<forall>f g cf cg. cardFunds s f = Some cf \<and> cardFunds s g = Some cg \<and>
            cf_partnerChannel cf = cf_partnerChannel cg \<and> cf_owner cf = cf_owner cg \<longrightarrow> f = g)
    \<and> (\<forall>f cf. cardFunds s f = Some cf \<longrightarrow>
          partnerCardFundOwner s
            (H (rawBytesPCF \<lparr>pcf_partnerChannel = cf_partnerChannel cf,
                             pcf_cardFundOwner = cf_owner cf\<rparr>)) = Some f)
    \<and> (\<forall>h f. partnerCardFundOwner s h = Some f \<longrightarrow>
          (\<exists>cf. cardFunds s f = Some cf \<and>
             h = H (rawBytesPCF \<lparr>pcf_partnerChannel = cf_partnerChannel cf,
                                 pcf_cardFundOwner = cf_owner cf\<rparr>)))
    \<and> (\<forall>e mbr pc asset reference.
          sha256 e = H \<and>
          partnerCardFundOwner s
            (H (rawBytesPCF \<lparr>pcf_partnerChannel = pc, pcf_cardFundOwner = sender e\<rparr>)) \<noteq> None \<longrightarrow>
          (\<exists>x. cardFundDeployInit e s mbr pc asset reference = Inl x) \<and>
          (partnerChannels s pc \<noteq> None \<and> length reference \<le> MaxCardFundReferenceLength \<longrightarrow>
             cardFundDeployInit e s mbr pc asset reference = Inl CARD_FUND_ALREADY_EXISTS))
    \<and> (\<forall>e mbr a cfs.
          sha256 e = H \<and> cardFundsSetup s (sender e, a) = Some cfs \<and>
          partnerCardFundOwner s
            (H (rawBytesPCF \<lparr>pcf_partnerChannel = cfs_partnerChannel cfs,
                             pcf_cardFundOwner = sender e\<rparr>)) \<noteq> None \<longrightarrow>
          cardFundDeployComplete e s mbr a = Inl CARD_FUND_ALREADY_EXISTS \<and>
          storageAfter s (cardFundDeployComplete e s mbr a) = s)
    \<and> (\<forall>e mbr a out.
          sha256 e = H \<and> cardFundDeployComplete e s mbr a = Inr out \<longrightarrow>
          (\<exists>cfs. cardFundsSetup s (sender e, a) = Some cfs \<and>
             partnerCardFundOwner s
               (H (rawBytesPCF \<lparr>pcf_partnerChannel = cfs_partnerChannel cfs,
                                pcf_cardFundOwner = sender e\<rparr>)) = None \<and>
             partnerCardFundOwner (st out) =
               (partnerCardFundOwner s)
                 (H (rawBytesPCF \<lparr>pcf_partnerChannel = cfs_partnerChannel cfs,
                                  pcf_cardFundOwner = sender e\<rparr>) \<mapsto> a)))"
proof -
  from assms have inv: "registryInv H s" by (rule reachable_registryInv)
  show ?thesis
  proof (intro conjI allI impI)
    fix f g cf cg
    assume "cardFunds s f = Some cf \<and> cardFunds s g = Some cg \<and>
            cf_partnerChannel cf = cf_partnerChannel cg \<and> cf_owner cf = cf_owner cg"
    then show "f = g" using same_pair_same_fund [OF inv] by blast
  next
    fix f cf assume "cardFunds s f = Some cf"
    from registryInv_indexed [OF inv this]
    show "partnerCardFundOwner s
            (H (rawBytesPCF \<lparr>pcf_partnerChannel = cf_partnerChannel cf,
                             pcf_cardFundOwner = cf_owner cf\<rparr>)) = Some f" .
  next
    fix h f assume "partnerCardFundOwner s h = Some f"
    from registryInv_index_active [OF inv this]
    show "\<exists>cf. cardFunds s f = Some cf \<and>
             h = H (rawBytesPCF \<lparr>pcf_partnerChannel = cf_partnerChannel cf,
                                 pcf_cardFundOwner = cf_owner cf\<rparr>)" .
  next
    fix e :: env and mbr pc asset reference
    assume h: "sha256 e = H \<and>
          partnerCardFundOwner s
            (H (rawBytesPCF \<lparr>pcf_partnerChannel = pc, pcf_cardFundOwner = sender e\<rparr>)) \<noteq> None"
    then have k: "partnerCardFundOwner s (hashPartnerCardFund e pc (sender e)) \<noteq> None"
      by (auto simp: hashPartnerCardFund_def)
    from cardFundDeployInit_indexed(1) [OF k]
    show "\<exists>x. cardFundDeployInit e s mbr pc asset reference = Inl x" .
    assume "partnerChannels s pc \<noteq> None \<and> length reference \<le> MaxCardFundReferenceLength"
    then show "cardFundDeployInit e s mbr pc asset reference = Inl CARD_FUND_ALREADY_EXISTS"
      using cardFundDeployInit_indexed(2) [OF k] by blast
  next
    fix e :: env and mbr a cfs
    assume h: "sha256 e = H \<and> cardFundsSetup s (sender e, a) = Some cfs \<and>
          partnerCardFundOwner s
            (H (rawBytesPCF \<lparr>pcf_partnerChannel = cfs_partnerChannel cfs,
                             pcf_cardFundOwner = sender e\<rparr>)) \<noteq> None"
    then have "cardFundDeployComplete e s mbr a = Inl CARD_FUND_ALREADY_EXISTS"
      by (intro cardFundDeployComplete_indexed [of s e a cfs]) (auto simp: hashPartnerCardFund_def)
    then show "cardFundDeployComplete e s mbr a = Inl CARD_FUND_ALREADY_EXISTS"
      and "storageAfter s (cardFundDeployComplete e s mbr a) = s"
      by (simp_all add: storageAfter_def)
  next
    fix e :: env and mbr a out
    assume h: "sha256 e = H \<and> cardFundDeployComplete e s mbr a = Inr out"
    then have ok: "cardFundDeployComplete e s mbr a = Inr out" and H: "sha256 e = H" by simp_all
    from cardFundDeployComplete_success [OF ok] obtain cfs where
      "cardFundsSetup s (sender e, a) = Some cfs"
      "partnerCardFundOwner s (hashPartnerCardFund e (cfs_partnerChannel cfs) (sender e)) = None"
      "st out = s\<lparr>cardFunds := (cardFunds s)(a \<mapsto>
                   \<lparr>cf_partnerChannel = cfs_partnerChannel cfs, cf_owner = sender e,
                    cf_address = a, cf_paymentNonce = 0, cf_withdrawalNonce = 0,
                    cf_reference = cfs_reference cfs\<rparr>),
                cardFundsActiveCount := cardFundsActiveCount s + 1,
                partnerCardFundOwner := (partnerCardFundOwner s)
                   (hashPartnerCardFund e (cfs_partnerChannel cfs) (sender e) \<mapsto> a),
                cardFundsSetup := (cardFundsSetup s)((sender e, a) := None)\<rparr>"
      by blast
    with H show "\<exists>cfs. cardFundsSetup s (sender e, a) = Some cfs \<and>
             partnerCardFundOwner s
               (H (rawBytesPCF \<lparr>pcf_partnerChannel = cfs_partnerChannel cfs,
                                pcf_cardFundOwner = sender e\<rparr>)) = None \<and>
             partnerCardFundOwner (st out) =
               (partnerCardFundOwner s)
                 (H (rawBytesPCF \<lparr>pcf_partnerChannel = cfs_partnerChannel cfs,
                                  pcf_cardFundOwner = sender e\<rparr>) \<mapsto> a)"
      by (intro exI [of _ cfs]) (simp add: hashPartnerCardFund_def)
  qed
qed

theorem one_card_fund_per_pair_witness:
  "reachable exampleHash exampleRace
   \<and> cardFunds exampleRace 201 =
       Some \<lparr>cf_partnerChannel = 200, cf_owner = 3, cf_address = 201, cf_paymentNonce = 0,
             cf_withdrawalNonce = 0, cf_reference = ''ref''\<rparr>
   \<and> partnerCardFundOwner exampleRace
       (exampleHash (rawBytesPCF \<lparr>pcf_partnerChannel = 200, pcf_cardFundOwner = 3\<rparr>)) = Some 201
   \<and> cardFundDeployInit (exampleEnv 3 1000 203) exampleRace
        \<lparr>ptx_sender = 3, ptx_receiver = 100, ptx_amount = 200000\<rparr> 200 5 ''other''
      = Inl CARD_FUND_ALREADY_EXISTS
   \<and> cardFundsSetup exampleRace (3, 202) =
       Some \<lparr>cfs_partnerChannel = 200, cfs_reference = ''ref''\<rparr>
   \<and> cardFundDeployComplete (exampleEnv 3 1000 0) exampleRace
        \<lparr>ptx_sender = 3, ptx_receiver = 100, ptx_amount = 92600\<rparr> 202
      = Inl CARD_FUND_ALREADY_EXISTS
   \<and> storageAfter exampleRace (cardFundDeployComplete (exampleEnv 3 1000 0) exampleRace
        \<lparr>ptx_sender = 3, ptx_receiver = 100, ptx_amount = 92600\<rparr> 202) = exampleRace"
proof -
  note T = one_card_fund_per_pair [OF reachable_exampleRace]
  have fund: "cardFunds exampleRace 201 =
       Some \<lparr>cf_partnerChannel = 200, cf_owner = 3, cf_address = 201, cf_paymentNonce = 0,
             cf_withdrawalNonce = 0, cf_reference = ''ref''\<rparr>"
    by (simp add: example_defs)
  from T fund have "partnerCardFundOwner exampleRace
      (exampleHash (rawBytesPCF \<lparr>pcf_partnerChannel =
          cf_partnerChannel \<lparr>cf_partnerChannel = 200, cf_owner = 3, cf_address = 201,
            cf_paymentNonce = 0, cf_withdrawalNonce = 0, cf_reference = ''ref''\<rparr>,
        pcf_cardFundOwner = cf_owner \<lparr>cf_partnerChannel = 200, cf_owner = 3, cf_address = 201,
            cf_paymentNonce = 0, cf_withdrawalNonce = 0, cf_reference = ''ref''\<rparr>\<rparr>)) = Some 201"
    by blast
  then have idx: "partnerCardFundOwner exampleRace
       (exampleHash (rawBytesPCF \<lparr>pcf_partnerChannel = 200, pcf_cardFundOwner = 3\<rparr>)) = Some 201"
    by simp
  have env: "sha256 (exampleEnv 3 1000 203) = exampleHash" "sender (exampleEnv 3 1000 203) = 3"
    "sha256 (exampleEnv 3 1000 0) = exampleHash" "sender (exampleEnv 3 1000 0) = 3"
    by (simp_all add: exampleEnv_def)
  have chan: "partnerChannels exampleRace 200 \<noteq> None"
    and len: "length ''other'' \<le> MaxCardFundReferenceLength"
    by (simp_all add: example_defs MaxCardFundReferenceLength_def)
  have pend: "cardFundsSetup exampleRace (3, 202) =
       Some \<lparr>cfs_partnerChannel = 200, cfs_reference = ''ref''\<rparr>"
    by (simp add: example_defs)
  from T have "sha256 (exampleEnv 3 1000 203) = exampleHash \<and>
      partnerCardFundOwner exampleRace (exampleHash (rawBytesPCF
        \<lparr>pcf_partnerChannel = 200, pcf_cardFundOwner = sender (exampleEnv 3 1000 203)\<rparr>)) \<noteq> None \<longrightarrow>
      (partnerChannels exampleRace 200 \<noteq> None \<and> length ''other'' \<le> MaxCardFundReferenceLength \<longrightarrow>
       cardFundDeployInit (exampleEnv 3 1000 203) exampleRace
        \<lparr>ptx_sender = 3, ptx_receiver = 100, ptx_amount = 200000\<rparr> 200 5 ''other''
        = Inl CARD_FUND_ALREADY_EXISTS)"
    by blast
  with env idx chan len have init: "cardFundDeployInit (exampleEnv 3 1000 203) exampleRace
        \<lparr>ptx_sender = 3, ptx_receiver = 100, ptx_amount = 200000\<rparr> 200 5 ''other''
        = Inl CARD_FUND_ALREADY_EXISTS"
    by simp
  from T have "sha256 (exampleEnv 3 1000 0) = exampleHash \<and>
      cardFundsSetup exampleRace (sender (exampleEnv 3 1000 0), 202) =
        Some \<lparr>cfs_partnerChannel = 200, cfs_reference = ''ref''\<rparr> \<and>
      partnerCardFundOwner exampleRace (exampleHash (rawBytesPCF
        \<lparr>pcf_partnerChannel = cfs_partnerChannel \<lparr>cfs_partnerChannel = 200, cfs_reference = ''ref''\<rparr>,
         pcf_cardFundOwner = sender (exampleEnv 3 1000 0)\<rparr>)) \<noteq> None \<longrightarrow>
      cardFundDeployComplete (exampleEnv 3 1000 0) exampleRace
        \<lparr>ptx_sender = 3, ptx_receiver = 100, ptx_amount = 92600\<rparr> 202
        = Inl CARD_FUND_ALREADY_EXISTS \<and>
      storageAfter exampleRace (cardFundDeployComplete (exampleEnv 3 1000 0) exampleRace
        \<lparr>ptx_sender = 3, ptx_receiver = 100, ptx_amount = 92600\<rparr> 202) = exampleRace"
    by blast
  with env idx pend have "cardFundDeployComplete (exampleEnv 3 1000 0) exampleRace
        \<lparr>ptx_sender = 3, ptx_receiver = 100, ptx_amount = 92600\<rparr> 202
        = Inl CARD_FUND_ALREADY_EXISTS \<and>
      storageAfter exampleRace (cardFundDeployComplete (exampleEnv 3 1000 0) exampleRace
        \<lparr>ptx_sender = 3, ptx_receiver = 100, ptx_amount = 92600\<rparr> 202) = exampleRace"
    by (simp add: storageAfter_def)
  with reachable_exampleRace fund idx init pend show ?thesis by (simp add: storageAfter_def)
qed


subsection \<open>The active counters count the box maps\<close>

text \<open>
  Claim C10. In every reachable storage \<^verbatim>\<open>cardFundsActiveCount\<close> is the number of entries of
  \<^verbatim>\<open>cardFunds\<close> and \<^verbatim>\<open>partnerChannelsActiveCount\<close> the number of entries of
  \<^verbatim>\<open>partnerChannels\<close>. A successful deploy-complete adds one entry that was not there and
  adds one to the matching counter; a successful close removes one entry that was there
  and takes one from the counter; each leaves the other map and counter alone; every other
  successful call leaves both counters and the set of entries of both maps as they were.
\<close>

theorem active_counts_match_maps:
  assumes "reachable H s"
  shows "finite (dom (cardFunds s)) \<and> unat (cardFundsActiveCount s) = card (dom (cardFunds s))
    \<and> finite (dom (partnerChannels s))
    \<and> unat (partnerChannelsActiveCount s) = card (dom (partnerChannels s))
    \<and> (\<forall>e p a out. cardFundDeployComplete e s p a = Inr out \<longrightarrow>
          a \<notin> dom (cardFunds s) \<and> dom (cardFunds (st out)) = insert a (dom (cardFunds s)) \<and>
          unat (cardFundsActiveCount (st out)) = unat (cardFundsActiveCount s) + 1 \<and>
          partnerChannels (st out) = partnerChannels s \<and>
          partnerChannelsActiveCount (st out) = partnerChannelsActiveCount s)
    \<and> (\<forall>e a out. cardFundClose e s a = Inr out \<longrightarrow>
          a \<in> dom (cardFunds s) \<and> dom (cardFunds (st out)) = dom (cardFunds s) - {a} \<and>
          unat (cardFundsActiveCount (st out)) + 1 = unat (cardFundsActiveCount s) \<and>
          partnerChannels (st out) = partnerChannels s \<and>
          partnerChannelsActiveCount (st out) = partnerChannelsActiveCount s)
    \<and> (\<forall>e p a out. partnerChannelDeployComplete e s p a = Inr out \<longrightarrow>
          a \<notin> dom (partnerChannels s) \<and>
          dom (partnerChannels (st out)) = insert a (dom (partnerChannels s)) \<and>
          unat (partnerChannelsActiveCount (st out)) = unat (partnerChannelsActiveCount s) + 1 \<and>
          cardFunds (st out) = cardFunds s \<and>
          cardFundsActiveCount (st out) = cardFundsActiveCount s)
    \<and> (\<forall>e a out. partnerChannelClose e s a = Inr out \<longrightarrow>
          a \<in> dom (partnerChannels s) \<and>
          dom (partnerChannels (st out)) = dom (partnerChannels s) - {a} \<and>
          unat (partnerChannelsActiveCount (st out)) + 1 = unat (partnerChannelsActiveCount s) \<and>
          cardFunds (st out) = cardFunds s \<and>
          cardFundsActiveCount (st out) = cardFundsActiveCount s)
    \<and> (\<forall>e c out. perform e s c = Inr out \<and>
          (\<forall>p a. c \<noteq> CardFundDeployComplete p a) \<and> (\<forall>a. c \<noteq> CardFundClose a) \<and>
          (\<forall>p a. c \<noteq> PartnerChannelDeployComplete p a) \<and> (\<forall>a. c \<noteq> PartnerChannelClose a) \<longrightarrow>
          dom (cardFunds (st out)) = dom (cardFunds s) \<and>
          cardFundsActiveCount (st out) = cardFundsActiveCount s \<and>
          partnerChannels (st out) = partnerChannels s \<and>
          partnerChannelsActiveCount (st out) = partnerChannelsActiveCount s)"
proof -
  from assms have inv: "registryInv H s" by (rule reachable_registryInv)
  have counts: "finite (dom (cardFunds s)) \<and> unat (cardFundsActiveCount s) = card (dom (cardFunds s))
    \<and> finite (dom (partnerChannels s))
    \<and> unat (partnerChannelsActiveCount s) = card (dom (partnerChannels s))"
    using registryInv_counts [OF inv] .
  have fundComplete: "a \<notin> dom (cardFunds s) \<and> dom (cardFunds (st out)) = insert a (dom (cardFunds s)) \<and>
          unat (cardFundsActiveCount (st out)) = unat (cardFundsActiveCount s) + 1 \<and>
          partnerChannels (st out) = partnerChannels s \<and>
          partnerChannelsActiveCount (st out) = partnerChannelsActiveCount s"
    if ok: "cardFundDeployComplete e s p a = Inr out" for e p a out
  proof -
    from cardFundDeployComplete_success [OF ok] obtain cfs where
      pend: "cardFundsSetup s (sender e, a) = Some cfs"
      and room: "unat (cardFundsActiveCount s) + 1 < 2 ^ 64"
      and st: "st out = s\<lparr>cardFunds := (cardFunds s)(a \<mapsto>
                   \<lparr>cf_partnerChannel = cfs_partnerChannel cfs, cf_owner = sender e,
                    cf_address = a, cf_paymentNonce = 0, cf_withdrawalNonce = 0,
                    cf_reference = cfs_reference cfs\<rparr>),
                cardFundsActiveCount := cardFundsActiveCount s + 1,
                partnerCardFundOwner := (partnerCardFundOwner s)
                   (hashPartnerCardFund e (cfs_partnerChannel cfs) (sender e) \<mapsto> a),
                cardFundsSetup := (cardFundsSetup s)((sender e, a) := None)\<rparr>"
      by blast
    from pend registryInv_pendingFund [OF inv, of "sender e" a] have "cardFunds s a = None" by simp
    with st unat_plus_one [OF room] show ?thesis by auto
  qed
  have fundClose: "a \<in> dom (cardFunds s) \<and> dom (cardFunds (st out)) = dom (cardFunds s) - {a} \<and>
          unat (cardFundsActiveCount (st out)) + 1 = unat (cardFundsActiveCount s) \<and>
          partnerChannels (st out) = partnerChannels s \<and>
          partnerChannelsActiveCount (st out) = partnerChannelsActiveCount s"
    if ok: "cardFundClose e s a = Inr out" for e a out
  proof -
    from cardFundClose_success [OF ok] obtain cf where
      ex: "cardFunds s a = Some cf"
      and pos: "1 \<le> unat (cardFundsActiveCount s)"
      and st: "st out = s\<lparr>cardFunds := (cardFunds s)(a := None),
                cardFundsActiveCount := cardFundsActiveCount s - 1,
                partnerCardFundOwner := (partnerCardFundOwner s)
                  (hashPartnerCardFund e (cf_partnerChannel cf) (cf_owner cf) := None)\<rparr>"
      by blast
    with unat_minus_one_pos [OF pos] show ?thesis by auto
  qed
  have channelComplete: "a \<notin> dom (partnerChannels s) \<and>
          dom (partnerChannels (st out)) = insert a (dom (partnerChannels s)) \<and>
          unat (partnerChannelsActiveCount (st out)) = unat (partnerChannelsActiveCount s) + 1 \<and>
          cardFunds (st out) = cardFunds s \<and>
          cardFundsActiveCount (st out) = cardFundsActiveCount s"
    if ok: "partnerChannelDeployComplete e s p a = Inr out" for e p a out
  proof -
    from partnerChannelDeployComplete_success [OF ok] obtain pcs where
      pend: "partnerChannelsSetup s (sender e, a) = Some pcs"
      and room: "unat (partnerChannelsActiveCount s) + 1 < 2 ^ 64"
      and st: "st out = s\<lparr>partnerChannels := (partnerChannels s)(a \<mapsto>
                   \<lparr>pc_partnerChannelName = pcs_partnerChannelName pcs, pc_owner = sender e,
                    pc_address = a\<rparr>),
                partnerChannelsSetup := (partnerChannelsSetup s)((sender e, a) := None),
                partnerChannelsActiveCount := partnerChannelsActiveCount s + 1\<rparr>"
      by blast
    from pend registryInv_pendingChannel [OF inv, of "sender e" a]
    have "partnerChannels s a = None" by simp
    with st unat_plus_one [OF room] show ?thesis by auto
  qed
  have channelClose: "a \<in> dom (partnerChannels s) \<and>
          dom (partnerChannels (st out)) = dom (partnerChannels s) - {a} \<and>
          unat (partnerChannelsActiveCount (st out)) + 1 = unat (partnerChannelsActiveCount s) \<and>
          cardFunds (st out) = cardFunds s \<and>
          cardFundsActiveCount (st out) = cardFundsActiveCount s"
    if ok: "partnerChannelClose e s a = Inr out" for e a out
  proof -
    from partnerChannelClose_success [OF ok] obtain d where
      ex: "partnerChannels s a = Some d"
      and pos: "1 \<le> unat (partnerChannelsActiveCount s)"
      and st: "st out = s\<lparr>partnerChannels := (partnerChannels s)(a := None),
                partnerChannelsActiveCount := partnerChannelsActiveCount s - 1\<rparr>"
      by blast
    with unat_minus_one_pos [OF pos] show ?thesis by auto
  qed
  have other: "dom (cardFunds (st out)) = dom (cardFunds s) \<and>
          cardFundsActiveCount (st out) = cardFundsActiveCount s \<and>
          partnerChannels (st out) = partnerChannels s \<and>
          partnerChannelsActiveCount (st out) = partnerChannelsActiveCount s"
    if "perform e s c = Inr out \<and>
          (\<forall>p a. c \<noteq> CardFundDeployComplete p a) \<and> (\<forall>a. c \<noteq> CardFundClose a) \<and>
          (\<forall>p a. c \<noteq> PartnerChannelDeployComplete p a) \<and> (\<forall>a. c \<noteq> PartnerChannelClose a)"
    for e c out
    using that perform_other_registry [of e s c out] by blast
  from counts have c1: "finite (dom (cardFunds s))"
    and c2: "unat (cardFundsActiveCount s) = card (dom (cardFunds s))"
    and c3: "finite (dom (partnerChannels s))"
    and c4: "unat (partnerChannelsActiveCount s) = card (dom (partnerChannels s))"
    by simp_all
  show ?thesis
    apply (intro conjI)
            apply (fact c1)
           apply (fact c2)
          apply (fact c3)
         apply (fact c4)
        apply (intro allI impI, erule fundComplete)
       apply (intro allI impI, erule fundClose)
      apply (intro allI impI, erule channelComplete)
     apply (intro allI impI, erule channelClose)
    apply (intro allI impI, erule other)
    done
qed

theorem active_counts_match_maps_witness:
  "reachable exampleHash examplePendingFund
   \<and> dom (cardFunds examplePendingFund) = {} \<and> cardFundsActiveCount examplePendingFund = 0
   \<and> dom (partnerChannels examplePendingFund) = {200}
   \<and> unat (partnerChannelsActiveCount examplePendingFund) = card (dom (partnerChannels examplePendingFund))
   \<and> cardFundDeployComplete (exampleEnv 3 1000 0) examplePendingFund
        \<lparr>ptx_sender = 3, ptx_receiver = 100, ptx_amount = 92600\<rparr> 201
      = Inr \<lparr>ret = RetAddress 201, st = exampleFund, itxns = [],
             logs = [CardFundCreated 3 201 200 ''ref'']\<rparr>
   \<and> dom (cardFunds exampleFund) = insert 201 (dom (cardFunds examplePendingFund))
   \<and> unat (cardFundsActiveCount exampleFund) = unat (cardFundsActiveCount examplePendingFund) + 1
   \<and> partnerChannels exampleFund = partnerChannels examplePendingFund"
proof -
  note T = active_counts_match_maps [OF reachable_examplePendingFund]
  have run: "cardFundDeployComplete (exampleEnv 3 1000 0) examplePendingFund
        \<lparr>ptx_sender = 3, ptx_receiver = 100, ptx_amount = 92600\<rparr> 201
      = Inr \<lparr>ret = RetAddress 201, st = exampleFund, itxns = [],
             logs = [CardFundCreated 3 201 200 ''ref'']\<rparr>"
    by (simp add: cardFundDeployComplete_def hashPartnerCardFund_def check_defs example_defs
        getCardFundBoxMbr_ref fun_eq_iff)
  note step = T [THEN conjunct2, THEN conjunct2, THEN conjunct2, THEN conjunct2, THEN conjunct1,
    rule_format, OF run, simplified]
  note cnt = T [THEN conjunct2, THEN conjunct2, THEN conjunct2, THEN conjunct1]
  have doms: "dom (cardFunds examplePendingFund) = {}" "cardFundsActiveCount examplePendingFund = 0"
    "dom (partnerChannels examplePendingFund) = {200}"
    by (simp_all add: example_defs)
  from reachable_examplePendingFund doms cnt run step show ?thesis by simp
qed

subsection \<open>Nonces advance by one\<close>

lemma payment_nonce_mismatch:
  assumes "cardFunds s cardFund = Some cf" "whenNotPaused s = Inr ()" "onlySettler e s = Inr ()"
    "unat (cf_paymentNonce cf) + 1 < 2 ^ 64" "nonce \<noteq> cf_paymentNonce cf + 1"
  shows "cardFundDebit e s cardFund asset amount nonce ref = Inl NONCE_INVALID"
    and "cardFundRefund e s cardFund asset amount nonce ref = Inl NONCE_INVALID"
  using assms
  by (auto simp: cardFundDebit_def cardFundRefund_def andThen_def assertTag_def valueOf_def add64_def)

lemma storageAfter_failure: "(\<And>out. r \<noteq> Inr out) \<Longrightarrow> storageAfter s r = s"
  by (cases r) (auto simp: storageAfter_def)

text \<open>
  Over all the methods: a call leaves the two nonces of every card fund alone, or advances
  one of them, of one card fund, by one. A card fund completed by the call is new (its
  address was pending, so not in the map), and one closed by it is gone.
\<close>

lemma nonceStep_refl: "nonceStep cf cf"
  by (simp add: nonceStep_def)

lemma perform_nonceStep:
  assumes ok: "perform e s c = Inr out" and inv: "registryInv H s"
    and f0: "cardFunds s f = Some cf0" and f1: "cardFunds (st out) f = Some cf1"
  shows "nonceStep cf0 cf1"
proof -
  have same: "nonceStep cf0 cf1" if "cardFunds (st out) = cardFunds s"
    using that f0 f1 by (simp add: nonceStep_refl)
  show ?thesis
  proof (cases c)
    case Update
    with ok update_same [of e s out] show ?thesis by (intro same) (simp add: sameRegistry_def)
  next
    case Destroy
    with ok destroy_same [of e s out] show ?thesis by (intro same) (simp add: sameRegistry_def)
  next
    case (TransferOwnership a)
    with ok transferOwnership_same [of e s a out] show ?thesis
      by (intro same) (simp add: sameRegistry_def)
  next
    case Pause
    with ok pause_same [of e s out] show ?thesis by (intro same) (simp add: sameRegistry_def)
  next
    case Unpause
    with ok unpause_same [of e s out] show ?thesis by (intro same) (simp add: sameRegistry_def)
  next
    case (SetWithdrawalTimeout n)
    with ok setWithdrawalTimeout_same [of e s n out] show ?thesis
      by (intro same) (simp add: sameRegistry_def)
  next
    case (SetSettlerRole a)
    with ok setSettlerRole_same [of e s a out] show ?thesis
      by (intro same) (simp add: sameRegistry_def)
  next
    case (SetSettlementAddress x a)
    with ok setSettlementAddress_same [of e s x a out] show ?thesis
      by (intro same) (simp add: sameRegistry_def)
  next
    case (PartnerChannelDeployInit p n)
    with ok partnerChannelDeployInit_success [of e s p n out] show ?thesis by (intro same) simp
  next
    case (PartnerChannelDeployComplete p a)
    with ok partnerChannelDeployComplete_success [of e s p a out] show ?thesis
      by (intro same) auto
  next
    case (PartnerChannelClose a)
    with ok partnerChannelClose_success [of e s a out] show ?thesis by (intro same) auto
  next
    case (CardFundDeployInit p a x r)
    with ok cardFundDeployInit_success [of e s p a x r out] show ?thesis by (intro same) simp
  next
    case (CardFundDeployComplete p a)
    with ok have run: "cardFundDeployComplete e s p a = Inr out" by simp
    from cardFundDeployComplete_success [OF run] obtain cfs d where
      pend: "cardFundsSetup s (sender e, a) = Some cfs"
      and cf: "cardFunds (st out) = (cardFunds s)(a \<mapsto> d)"
      by auto
    from pend registryInv_pendingFund [OF inv, of "sender e" a] have "cardFunds s a = None" by simp
    with f0 have "f \<noteq> a" by auto
    with cf f0 f1 show ?thesis by (simp add: nonceStep_refl)
  next
    case (CardFundClose a)
    with ok have run: "cardFundClose e s a = Inr out" by simp
    from cardFundClose_success [OF run] have cf: "cardFunds (st out) = (cardFunds s)(a := None)"
      by auto
    with f1 have "f \<noteq> a" by auto
    with cf f0 f1 show ?thesis by (simp add: nonceStep_refl)
  next
    case (AssetAllowlistAdd p x a)
    with ok assetAllowlistAdd_same [of e s p x a out] show ?thesis
      by (intro same) (simp add: sameRegistry_def)
  next
    case (AssetAllowlistRemove x)
    with ok assetAllowlistRemove_same [of e s x out] show ?thesis
      by (intro same) (simp add: sameRegistry_def)
  next
    case (CardFundDebit a x n k r)
    with ok have run: "cardFundDebit e s a x n k r = Inr out" by simp
    from cardFundDebit_success [OF run] obtain cf where
      cf: "cardFunds s a = Some cf" "unat k = unat (cf_paymentNonce cf) + 1"
        "cardFunds (st out) = (cardFunds s)(a \<mapsto> cf\<lparr>cf_paymentNonce := k\<rparr>)"
      by auto
    with f0 f1 show ?thesis by (cases "f = a") (auto simp: nonceStep_def)
  next
    case (CardFundRefund a x n k r)
    with ok have run: "cardFundRefund e s a x n k r = Inr out" by simp
    from cardFundRefund_success [OF run] obtain cf where
      cf: "cardFunds s a = Some cf" "unat k = unat (cf_paymentNonce cf) + 1"
        "cardFunds (st out) = (cardFunds s)(a \<mapsto> cf\<lparr>cf_paymentNonce := k\<rparr>)"
      by auto
    with f0 f1 show ?thesis by (cases "f = a") (auto simp: nonceStep_def)
  next
    case (Settle x n k)
    with ok settle_same [of e s x n k out] show ?thesis by (intro same) (simp add: sameRegistry_def)
  next
    case (CardFundEnableAsset p a x)
    with ok cardFundEnableAsset_same [of e s p a x out] show ?thesis
      by (intro same) (simp add: sameRegistry_def)
  next
    case (CardFundDisableAsset a x)
    with ok cardFundDisableAsset_same [of e s a x out] show ?thesis
      by (intro same) (simp add: sameRegistry_def)
  next
    case (CardFundInitPermissionlessWithdrawal a x n)
    with ok initWithdrawal_same [of e s a x n out] show ?thesis
      by (intro same) (simp add: sameRegistry_def)
  next
    case (CardFundWithdrawalCancel a)
    with ok withdrawalCancel_same [of e s a out] show ?thesis
      by (intro same) (simp add: sameRegistry_def)
  next
    case (CardFundExecutePermissionlessWithdrawal a n)
    with ok have run: "cardFundExecutePermissionlessWithdrawal e s a n = Inr out" by simp
    from executePermissionless_success [OF run] obtain cf where
      cf: "cardFunds s a = Some cf"
        "unat (cf_withdrawalNonce cf + 1) = unat (cf_withdrawalNonce cf) + 1"
        "cardFunds (st out) =
           (cardFunds s)(a \<mapsto> cf\<lparr>cf_withdrawalNonce := cf_withdrawalNonce cf + 1\<rparr>)"
      by auto
    with f0 f1 show ?thesis by (cases "f = a") (auto simp: nonceStep_def)
  next
    case (CardFundExecuteApprovedWithdrawal a x n t k g)
    with ok have run: "cardFundExecuteApprovedWithdrawal e s a x n t k g = Inr out" by simp
    then obtain cf where
      cf: "cardFunds s a = Some cf" "unat (cf_withdrawalNonce cf) + 1 < 2 ^ 64"
        "k = cf_withdrawalNonce cf + 1"
        "cardFunds (st out) = (cardFunds s)(a \<mapsto> cf\<lparr>cf_withdrawalNonce := k\<rparr>)"
      unfolding executeApproved_success_iff by auto
    from cf(2,3) unat_plus_one [of "cf_withdrawalNonce cf"]
    have "unat k = unat (cf_withdrawalNonce cf) + 1" by simp
    with cf f0 f1 show ?thesis by (cases "f = a") (auto simp: nonceStep_def)
  qed
qed

text \<open>
  Claim C1. For a card fund with record \<open>cf\<close>: a successful \<^verbatim>\<open>cardFundDebit\<close> or
  \<^verbatim>\<open>cardFundRefund\<close> was given the nonce \<open>paymentNonce + 1\<close> and changes the storage in
  exactly one place, the fund's \<open>paymentNonce\<close>, which becomes that nonce. With any other
  nonce the call fails and the storage stays as it was; the failure is \<^verbatim>\<open>NONCE_INVALID\<close>
  when the earlier checks pass (not paused, the caller is the settler) and the increment
  \<open>paymentNonce + 1\<close> itself fits 64 bits. A successful permissionless execution sets
  \<open>withdrawalNonce\<close> to \<open>withdrawalNonce + 1\<close> (and deletes the request); a successful
  approved withdrawal was given \<open>withdrawalNonce + 1\<close> and stores it, and with any other
  nonce it leaves the storage as it was. No other method touches a nonce: in a reachable
  storage, whatever the successful call, a card fund that is there before and after it has
  its two nonces unchanged or exactly one of them advanced by one.
\<close>

theorem nonces_advance_by_one:
  assumes fund: "cardFunds s cardFund = Some cf"
  shows "(\<forall>out. cardFundDebit e s cardFund asset amount nonce ref = Inr out \<longrightarrow>
            unat nonce = unat (cf_paymentNonce cf) + 1 \<and>
            st out = s\<lparr>cardFunds := (cardFunds s)(cardFund \<mapsto> cf\<lparr>cf_paymentNonce := nonce\<rparr>)\<rparr>)
    \<and> (\<forall>out. cardFundRefund e s cardFund asset amount nonce ref = Inr out \<longrightarrow>
            unat nonce = unat (cf_paymentNonce cf) + 1 \<and>
            st out = s\<lparr>cardFunds := (cardFunds s)(cardFund \<mapsto> cf\<lparr>cf_paymentNonce := nonce\<rparr>)\<rparr>)
    \<and> (whenNotPaused s = Inr () \<and> onlySettler e s = Inr () \<and>
         unat (cf_paymentNonce cf) + 1 < 2 ^ 64 \<and> nonce \<noteq> cf_paymentNonce cf + 1 \<longrightarrow>
            cardFundDebit e s cardFund asset amount nonce ref = Inl NONCE_INVALID \<and>
            cardFundRefund e s cardFund asset amount nonce ref = Inl NONCE_INVALID)
    \<and> (unat nonce \<noteq> unat (cf_paymentNonce cf) + 1 \<longrightarrow>
            storageAfter s (cardFundDebit e s cardFund asset amount nonce ref) = s \<and>
            storageAfter s (cardFundRefund e s cardFund asset amount nonce ref) = s)
    \<and> (\<forall>out. cardFundExecutePermissionlessWithdrawal e s cardFund amount = Inr out \<longrightarrow>
            unat (cf_withdrawalNonce cf + 1) = unat (cf_withdrawalNonce cf) + 1 \<and>
            st out = s\<lparr>cardFunds := (cardFunds s)(cardFund \<mapsto>
                        cf\<lparr>cf_withdrawalNonce := cf_withdrawalNonce cf + 1\<rparr>),
                       withdrawals := (withdrawals s)((sender e, cardFund) := None)\<rparr>)
    \<and> (\<forall>out. cardFundExecuteApprovedWithdrawal e s cardFund asset amount expiresAt nonce sg = Inr out \<longrightarrow>
            unat nonce = unat (cf_withdrawalNonce cf) + 1 \<and>
            st out = s\<lparr>cardFunds := (cardFunds s)(cardFund \<mapsto> cf\<lparr>cf_withdrawalNonce := nonce\<rparr>)\<rparr>)
    \<and> (unat nonce \<noteq> unat (cf_withdrawalNonce cf) + 1 \<longrightarrow>
            storageAfter s (cardFundExecuteApprovedWithdrawal e s cardFund asset amount expiresAt
              nonce sg) = s)
    \<and> (\<forall>H c out f cfa cfb. reachable H s \<and> perform e s c = Inr out \<and>
            cardFunds s f = Some cfa \<and> cardFunds (st out) f = Some cfb \<longrightarrow> nonceStep cfa cfb)"
proof -
  have debit: "unat nonce = unat (cf_paymentNonce cf) + 1 \<and>
      st out = s\<lparr>cardFunds := (cardFunds s)(cardFund \<mapsto> cf\<lparr>cf_paymentNonce := nonce\<rparr>)\<rparr>"
    if "cardFundDebit e s cardFund asset amount nonce ref = Inr out" for out
    using cardFundDebit_success [OF that] fund by auto
  have refund: "unat nonce = unat (cf_paymentNonce cf) + 1 \<and>
      st out = s\<lparr>cardFunds := (cardFunds s)(cardFund \<mapsto> cf\<lparr>cf_paymentNonce := nonce\<rparr>)\<rparr>"
    if "cardFundRefund e s cardFund asset amount nonce ref = Inr out" for out
    using cardFundRefund_success [OF that] fund by auto
  have mismatch: "cardFundDebit e s cardFund asset amount nonce ref = Inl NONCE_INVALID \<and>
      cardFundRefund e s cardFund asset amount nonce ref = Inl NONCE_INVALID"
    if "whenNotPaused s = Inr () \<and> onlySettler e s = Inr () \<and>
         unat (cf_paymentNonce cf) + 1 < 2 ^ 64 \<and> nonce \<noteq> cf_paymentNonce cf + 1"
    using that payment_nonce_mismatch [OF fund, of e nonce asset amount ref] by blast
  have unchanged: "storageAfter s (cardFundDebit e s cardFund asset amount nonce ref) = s \<and>
      storageAfter s (cardFundRefund e s cardFund asset amount nonce ref) = s"
    if "unat nonce \<noteq> unat (cf_paymentNonce cf) + 1"
    using that debit refund by (intro conjI storageAfter_failure) blast+
  have permissionless: "unat (cf_withdrawalNonce cf + 1) = unat (cf_withdrawalNonce cf) + 1 \<and>
      st out = s\<lparr>cardFunds := (cardFunds s)(cardFund \<mapsto>
                        cf\<lparr>cf_withdrawalNonce := cf_withdrawalNonce cf + 1\<rparr>),
                 withdrawals := (withdrawals s)((sender e, cardFund) := None)\<rparr>"
    if "cardFundExecutePermissionlessWithdrawal e s cardFund amount = Inr out" for out
    using executePermissionless_success [OF that] fund by auto
  have approved: "unat nonce = unat (cf_withdrawalNonce cf) + 1 \<and>
      st out = s\<lparr>cardFunds := (cardFunds s)(cardFund \<mapsto> cf\<lparr>cf_withdrawalNonce := nonce\<rparr>)\<rparr>"
    if "cardFundExecuteApprovedWithdrawal e s cardFund asset amount expiresAt nonce sg = Inr out"
    for out
    using that fund unat_plus_one [of "cf_withdrawalNonce cf"]
    by (auto simp: executeApproved_success_iff)
  have approved_unchanged:
    "storageAfter s (cardFundExecuteApprovedWithdrawal e s cardFund asset amount expiresAt
              nonce sg) = s"
    if "unat nonce \<noteq> unat (cf_withdrawalNonce cf) + 1"
    using that approved by (intro storageAfter_failure) blast
  have every: "nonceStep cfa cfb"
    if "reachable H s \<and> perform e s c = Inr out \<and>
            cardFunds s f = Some cfa \<and> cardFunds (st out) f = Some cfb"
    for H c out f cfa cfb
  proof -
    from that have "registryInv H s" by (simp add: reachable_registryInv)
    with that show ?thesis by (blast intro: perform_nonceStep)
  qed
  show ?thesis
    apply (intro conjI)
           apply (intro allI impI, erule debit)
          apply (intro allI impI, erule refund)
         apply (intro impI, erule mismatch)
        apply (intro impI, erule unchanged)
       apply (intro allI impI, erule permissionless)
      apply (intro allI impI, erule approved)
     apply (intro impI, erule approved_unchanged)
    apply (intro allI impI, erule every)
    done
qed

theorem nonces_advance_by_one_witness:
  "cardFundDebit (exampleEnv 2 1000 0) exampleFund 201 5 100 1 ''txn-1'' =
       Inr \<lparr>ret = Void,
            st = exampleFund\<lparr>cardFunds := (cardFunds exampleFund)(201 \<mapsto>
                   \<lparr>cf_partnerChannel = 200, cf_owner = 3, cf_address = 201, cf_paymentNonce = 1,
                    cf_withdrawalNonce = 0, cf_reference = ''ref''\<rparr>)\<rparr>,
            itxns = [AssetTransfer \<lparr>xfer_sender = 201, xfer_assetReceiver = 100, xfer_xferAsset = 5,
                      xfer_assetAmount = 100, xfer_assetCloseTo = None, xfer_note = ''txn-1''\<rparr>],
            logs = [Debit 201 5 100 1 ''txn-1'']\<rparr>
   \<and> cardFundDebit (exampleEnv 2 1000 0)
        (exampleFund\<lparr>cardFunds := (cardFunds exampleFund)(201 \<mapsto>
                   \<lparr>cf_partnerChannel = 200, cf_owner = 3, cf_address = 201, cf_paymentNonce = 1,
                    cf_withdrawalNonce = 0, cf_reference = ''ref''\<rparr>)\<rparr>) 201 5 100 1 ''txn-1'' =
       Inl NONCE_INVALID
   \<and> cardFundRefund (exampleEnv 2 1000 0) exampleFund 201 5 100 7 ''txn-2'' = Inl NONCE_INVALID
   \<and> storageAfter exampleFund
        (cardFundRefund (exampleEnv 2 1000 0) exampleFund 201 5 100 7 ''txn-2'') = exampleFund
   \<and> cardFunds exampleRequest 201 =
       Some \<lparr>cf_partnerChannel = 200, cf_owner = 3, cf_address = 201, cf_paymentNonce = 0,
             cf_withdrawalNonce = 0, cf_reference = ''ref''\<rparr>
   \<and> cardFundExecutePermissionlessWithdrawal (exampleEnv 3 87400 0) exampleRequest 201 50 =
       Inr \<lparr>ret = Void, st = exampleWithdrawn,
            itxns = [AssetTransfer \<lparr>xfer_sender = 201, xfer_assetReceiver = 3, xfer_xferAsset = 5,
                       xfer_assetAmount = 50, xfer_assetCloseTo = None, xfer_note = []\<rparr>],
            logs = [Withdrawal 201 3 5 50 1000 0 1 ''permissionless'']\<rparr>
   \<and> cardFundExecuteApprovedWithdrawal (exampleEnv 3 1000 0) exampleFund 201 5 50 2000 1 77 =
       Inr \<lparr>ret = Void, st = exampleWithdrawn,
            itxns = [IncreaseOpcodeBudget, IncreaseOpcodeBudget, IncreaseOpcodeBudget,
                     AssetTransfer \<lparr>xfer_sender = 201, xfer_assetReceiver = 3, xfer_xferAsset = 5,
                       xfer_assetAmount = 50, xfer_assetCloseTo = None, xfer_note = []\<rparr>],
            logs = [Withdrawal 201 3 5 50 0 2000 1 ''approved'']\<rparr>
   \<and> cardFunds exampleWithdrawn 201 =
       Some \<lparr>cf_partnerChannel = 200, cf_owner = 3, cf_address = 201, cf_paymentNonce = 0,
             cf_withdrawalNonce = 1, cf_reference = ''ref''\<rparr>
   \<and> nonceStep
        \<lparr>cf_partnerChannel = 200, cf_owner = 3, cf_address = 201, cf_paymentNonce = 0,
          cf_withdrawalNonce = 0, cf_reference = ''ref''\<rparr>
        \<lparr>cf_partnerChannel = 200, cf_owner = 3, cf_address = 201, cf_paymentNonce = 1,
          cf_withdrawalNonce = 0, cf_reference = ''ref''\<rparr>"
proof -
  let ?cf = "\<lparr>cf_partnerChannel = 200, cf_owner = 3, cf_address = 201, cf_paymentNonce = 0,
           cf_withdrawalNonce = 0, cf_reference = ''ref''\<rparr>"
  let ?cf1 = "\<lparr>cf_partnerChannel = 200, cf_owner = 3, cf_address = 201, cf_paymentNonce = 1,
           cf_withdrawalNonce = 0, cf_reference = ''ref''\<rparr>"
  let ?s1 = "exampleFund\<lparr>cardFunds := (cardFunds exampleFund)(201 \<mapsto> ?cf1)\<rparr>"
  have fund: "cardFunds exampleFund 201 = Some ?cf" by (simp add: example_defs)
  have fundR: "cardFunds exampleRequest 201 = Some ?cf" by (simp add: example_defs)
  have fund1: "cardFunds ?s1 201 = Some ?cf1" by simp
  have debit: "cardFundDebit (exampleEnv 2 1000 0) exampleFund 201 5 100 1 ''txn-1'' =
       Inr \<lparr>ret = Void, st = ?s1,
            itxns = [AssetTransfer \<lparr>xfer_sender = 201, xfer_assetReceiver = 100, xfer_xferAsset = 5,
                      xfer_assetAmount = 100, xfer_assetCloseTo = None, xfer_note = ''txn-1''\<rparr>],
            logs = [Debit 201 5 100 1 ''txn-1'']\<rparr>"
    by (simp add: cardFundDebit_def whenNotPaused_def onlySettler_def check_defs example_defs)
  have guards: "whenNotPaused ?s1 = Inr ()" "onlySettler (exampleEnv 2 1000 0) ?s1 = Inr ()"
    "whenNotPaused exampleFund = Inr ()" "onlySettler (exampleEnv 2 1000 0) exampleFund = Inr ()"
    by (simp_all add: whenNotPaused_def onlySettler_def check_defs example_defs)
  note again = nonces_advance_by_one [OF fund1, where e = "exampleEnv 2 1000 0" and nonce = 1
      and asset = 5 and amount = 100 and ref = "''txn-1''",
      THEN conjunct2, THEN conjunct2, THEN conjunct1, rule_format]
  have replay: "cardFundDebit (exampleEnv 2 1000 0) ?s1 201 5 100 1 ''txn-1'' = Inl NONCE_INVALID"
    using again guards by simp
  note T = nonces_advance_by_one [OF fund, where e = "exampleEnv 2 1000 0" and nonce = 7
      and asset = 5 and amount = 100 and ref = "''txn-2''"]
  from T [THEN conjunct2, THEN conjunct2, THEN conjunct1] guards
  have gap: "cardFundRefund (exampleEnv 2 1000 0) exampleFund 201 5 100 7 ''txn-2'' = Inl NONCE_INVALID"
    by simp
  from T [THEN conjunct2, THEN conjunct2, THEN conjunct2, THEN conjunct1]
  have same: "storageAfter exampleFund
        (cardFundRefund (exampleEnv 2 1000 0) exampleFund 201 5 100 7 ''txn-2'') = exampleFund"
    by simp
  note step = nonces_advance_by_one [OF fundR, where e = "exampleEnv 3 87400 0" and amount = 50,
      THEN conjunct2, THEN conjunct2, THEN conjunct2, THEN conjunct2, THEN conjunct1,
      rule_format, OF example_permissionless_run]
  from step have after: "cardFunds exampleWithdrawn 201 =
       Some \<lparr>cf_partnerChannel = 200, cf_owner = 3, cf_address = 201, cf_paymentNonce = 0,
             cf_withdrawalNonce = 1, cf_reference = ''ref''\<rparr>"
    by (simp add: exampleWithdrawn_def example_defs)
  note every = nonces_advance_by_one [OF fund, where e = "exampleEnv 2 1000 0" and nonce = 1
      and asset = 5 and amount = 100 and ref = "''txn-1''",
      THEN conjunct2, THEN conjunct2, THEN conjunct2, THEN conjunct2, THEN conjunct2,
      THEN conjunct2, THEN conjunct2, rule_format,
      where H = exampleHash and c = "CardFundDebit 201 5 100 1 ''txn-1''" and f = 201
        and cfa = ?cf and cfb = ?cf1]
  from every reachable_exampleFund debit fund have stepped: "nonceStep ?cf ?cf1" by simp
  from debit replay gap same fundR example_permissionless_run example_approved_run after stepped
  show ?thesis by (intro conjI)
qed

subsection \<open>The cooling-off period of a permissionless withdrawal\<close>

lemma next_nonce:
  assumes "unat (k::uint64) = unat c + 1"
  shows "unat c + 1 < 2 ^ 64" and "c + 1 = k"
proof -
  have "unat k < 2 ^ 64" using unsigned_less [of k, where 'a = nat] by simp
  with assms show room: "unat c + 1 < 2 ^ 64" by simp
  from unat_plus_one [OF room] assms have "unat (c + 1) = unat k" by simp
  then show "c + 1 = k" by (simp add: word_unat_eq_iff)
qed

lemma isCardFundOwner_holder:
  "cardFunds s cardFund = Some cf \<Longrightarrow> cf_owner cf = sender e \<Longrightarrow>
   isCardFundOwner e s cardFund = Inr True"
  by (simp add: isCardFundOwner_def check_defs)

lemma isCardFundOwner_other:
  "cardFunds s cardFund = Some cf \<Longrightarrow> cf_owner cf \<noteq> sender e \<Longrightarrow>
   isCardFundOwner e s cardFund = Inr False"
  by (simp add: isCardFundOwner_def check_defs)






subsection \<open>The approved withdrawal\<close>

text \<open>The loop that raises the opcode budget is not unfolded by the simplifier from here on.\<close>

declare ensureOpcodeBudget.simps [simp del]

lemma ensureOpcodeBudget_all_accepted:
  "\<forall>t. itxnAccepted e t \<Longrightarrow> \<exists>calls. ensureOpcodeBudget e b = Inr calls"
  using ensureOpcodeBudget_accepted by blast

text \<open>
  Claim C4. Called by the card fund's owner, with the settler role set and the ledger
  accepting the inner transactions, \<^verbatim>\<open>cardFundExecuteApprovedWithdrawal\<close> succeeds if and
  only if the current timestamp is strictly before \<open>expiresAt\<close>, the nonce is
  \<open>withdrawalNonce + 1\<close>, and \<^verbatim>\<open>ed25519VerifyBare\<close> accepts the signature under the settler's
  address for the \<^verbatim>\<open>sha256\<close> digest of the tuple (cardFund, recipient = caller, asset, amount,
  expiresAt, nonce, genesisHash). The three failures are \<^verbatim>\<open>WITHDRAWAL_TIME_INVALID\<close>,
  \<^verbatim>\<open>NONCE_INVALID\<close> and \<^verbatim>\<open>SIGNATURE_INVALID\<close>, in that order. On success the nonce is stored,
  the amount is transferred to the caller at once (no request and no waiting time enter the
  conditions) and the event is logged. If the signature verifies for one signed tuple only,
  a call whose tuple differs from it in any field does not succeed, and fails with
  \<^verbatim>\<open>SIGNATURE_INVALID\<close> once the time and nonce checks pass.
\<close>

theorem approved_withdrawal_checks:
  assumes fund: "cardFunds s cardFund = Some cf" and holder: "cf_owner cf = sender e"
    and settler: "settlerRoleAddress s = Some settler"
    and ledger: "\<forall>t. itxnAccepted e t"
  shows "((\<exists>out. cardFundExecuteApprovedWithdrawal e s cardFund asset amount expiresAt nonce sg = Inr out)
          \<longleftrightarrow>
          latestTimestamp e < expiresAt \<and> unat nonce = unat (cf_withdrawalNonce cf) + 1 \<and>
          ed25519VerifyBare e
            (sha256 e (rawBytesAWR
               \<lparr>awr_cardFund = cardFund, awr_recipient = sender e, awr_asset = asset,
                awr_amount = amount, awr_expiresAt = expiresAt, awr_nonce = nonce,
                awr_genesisHash = genesisHash e\<rparr>)) sg settler)
    \<and> (\<not> latestTimestamp e < expiresAt \<longrightarrow>
          cardFundExecuteApprovedWithdrawal e s cardFund asset amount expiresAt nonce sg =
            Inl WITHDRAWAL_TIME_INVALID)
    \<and> (latestTimestamp e < expiresAt \<and> unat (cf_withdrawalNonce cf) + 1 < 2 ^ 64 \<and>
        nonce \<noteq> cf_withdrawalNonce cf + 1 \<longrightarrow>
          cardFundExecuteApprovedWithdrawal e s cardFund asset amount expiresAt nonce sg =
            Inl NONCE_INVALID)
    \<and> (latestTimestamp e < expiresAt \<and> unat nonce = unat (cf_withdrawalNonce cf) + 1 \<and>
        \<not> ed25519VerifyBare e
            (sha256 e (rawBytesAWR
               \<lparr>awr_cardFund = cardFund, awr_recipient = sender e, awr_asset = asset,
                awr_amount = amount, awr_expiresAt = expiresAt, awr_nonce = nonce,
                awr_genesisHash = genesisHash e\<rparr>)) sg settler \<longrightarrow>
          cardFundExecuteApprovedWithdrawal e s cardFund asset amount expiresAt nonce sg =
            Inl SIGNATURE_INVALID)
    \<and> (\<forall>out. cardFundExecuteApprovedWithdrawal e s cardFund asset amount expiresAt nonce sg = Inr out
          \<longrightarrow>
          st out = s\<lparr>cardFunds := (cardFunds s)(cardFund \<mapsto> cf\<lparr>cf_withdrawalNonce := nonce\<rparr>)\<rparr> \<and>
          (amount > 0 \<longrightarrow>
             AssetTransfer \<lparr>xfer_sender = cardFund, xfer_assetReceiver = sender e,
               xfer_xferAsset = asset, xfer_assetAmount = amount, xfer_assetCloseTo = None,
               xfer_note = []\<rparr> \<in> set (itxns out)) \<and>
          logs out = [Withdrawal cardFund (sender e) asset amount 0 expiresAt nonce
                        WithdrawalTypeApproved])
    \<and> (\<forall>signed.
          (\<forall>m. ed25519VerifyBare e (sha256 e (rawBytesAWR m)) sg settler \<longrightarrow> m = signed) \<and>
          signed \<noteq> \<lparr>awr_cardFund = cardFund, awr_recipient = sender e, awr_asset = asset,
                     awr_amount = amount, awr_expiresAt = expiresAt, awr_nonce = nonce,
                     awr_genesisHash = genesisHash e\<rparr> \<longrightarrow>
          (\<forall>out. cardFundExecuteApprovedWithdrawal e s cardFund asset amount expiresAt nonce sg
                    \<noteq> Inr out) \<and>
          (latestTimestamp e < expiresAt \<and> unat nonce = unat (cf_withdrawalNonce cf) + 1 \<longrightarrow>
             cardFundExecuteApprovedWithdrawal e s cardFund asset amount expiresAt nonce sg =
               Inl SIGNATURE_INVALID))"
proof -
  let ?run = "cardFundExecuteApprovedWithdrawal e s cardFund asset amount expiresAt nonce sg"
  let ?m = "\<lparr>awr_cardFund = cardFund, awr_recipient = sender e, awr_asset = asset,
                awr_amount = amount, awr_expiresAt = expiresAt, awr_nonce = nonce,
                awr_genesisHash = genesisHash e\<rparr>"
  let ?ok = "ed25519VerifyBare e (sha256 e (rawBytesAWR ?m)) sg settler"
  from ensureOpcodeBudget_all_accepted [OF ledger] obtain calls where
    calls: "ensureOpcodeBudget e (opcodeBudget e) = Inr calls" by blast
  have owner: "isCardFundOwner e s cardFund = Inr True"
    using fund holder by (rule isCardFundOwner_holder)
  have success: "(\<exists>out. ?run = Inr out) \<longleftrightarrow>
      latestTimestamp e < expiresAt \<and> unat nonce = unat (cf_withdrawalNonce cf) + 1 \<and> ?ok"
  proof
    assume "\<exists>out. ?run = Inr out"
    then show "latestTimestamp e < expiresAt \<and> unat nonce = unat (cf_withdrawalNonce cf) + 1 \<and> ?ok"
      using fund settler unat_plus_one [of "cf_withdrawalNonce cf"]
      by (auto simp: executeApproved_success_iff)
  next
    assume h: "latestTimestamp e < expiresAt \<and> unat nonce = unat (cf_withdrawalNonce cf) + 1 \<and> ?ok"
    with next_nonce [of nonce "cf_withdrawalNonce cf"]
    have "unat (cf_withdrawalNonce cf) + 1 < 2 ^ 64" "nonce = cf_withdrawalNonce cf + 1" by auto
    with h fund holder settler ledger calls show "\<exists>out. ?run = Inr out"
      unfolding executeApproved_success_iff by auto
  qed
  have late: "?run = Inl WITHDRAWAL_TIME_INVALID" if "\<not> latestTimestamp e < expiresAt"
    using that fund owner
    by (simp add: cardFundExecuteApprovedWithdrawal_def andThen_def assertTag_def valueOf_def)
  have wrongNonce: "?run = Inl NONCE_INVALID"
    if "latestTimestamp e < expiresAt \<and> unat (cf_withdrawalNonce cf) + 1 < 2 ^ 64 \<and>
        nonce \<noteq> cf_withdrawalNonce cf + 1"
    using that fund owner
    by (auto simp: cardFundExecuteApprovedWithdrawal_def andThen_def assertTag_def valueOf_def
        add64_def)
  have badSig: "?run = Inl SIGNATURE_INVALID"
    if h: "latestTimestamp e < expiresAt \<and> unat nonce = unat (cf_withdrawalNonce cf) + 1 \<and> \<not> ?ok"
  proof -
    from h next_nonce [of nonce "cf_withdrawalNonce cf"]
    have "unat (cf_withdrawalNonce cf) + 1 < 2 ^ 64" "cf_withdrawalNonce cf + 1 = nonce" by auto
    with h fund owner settler calls show ?thesis
      by (simp add: cardFundExecuteApprovedWithdrawal_def andThen_def assertTag_def valueOf_def
          add64_def Let_def)
  qed
  have effect: "st out = s\<lparr>cardFunds := (cardFunds s)(cardFund \<mapsto> cf\<lparr>cf_withdrawalNonce := nonce\<rparr>)\<rparr> \<and>
          (amount > 0 \<longrightarrow>
             AssetTransfer \<lparr>xfer_sender = cardFund, xfer_assetReceiver = sender e,
               xfer_xferAsset = asset, xfer_assetAmount = amount, xfer_assetCloseTo = None,
               xfer_note = []\<rparr> \<in> set (itxns out)) \<and>
          logs out = [Withdrawal cardFund (sender e) asset amount 0 expiresAt nonce
                        WithdrawalTypeApproved]"
    if "?run = Inr out" for out
    using that fund by (auto simp: executeApproved_success_iff)
  have tampered: "(\<forall>out. ?run \<noteq> Inr out) \<and>
          (latestTimestamp e < expiresAt \<and> unat nonce = unat (cf_withdrawalNonce cf) + 1 \<longrightarrow>
             ?run = Inl SIGNATURE_INVALID)"
    if h: "(\<forall>m. ed25519VerifyBare e (sha256 e (rawBytesAWR m)) sg settler \<longrightarrow> m = signed) \<and>
          signed \<noteq> ?m" for signed
  proof -
    from h have no: "\<not> ?ok" by blast
    with success have "\<forall>out. ?run \<noteq> Inr out" by blast
    with no badSig show ?thesis by blast
  qed
  show ?thesis
    apply (intro conjI)
         apply (rule success)
        apply (intro impI, erule late)
       apply (intro impI, erule wrongNonce)
      apply (intro impI, erule badSig)
     apply (intro allI impI, erule effect)
    apply (intro allI impI, erule tampered)
    done
qed

theorem approved_withdrawal_checks_witness:
  "cardFundExecuteApprovedWithdrawal (exampleEnv 3 1000 0) exampleFund 201 5 50 2000 1 77 =
     Inr \<lparr>ret = Void, st = exampleWithdrawn,
          itxns = [IncreaseOpcodeBudget, IncreaseOpcodeBudget, IncreaseOpcodeBudget,
                   AssetTransfer \<lparr>xfer_sender = 201, xfer_assetReceiver = 3, xfer_xferAsset = 5,
                     xfer_assetAmount = 50, xfer_assetCloseTo = None, xfer_note = []\<rparr>],
          logs = [Withdrawal 201 3 5 50 0 2000 1 ''approved'']\<rparr>
   \<and> (\<exists>out. cardFundExecuteApprovedWithdrawal (exampleEnv 3 1000 0) exampleFund 201 5 50 2000 1 77
          = Inr out)
   \<and> cardFundExecuteApprovedWithdrawal (exampleEnv 3 2000 0) exampleFund 201 5 50 2000 1 77 =
     Inl WITHDRAWAL_TIME_INVALID
   \<and> cardFundExecuteApprovedWithdrawal (exampleEnv 3 1000 0) exampleFund 201 5 50 2000 2 77 =
     Inl NONCE_INVALID
   \<and> cardFundExecuteApprovedWithdrawal (exampleEnv 3 1000 0) exampleFund 201 5 50 2000 1 78 =
     Inl SIGNATURE_INVALID
   \<and> cardFundExecuteApprovedWithdrawal (exampleEnv 3 1000 0) exampleFund 201 5 51 2000 1 77 =
     Inl SIGNATURE_INVALID"
proof -
  let ?cf = "\<lparr>cf_partnerChannel = 200, cf_owner = 3, cf_address = 201, cf_paymentNonce = 0,
           cf_withdrawalNonce = 0, cf_reference = ''ref''\<rparr>"
  have fund: "cardFunds exampleFund 201 = Some ?cf" by (simp add: example_defs)
  have holder: "cf_owner ?cf = sender (exampleEnv 3 t 0)" for t by (simp add: exampleEnv_def)
  have settler: "settlerRoleAddress exampleFund = Some 2" by (simp add: example_defs)
  have ledger: "\<forall>x. itxnAccepted (exampleEnv 3 t 0) x" for t by (simp add: exampleEnv_def)
  note T = approved_withdrawal_checks [OF fund holder settler ledger]
  have signedOnly: "\<forall>m. ed25519VerifyBare (exampleEnv 3 1000 0)
      (sha256 (exampleEnv 3 1000 0) (rawBytesAWR m)) 77 2 \<longrightarrow> m = exampleApproval"
    by (simp add: exampleEnv_def exampleHash_def)
  have ok: "\<exists>out. cardFundExecuteApprovedWithdrawal (exampleEnv 3 1000 0) exampleFund 201 5 50 2000 1 77
          = Inr out"
    by (subst T [THEN conjunct1]) (simp add: example_defs)
  have late: "cardFundExecuteApprovedWithdrawal (exampleEnv 3 2000 0) exampleFund 201 5 50 2000 1 77 =
     Inl WITHDRAWAL_TIME_INVALID"
    by (rule T [THEN conjunct2, THEN conjunct1, rule_format]) (simp add: exampleEnv_def)
  have replay: "cardFundExecuteApprovedWithdrawal (exampleEnv 3 1000 0) exampleFund 201 5 50 2000 2 77 =
     Inl NONCE_INVALID"
    by (rule T [THEN conjunct2, THEN conjunct2, THEN conjunct1, rule_format])
      (simp add: exampleEnv_def)
  have forged: "cardFundExecuteApprovedWithdrawal (exampleEnv 3 1000 0) exampleFund 201 5 50 2000 1 78 =
     Inl SIGNATURE_INVALID"
    by (rule T [THEN conjunct2, THEN conjunct2, THEN conjunct2, THEN conjunct1, rule_format])
      (simp add: exampleEnv_def)
  have tampered: "cardFundExecuteApprovedWithdrawal (exampleEnv 3 1000 0) exampleFund 201 5 51 2000 1 77 =
     Inl SIGNATURE_INVALID"
    by (rule T [THEN conjunct2, THEN conjunct2, THEN conjunct2, THEN conjunct2, THEN conjunct2,
          rule_format, where signed = exampleApproval, THEN conjunct2, rule_format])
      (use signedOnly in \<open>simp_all add: exampleEnv_def exampleApproval_def\<close>)
  from example_approved_run ok late replay forged tampered show ?thesis by (intro conjI)
qed

subsection \<open>Settlement\<close>

text \<open>
  Claim C6. A successful \<^verbatim>\<open>settle\<close> was called by the settler role, with the contract not
  paused, with the nonce \<open>settlementNonce + 1\<close> and for an asset with a registered settlement
  address; it sends one asset transfer of the amount from the application's account to that
  address, stores the nonce as \<open>settlementNonce\<close> and logs the settlement. The checks fail
  in the order paused, sender, \<^verbatim>\<open>NONCE_INVALID\<close>, \<^verbatim>\<open>SETTLEMENT_ADDRESS_NOT_FOUND\<close>; when all pass
  and the ledger accepts the transfer, the call succeeds.
\<close>

theorem settle_checks:
  "(\<forall>out. settle e s asset amount nonce = Inr out \<longrightarrow>
      \<not> Pausable_paused s \<and> settlerRoleAddress s = Some (sender e) \<and>
      unat nonce = unat (settlementNonce s) + 1 \<and>
      (\<exists>receiver. settlementAddress s asset = Some receiver \<and>
         out = \<lparr>ret = Void, st = s\<lparr>settlementNonce := nonce\<rparr>,
                itxns = [AssetTransfer \<lparr>xfer_sender = appAddress e, xfer_assetReceiver = receiver,
                           xfer_xferAsset = asset, xfer_assetAmount = amount,
                           xfer_assetCloseTo = None, xfer_note = []\<rparr>],
                logs = [Settlement receiver asset amount nonce]\<rparr>))
   \<and> (Pausable_paused s \<longrightarrow> settle e s asset amount nonce = Inl CONTRACT_PAUSED)
   \<and> (\<forall>settler. \<not> Pausable_paused s \<and> settlerRoleAddress s = Some settler \<and> sender e \<noteq> settler \<longrightarrow>
         settle e s asset amount nonce = Inl SENDER_NOT_ALLOWED)
   \<and> (\<not> Pausable_paused s \<and> settlerRoleAddress s = Some (sender e) \<and>
       unat (settlementNonce s) + 1 < 2 ^ 64 \<and> nonce \<noteq> settlementNonce s + 1 \<longrightarrow>
         settle e s asset amount nonce = Inl NONCE_INVALID)
   \<and> (\<not> Pausable_paused s \<and> settlerRoleAddress s = Some (sender e) \<and>
       unat nonce = unat (settlementNonce s) + 1 \<and> settlementAddress s asset = None \<longrightarrow>
         settle e s asset amount nonce = Inl SETTLEMENT_ADDRESS_NOT_FOUND)
   \<and> (\<forall>receiver. \<not> Pausable_paused s \<and> settlerRoleAddress s = Some (sender e) \<and>
       unat nonce = unat (settlementNonce s) + 1 \<and> settlementAddress s asset = Some receiver \<and>
       itxnAccepted e (AssetTransfer \<lparr>xfer_sender = appAddress e, xfer_assetReceiver = receiver,
                           xfer_xferAsset = asset, xfer_assetAmount = amount,
                           xfer_assetCloseTo = None, xfer_note = []\<rparr>) \<longrightarrow>
         settle e s asset amount nonce =
           Inr \<lparr>ret = Void, st = s\<lparr>settlementNonce := nonce\<rparr>,
                itxns = [AssetTransfer \<lparr>xfer_sender = appAddress e, xfer_assetReceiver = receiver,
                           xfer_xferAsset = asset, xfer_assetAmount = amount,
                           xfer_assetCloseTo = None, xfer_note = []\<rparr>],
                logs = [Settlement receiver asset amount nonce]\<rparr>)"
proof -
  let ?run = "settle e s asset amount nonce"
  have success: "\<not> Pausable_paused s \<and> settlerRoleAddress s = Some (sender e) \<and>
      unat nonce = unat (settlementNonce s) + 1 \<and>
      (\<exists>receiver. settlementAddress s asset = Some receiver \<and>
         out = \<lparr>ret = Void, st = s\<lparr>settlementNonce := nonce\<rparr>,
                itxns = [AssetTransfer \<lparr>xfer_sender = appAddress e, xfer_assetReceiver = receiver,
                           xfer_xferAsset = asset, xfer_assetAmount = amount,
                           xfer_assetCloseTo = None, xfer_note = []\<rparr>],
                logs = [Settlement receiver asset amount nonce]\<rparr>)"
    if "?run = Inr out" for out
    using that unat_plus_one [of "settlementNonce s"]
    by (auto simp: settle_def whenNotPaused_def onlySettler_def getSettlementAddress_def
        success_iffs)
  have paused: "?run = Inl CONTRACT_PAUSED" if "Pausable_paused s"
    using that by (simp add: settle_def whenNotPaused_def andThen_def assertTag_def)
  have stranger: "?run = Inl SENDER_NOT_ALLOWED"
    if "\<not> Pausable_paused s \<and> settlerRoleAddress s = Some settler \<and> sender e \<noteq> settler"
    for settler
    using that
    by (simp add: settle_def whenNotPaused_def onlySettler_def andThen_def assertTag_def valueOf_def)
  have wrongNonce: "?run = Inl NONCE_INVALID"
    if "\<not> Pausable_paused s \<and> settlerRoleAddress s = Some (sender e) \<and>
       unat (settlementNonce s) + 1 < 2 ^ 64 \<and> nonce \<noteq> settlementNonce s + 1"
    using that
    by (auto simp: settle_def whenNotPaused_def onlySettler_def andThen_def assertTag_def
        valueOf_def add64_def)
  have noAddress: "?run = Inl SETTLEMENT_ADDRESS_NOT_FOUND"
    if h: "\<not> Pausable_paused s \<and> settlerRoleAddress s = Some (sender e) \<and>
       unat nonce = unat (settlementNonce s) + 1 \<and> settlementAddress s asset = None"
  proof -
    from h next_nonce [of nonce "settlementNonce s"]
    have "unat (settlementNonce s) + 1 < 2 ^ 64" "settlementNonce s + 1 = nonce" by auto
    with h show ?thesis
      by (simp add: settle_def whenNotPaused_def onlySettler_def getSettlementAddress_def
          andThen_def assertTag_def valueOf_def add64_def)
  qed
  have pays: "?run =
           Inr \<lparr>ret = Void, st = s\<lparr>settlementNonce := nonce\<rparr>,
                itxns = [AssetTransfer \<lparr>xfer_sender = appAddress e, xfer_assetReceiver = receiver,
                           xfer_xferAsset = asset, xfer_assetAmount = amount,
                           xfer_assetCloseTo = None, xfer_note = []\<rparr>],
                logs = [Settlement receiver asset amount nonce]\<rparr>"
    if h: "\<not> Pausable_paused s \<and> settlerRoleAddress s = Some (sender e) \<and>
       unat nonce = unat (settlementNonce s) + 1 \<and> settlementAddress s asset = Some receiver \<and>
       itxnAccepted e (AssetTransfer \<lparr>xfer_sender = appAddress e, xfer_assetReceiver = receiver,
                           xfer_xferAsset = asset, xfer_assetAmount = amount,
                           xfer_assetCloseTo = None, xfer_note = []\<rparr>)"
    for receiver
  proof -
    from h next_nonce [of nonce "settlementNonce s"]
    have "unat (settlementNonce s) + 1 < 2 ^ 64" "settlementNonce s + 1 = nonce" by auto
    with h show ?thesis
      by (simp add: settle_def whenNotPaused_def onlySettler_def getSettlementAddress_def
          andThen_def assertTag_def valueOf_def add64_def sendAssetTransfer_def)
  qed
  show ?thesis
    apply (intro conjI)
         apply (intro allI impI, erule success)
        apply (intro impI, erule paused)
       apply (intro allI impI, erule stranger)
      apply (intro impI, erule wrongNonce)
     apply (intro impI, erule noAddress)
    apply (intro allI impI, erule pays)
    done
qed

theorem settle_checks_witness:
  "settle (exampleEnv 2 1000 0) exampleBase 5 10 1 =
     Inr \<lparr>ret = Void, st = exampleBase\<lparr>settlementNonce := 1\<rparr>,
          itxns = [AssetTransfer \<lparr>xfer_sender = 100, xfer_assetReceiver = 9, xfer_xferAsset = 5,
                     xfer_assetAmount = 10, xfer_assetCloseTo = None, xfer_note = []\<rparr>],
          logs = [Settlement 9 5 10 1]\<rparr>
   \<and> settle (exampleEnv 2 1000 0) (exampleBase\<lparr>Pausable_paused := True\<rparr>) 5 10 1 =
     Inl CONTRACT_PAUSED
   \<and> settle (exampleEnv 3 1000 0) exampleBase 5 10 1 = Inl SENDER_NOT_ALLOWED
   \<and> settle (exampleEnv 2 1000 0) exampleBase 5 10 2 = Inl NONCE_INVALID
   \<and> settle (exampleEnv 2 1000 0) exampleBase 6 10 1 = Inl SETTLEMENT_ADDRESS_NOT_FOUND"
proof -
  have run: "settle (exampleEnv 2 1000 0) exampleBase 5 10 1 =
     Inr \<lparr>ret = Void, st = exampleBase\<lparr>settlementNonce := 1\<rparr>,
          itxns = [AssetTransfer \<lparr>xfer_sender = 100, xfer_assetReceiver = 9, xfer_xferAsset = 5,
                     xfer_assetAmount = 10, xfer_assetCloseTo = None, xfer_note = []\<rparr>],
          logs = [Settlement 9 5 10 1]\<rparr>"
    using settle_checks [where e = "exampleEnv 2 1000 0" and s = exampleBase and asset = 5
        and amount = 10 and nonce = 1, THEN conjunct2, THEN conjunct2, THEN conjunct2,
        THEN conjunct2, THEN conjunct2, rule_format, of 9]
    by (simp add: example_defs)
  have paused: "settle (exampleEnv 2 1000 0) (exampleBase\<lparr>Pausable_paused := True\<rparr>) 5 10 1 =
     Inl CONTRACT_PAUSED"
    by (rule settle_checks [THEN conjunct2, THEN conjunct1, rule_format]) simp
  have stranger: "settle (exampleEnv 3 1000 0) exampleBase 5 10 1 = Inl SENDER_NOT_ALLOWED"
    by (rule settle_checks [THEN conjunct2, THEN conjunct2, THEN conjunct1, rule_format, of _ 2])
      (simp add: example_defs)
  have gap: "settle (exampleEnv 2 1000 0) exampleBase 5 10 2 = Inl NONCE_INVALID"
    by (rule settle_checks [THEN conjunct2, THEN conjunct2, THEN conjunct2, THEN conjunct1,
          rule_format]) (simp add: example_defs)
  have unknown: "settle (exampleEnv 2 1000 0) exampleBase 6 10 1 = Inl SETTLEMENT_ADDRESS_NOT_FOUND"
    by (rule settle_checks [THEN conjunct2, THEN conjunct2, THEN conjunct2, THEN conjunct2,
          THEN conjunct1, rule_format]) (simp add: example_defs)
  from run paused stranger gap unknown show ?thesis by (intro conjI)
qed

subsection \<open>Requesting a permissionless withdrawal\<close>

text \<open>
  Claim C7. For an existing card fund, \<^verbatim>\<open>cardFundInitPermissionlessWithdrawal\<close> fails with
  \<^verbatim>\<open>SENDER_NOT_ALLOWED\<close> for a caller who is not the fund's owner and with
  \<^verbatim>\<open>INSUFFICIENT_BALANCE\<close> for an amount above the fund's balance of the asset. Otherwise
  (the next nonce fitting 64 bits) it succeeds, whether or not a request is already stored:
  it writes, at the key (owner, cardFund), the request with nonce \<open>withdrawalNonce + 1\<close> and
  \<open>createdAt\<close> the current timestamp, replacing what was there, and leaves every other key
  as it was.
\<close>

theorem permissionless_request_stored:
  assumes fund: "cardFunds s cardFund = Some cf"
  shows "(cf_owner cf \<noteq> sender e \<longrightarrow>
            cardFundInitPermissionlessWithdrawal e s cardFund asset amount = Inl SENDER_NOT_ALLOWED)
    \<and> (cf_owner cf = sender e \<and> \<not> amount \<le> assetBalance e cardFund asset \<longrightarrow>
            cardFundInitPermissionlessWithdrawal e s cardFund asset amount = Inl INSUFFICIENT_BALANCE)
    \<and> (cf_owner cf = sender e \<and> amount \<le> assetBalance e cardFund asset \<and>
        unat (cf_withdrawalNonce cf) + 1 < 2 ^ 64 \<longrightarrow>
            unat (cf_withdrawalNonce cf + 1) = unat (cf_withdrawalNonce cf) + 1 \<and>
            cardFundInitPermissionlessWithdrawal e s cardFund asset amount =
              Inr \<lparr>ret = RetRequest
                     \<lparr>pwr_cardFund = cardFund, pwr_asset = asset, pwr_amount = amount,
                      pwr_createdAt = latestTimestamp e, pwr_nonce = cf_withdrawalNonce cf + 1\<rparr>,
                   st = s\<lparr>withdrawals := (withdrawals s)((sender e, cardFund) \<mapsto>
                     \<lparr>pwr_cardFund = cardFund, pwr_asset = asset, pwr_amount = amount,
                      pwr_createdAt = latestTimestamp e, pwr_nonce = cf_withdrawalNonce cf + 1\<rparr>)\<rparr>,
                   itxns = [],
                   logs = [WithdrawalRequest cardFund (sender e) asset amount (latestTimestamp e)
                             (cf_withdrawalNonce cf + 1)]\<rparr>)
    \<and> (\<forall>out. cardFundInitPermissionlessWithdrawal e s cardFund asset amount = Inr out \<longrightarrow>
            cf_owner cf = sender e \<and> amount \<le> assetBalance e cardFund asset \<and>
            withdrawals (st out) (sender e, cardFund) =
              Some \<lparr>pwr_cardFund = cardFund, pwr_asset = asset, pwr_amount = amount,
                    pwr_createdAt = latestTimestamp e, pwr_nonce = cf_withdrawalNonce cf + 1\<rparr> \<and>
            (\<forall>k. k \<noteq> (sender e, cardFund) \<longrightarrow> withdrawals (st out) k = withdrawals s k))"
proof -
  let ?run = "cardFundInitPermissionlessWithdrawal e s cardFund asset amount"
  have stranger: "?run = Inl SENDER_NOT_ALLOWED" if "cf_owner cf \<noteq> sender e"
    using that isCardFundOwner_other [OF fund that]
    by (simp add: cardFundInitPermissionlessWithdrawal_def andThen_def assertTag_def)
  have short: "?run = Inl INSUFFICIENT_BALANCE"
    if "cf_owner cf = sender e \<and> \<not> amount \<le> assetBalance e cardFund asset"
    using that fund isCardFundOwner_holder [OF fund, of e]
    by (simp add: cardFundInitPermissionlessWithdrawal_def andThen_def assertTag_def valueOf_def)
  have stored: "unat (cf_withdrawalNonce cf + 1) = unat (cf_withdrawalNonce cf) + 1 \<and>
            ?run =
              Inr \<lparr>ret = RetRequest
                     \<lparr>pwr_cardFund = cardFund, pwr_asset = asset, pwr_amount = amount,
                      pwr_createdAt = latestTimestamp e, pwr_nonce = cf_withdrawalNonce cf + 1\<rparr>,
                   st = s\<lparr>withdrawals := (withdrawals s)((sender e, cardFund) \<mapsto>
                     \<lparr>pwr_cardFund = cardFund, pwr_asset = asset, pwr_amount = amount,
                      pwr_createdAt = latestTimestamp e, pwr_nonce = cf_withdrawalNonce cf + 1\<rparr>)\<rparr>,
                   itxns = [],
                   logs = [WithdrawalRequest cardFund (sender e) asset amount (latestTimestamp e)
                             (cf_withdrawalNonce cf + 1)]\<rparr>"
    if "cf_owner cf = sender e \<and> amount \<le> assetBalance e cardFund asset \<and>
        unat (cf_withdrawalNonce cf) + 1 < 2 ^ 64"
    using that fund isCardFundOwner_holder [OF fund, of e] unat_plus_one [of "cf_withdrawalNonce cf"]
    by (simp add: cardFundInitPermissionlessWithdrawal_def andThen_def assertTag_def valueOf_def
        add64_def Let_def)
  have success: "cf_owner cf = sender e \<and> amount \<le> assetBalance e cardFund asset \<and>
            withdrawals (st out) (sender e, cardFund) =
              Some \<lparr>pwr_cardFund = cardFund, pwr_asset = asset, pwr_amount = amount,
                    pwr_createdAt = latestTimestamp e, pwr_nonce = cf_withdrawalNonce cf + 1\<rparr> \<and>
            (\<forall>k. k \<noteq> (sender e, cardFund) \<longrightarrow> withdrawals (st out) k = withdrawals s k)"
    if "?run = Inr out" for out
    using that fund
    by (auto simp: cardFundInitPermissionlessWithdrawal_def success_iffs Let_def)
  show ?thesis
    apply (intro conjI)
       apply (intro impI, erule stranger)
      apply (intro impI, erule short)
     apply (intro impI, erule stored)
    apply (intro allI impI, erule success)
    done
qed

theorem permissionless_request_stored_witness:
  "withdrawals exampleRequest (3, 201) =
     Some \<lparr>pwr_cardFund = 201, pwr_asset = 5, pwr_amount = 50, pwr_createdAt = 1000, pwr_nonce = 1\<rparr>
   \<and> cardFundInitPermissionlessWithdrawal (exampleEnv 3 5000 0) exampleRequest 201 5 30 =
     Inr \<lparr>ret = RetRequest
            \<lparr>pwr_cardFund = 201, pwr_asset = 5, pwr_amount = 30, pwr_createdAt = 5000, pwr_nonce = 1\<rparr>,
          st = exampleRequest\<lparr>withdrawals := (withdrawals exampleRequest)((3, 201) \<mapsto>
            \<lparr>pwr_cardFund = 201, pwr_asset = 5, pwr_amount = 30, pwr_createdAt = 5000,
             pwr_nonce = 1\<rparr>)\<rparr>,
          itxns = [], logs = [WithdrawalRequest 201 3 5 30 5000 1]\<rparr>
   \<and> cardFundInitPermissionlessWithdrawal (exampleEnv 3 5000 0) exampleRequest 201 5 81 =
     Inl INSUFFICIENT_BALANCE
   \<and> cardFundInitPermissionlessWithdrawal (exampleEnv 1 5000 0) exampleRequest 201 5 30 =
     Inl SENDER_NOT_ALLOWED"
proof -
  let ?cf = "\<lparr>cf_partnerChannel = 200, cf_owner = 3, cf_address = 201, cf_paymentNonce = 0,
           cf_withdrawalNonce = 0, cf_reference = ''ref''\<rparr>"
  have fund: "cardFunds exampleRequest 201 = Some ?cf" by (simp add: example_defs)
  note T = permissionless_request_stored [OF fund]
  have old: "withdrawals exampleRequest (3, 201) =
     Some \<lparr>pwr_cardFund = 201, pwr_asset = 5, pwr_amount = 50, pwr_createdAt = 1000, pwr_nonce = 1\<rparr>"
    by (simp add: example_defs)
  have over: "cardFundInitPermissionlessWithdrawal (exampleEnv 3 5000 0) exampleRequest 201 5 30 =
     Inr \<lparr>ret = RetRequest
            \<lparr>pwr_cardFund = 201, pwr_asset = 5, pwr_amount = 30, pwr_createdAt = 5000, pwr_nonce = 1\<rparr>,
          st = exampleRequest\<lparr>withdrawals := (withdrawals exampleRequest)((3, 201) \<mapsto>
            \<lparr>pwr_cardFund = 201, pwr_asset = 5, pwr_amount = 30, pwr_createdAt = 5000,
             pwr_nonce = 1\<rparr>)\<rparr>,
          itxns = [], logs = [WithdrawalRequest 201 3 5 30 5000 1]\<rparr>"
    using T [where e = "exampleEnv 3 5000 0" and asset = 5 and amount = 30,
        THEN conjunct2, THEN conjunct2, THEN conjunct1]
    by (simp add: exampleEnv_def)
  have short: "cardFundInitPermissionlessWithdrawal (exampleEnv 3 5000 0) exampleRequest 201 5 81 =
     Inl INSUFFICIENT_BALANCE"
    by (rule T [THEN conjunct2, THEN conjunct1, rule_format]) (simp add: exampleEnv_def)
  have stranger: "cardFundInitPermissionlessWithdrawal (exampleEnv 1 5000 0) exampleRequest 201 5 30 =
     Inl SENDER_NOT_ALLOWED"
    by (rule T [THEN conjunct1, rule_format]) (simp add: exampleEnv_def)
  from old over short stranger show ?thesis by (intro conjI)
qed

subsection \<open>Closing a card fund\<close>

text \<open>
  The single-phase version of the contract (\<^verbatim>\<open>Master.algo.ts\<close>, with \<^verbatim>\<open>cardFundCreate\<close>)
  guards \<^verbatim>\<open>cardFundClose\<close> with \<^verbatim>\<open>this.isOwner() || this.isCardFundOwner(cardFund)\<close>, the check
  that \<^verbatim>\<open>cardFundEnableAsset\<close> and \<^verbatim>\<open>cardFundDisableAsset\<close> still use, and which the contract
  owner passes. The two-phase version modelled here asserts \<^verbatim>\<open>this.isCardFundOwner(cardFund)\<close>
  alone, under the comment ``only card fund owner can close it''.
\<close>

lemma isOwnerOrCardFundOwner_contract_owner:
  "Ownable_owner s = Some (sender e) \<Longrightarrow> isOwnerOrCardFundOwner e s cardFund = Inr True"
  by (simp add: isOwnerOrCardFundOwner_def isOwner_def andThen_def valueOf_def)

text \<open>
  Claim C8, as amended. \<^verbatim>\<open>cardFundClose\<close> on an existing card fund fails with
  \<^verbatim>\<open>SENDER_NOT_ALLOWED\<close> for every caller other than the card fund's owner, the contract
  owner included; a successful call was made by the card fund's owner, and the card fund's
  owner succeeds when the ledger accepts the two inner payments and the active counter is
  at least 1, which it is in every reachable storage that holds the fund.
\<close>

theorem cardFundClose_only_holder:
  assumes fund: "cardFunds s cardFund = Some cf"
  shows "(cf_owner cf \<noteq> sender e \<longrightarrow> cardFundClose e s cardFund = Inl SENDER_NOT_ALLOWED)
    \<and> (\<forall>out. cardFundClose e s cardFund = Inr out \<longrightarrow> cf_owner cf = sender e)
    \<and> (cf_owner cf = sender e \<and>
        itxnAccepted e (Payment \<lparr>pay_sender = cardFund, pay_receiver = cardFund, pay_amount = 0,
                                 pay_closeRemainderTo = Some (sender e)\<rparr>) \<and>
        itxnAccepted e (Payment \<lparr>pay_sender = appAddress e, pay_receiver = sender e,
                                 pay_amount = getCardFundBoxMbr (cf_reference cf),
                                 pay_closeRemainderTo = None\<rparr>) \<and>
        1 \<le> unat (cardFundsActiveCount s) \<longrightarrow>
          cardFundClose e s cardFund =
            Inr \<lparr>ret = Void,
                 st = s\<lparr>cardFunds := (cardFunds s)(cardFund := None),
                        cardFundsActiveCount := cardFundsActiveCount s - 1,
                        partnerCardFundOwner := (partnerCardFundOwner s)
                          (hashPartnerCardFund e (cf_partnerChannel cf) (cf_owner cf) := None)\<rparr>,
                 itxns = [Payment \<lparr>pay_sender = cardFund, pay_receiver = cardFund, pay_amount = 0,
                                   pay_closeRemainderTo = Some (sender e)\<rparr>,
                          Payment \<lparr>pay_sender = appAddress e, pay_receiver = sender e,
                                   pay_amount = getCardFundBoxMbr (cf_reference cf),
                                   pay_closeRemainderTo = None\<rparr>],
                 logs = [CardFundClosed (cf_owner cf) cardFund (cf_partnerChannel cf)
                           (cf_reference cf)]\<rparr>)
    \<and> (\<forall>H. reachable H s \<longrightarrow> 1 \<le> unat (cardFundsActiveCount s))"
proof -
  have stranger: "cardFundClose e s cardFund = Inl SENDER_NOT_ALLOWED" if "cf_owner cf \<noteq> sender e"
    using isCardFundOwner_other [OF fund that]
    by (simp add: cardFundClose_def andThen_def assertTag_def)
  have holder: "cf_owner cf = sender e" if "cardFundClose e s cardFund = Inr out" for out
    using cardFundClose_success [OF that] fund by auto
  have closes: "cardFundClose e s cardFund =
            Inr \<lparr>ret = Void,
                 st = s\<lparr>cardFunds := (cardFunds s)(cardFund := None),
                        cardFundsActiveCount := cardFundsActiveCount s - 1,
                        partnerCardFundOwner := (partnerCardFundOwner s)
                          (hashPartnerCardFund e (cf_partnerChannel cf) (cf_owner cf) := None)\<rparr>,
                 itxns = [Payment \<lparr>pay_sender = cardFund, pay_receiver = cardFund, pay_amount = 0,
                                   pay_closeRemainderTo = Some (sender e)\<rparr>,
                          Payment \<lparr>pay_sender = appAddress e, pay_receiver = sender e,
                                   pay_amount = getCardFundBoxMbr (cf_reference cf),
                                   pay_closeRemainderTo = None\<rparr>],
                 logs = [CardFundClosed (cf_owner cf) cardFund (cf_partnerChannel cf)
                           (cf_reference cf)]\<rparr>"
    if h: "cf_owner cf = sender e \<and>
        itxnAccepted e (Payment \<lparr>pay_sender = cardFund, pay_receiver = cardFund, pay_amount = 0,
                                 pay_closeRemainderTo = Some (sender e)\<rparr>) \<and>
        itxnAccepted e (Payment \<lparr>pay_sender = appAddress e, pay_receiver = sender e,
                                 pay_amount = getCardFundBoxMbr (cf_reference cf),
                                 pay_closeRemainderTo = None\<rparr>) \<and>
        1 \<le> unat (cardFundsActiveCount s)"
    using h fund isCardFundOwner_holder [OF fund, of e]
    by (simp add: cardFundClose_def andThen_def assertTag_def valueOf_def sendPayment_def
        sub64_def Let_def)
  have counted: "1 \<le> unat (cardFundsActiveCount s)" if r: "reachable H s" for H
  proof -
    from registryInv_counts [OF reachable_registryInv [OF r]] have
      fin: "finite (dom (cardFunds s))" and
      cnt: "unat (cardFundsActiveCount s) = card (dom (cardFunds s))" by simp_all
    from fund have "cardFund \<in> dom (cardFunds s)" by auto
    with fin have "0 < card (dom (cardFunds s))" by (auto simp: card_gt_0_iff)
    with cnt show ?thesis by simp
  qed
  show ?thesis
    apply (intro conjI)
       apply (intro impI, erule stranger)
      apply (intro allI impI, erule holder)
     apply (intro impI, erule closes)
    apply (intro allI impI, erule counted)
    done
qed

theorem cardFundClose_only_holder_witness:
  "reachable exampleHash exampleFund
   \<and> 1 \<le> unat (cardFundsActiveCount exampleFund)
   \<and> cardFundClose (exampleEnv 3 1000 0) exampleFund 201 =
       Inr \<lparr>ret = Void, st = exampleChannel,
            itxns = [Payment \<lparr>pay_sender = 201, pay_receiver = 201, pay_amount = 0,
                              pay_closeRemainderTo = Some 3\<rparr>,
                     Payment \<lparr>pay_sender = 100, pay_receiver = 3, pay_amount = 92600,
                              pay_closeRemainderTo = None\<rparr>],
            logs = [CardFundClosed 3 201 200 ''ref'']\<rparr>
   \<and> cardFundClose (exampleEnv 1 1000 0) exampleFund 201 = Inl SENDER_NOT_ALLOWED
   \<and> cardFundClose (exampleEnv 2 1000 0) exampleFund 201 = Inl SENDER_NOT_ALLOWED"
proof -
  let ?cf = "\<lparr>cf_partnerChannel = 200, cf_owner = 3, cf_address = 201, cf_paymentNonce = 0,
           cf_withdrawalNonce = 0, cf_reference = ''ref''\<rparr>"
  have fund: "cardFunds exampleFund 201 = Some ?cf" by (simp add: example_defs)
  note T = cardFundClose_only_holder [OF fund]
  from T [THEN conjunct2, THEN conjunct2, THEN conjunct2, rule_format, OF reachable_exampleFund]
  have counted: "1 \<le> unat (cardFundsActiveCount exampleFund)" .
  have "cardFundClose (exampleEnv 3 1000 0) exampleFund 201 =
       Inr \<lparr>ret = Void,
            st = exampleFund\<lparr>cardFunds := (cardFunds exampleFund)(201 := None),
                   cardFundsActiveCount := cardFundsActiveCount exampleFund - 1,
                   partnerCardFundOwner := (partnerCardFundOwner exampleFund)
                     (hashPartnerCardFund (exampleEnv 3 1000 0) (cf_partnerChannel ?cf)
                        (cf_owner ?cf) := None)\<rparr>,
            itxns = [Payment \<lparr>pay_sender = 201, pay_receiver = 201, pay_amount = 0,
                              pay_closeRemainderTo = Some (sender (exampleEnv 3 1000 0))\<rparr>,
                     Payment \<lparr>pay_sender = appAddress (exampleEnv 3 1000 0),
                              pay_receiver = sender (exampleEnv 3 1000 0),
                              pay_amount = getCardFundBoxMbr (cf_reference ?cf),
                              pay_closeRemainderTo = None\<rparr>],
            logs = [CardFundClosed (cf_owner ?cf) 201 (cf_partnerChannel ?cf) (cf_reference ?cf)]\<rparr>"
    by (rule T [THEN conjunct2, THEN conjunct2, THEN conjunct1, rule_format])
      (use counted in \<open>simp add: exampleEnv_def\<close>)
  then have closes: "cardFundClose (exampleEnv 3 1000 0) exampleFund 201 =
       Inr \<lparr>ret = Void, st = exampleChannel,
            itxns = [Payment \<lparr>pay_sender = 201, pay_receiver = 201, pay_amount = 0,
                              pay_closeRemainderTo = Some 3\<rparr>,
                     Payment \<lparr>pay_sender = 100, pay_receiver = 3, pay_amount = 92600,
                              pay_closeRemainderTo = None\<rparr>],
            logs = [CardFundClosed 3 201 200 ''ref'']\<rparr>"
    by (simp add: example_defs hashPartnerCardFund_def getCardFundBoxMbr_ref fun_eq_iff)
  have contractOwner: "cardFundClose (exampleEnv 1 1000 0) exampleFund 201 = Inl SENDER_NOT_ALLOWED"
    by (rule T [THEN conjunct1, rule_format]) (simp add: exampleEnv_def)
  have settler: "cardFundClose (exampleEnv 2 1000 0) exampleFund 201 = Inl SENDER_NOT_ALLOWED"
    by (rule T [THEN conjunct1, rule_format]) (simp add: exampleEnv_def)
  from reachable_exampleFund counted closes contractOwner settler show ?thesis by (intro conjI)
qed

text \<open>
  The claim as it was stated, that the contract owner too can close a card fund, fails: in
  the example the contract owner is account 1, the fund belongs to account 3, and the
  contract owner's call is rejected.
\<close>

theorem cardFundClose_contract_owner_counterexample:
  "Ownable_owner exampleFund = Some 1
   \<and> cardFunds exampleFund 201 =
       Some \<lparr>cf_partnerChannel = 200, cf_owner = 3, cf_address = 201, cf_paymentNonce = 0,
             cf_withdrawalNonce = 0, cf_reference = ''ref''\<rparr>
   \<and> sender (exampleEnv 1 1000 0) = 1
   \<and> cardFundClose (exampleEnv 1 1000 0) exampleFund 201 = Inl SENDER_NOT_ALLOWED"
  by (simp add: cardFundClose_def isCardFundOwner_def check_defs example_defs)

subsection \<open>Withdrawing nothing\<close>

lemma executeApproved_stale_nonce:
  assumes "cardFunds s cardFund = Some cf" "cf_withdrawalNonce cf = nonce"
  shows "cardFundExecuteApprovedWithdrawal e s cardFund asset amount expiresAt nonce sg \<noteq> Inr out"
proof
  assume "cardFundExecuteApprovedWithdrawal e s cardFund asset amount expiresAt nonce sg = Inr out"
  then have room: "unat (cf_withdrawalNonce cf) + 1 < 2 ^ 64"
    and n: "nonce = cf_withdrawalNonce cf + 1"
    using assms(1) by (auto simp: executeApproved_success_iff)
  from n have "unat nonce = unat (cf_withdrawalNonce cf + 1)" by (rule arg_cong)
  also have "\<dots> = Suc (unat (cf_withdrawalNonce cf))" using room by (rule unat_plus_one)
  also have "\<dots> = Suc (unat nonce)" by (simp only: assms(2))
  finally show False by simp
qed

text \<open>
  Claim C9. A successful permissionless execution with amount 0 sends no inner transaction
  at all, yet stores the request's nonce, \<open>withdrawalNonce + 1\<close>, as the fund's
  \<open>withdrawalNonce\<close> and logs a \<^verbatim>\<open>Withdrawal\<close> event with amount 0. A successful approved
  withdrawal with amount 0 sends no asset transfer and no payment, stores the nonce
  \<open>withdrawalNonce + 1\<close>, logs the event with amount 0, and afterwards no approved withdrawal
  with that nonce succeeds again.
\<close>

theorem zero_amount_withdrawal_consumes_nonce:
  "(\<forall>out. cardFundExecutePermissionlessWithdrawal e s cardFund 0 = Inr out \<longrightarrow>
      itxns out = [] \<and>
      (\<exists>cf w. cardFunds s cardFund = Some cf \<and> withdrawals s (sender e, cardFund) = Some w \<and>
         unat (pwr_nonce w) = unat (cf_withdrawalNonce cf) + 1 \<and>
         cardFunds (st out) cardFund = Some (cf\<lparr>cf_withdrawalNonce := pwr_nonce w\<rparr>) \<and>
         logs out = [Withdrawal cardFund (sender e) (pwr_asset w) 0 (pwr_createdAt w) 0
                       (pwr_nonce w) WithdrawalTypePermissionLess]))
   \<and> (\<forall>out. cardFundExecuteApprovedWithdrawal e s cardFund asset 0 expiresAt nonce sg = Inr out \<longrightarrow>
      (\<forall>f. AssetTransfer f \<notin> set (itxns out)) \<and> (\<forall>f. Payment f \<notin> set (itxns out)) \<and>
      (\<exists>cf. cardFunds s cardFund = Some cf \<and>
         unat nonce = unat (cf_withdrawalNonce cf) + 1 \<and>
         cardFunds (st out) cardFund = Some (cf\<lparr>cf_withdrawalNonce := nonce\<rparr>)) \<and>
      logs out = [Withdrawal cardFund (sender e) asset 0 0 expiresAt nonce WithdrawalTypeApproved] \<and>
      (\<forall>e' asset' amount' expiresAt' sg' out'.
         cardFundExecuteApprovedWithdrawal e' (st out) cardFund asset' amount' expiresAt' nonce sg'
           \<noteq> Inr out'))"
proof -
  have permissionless: "itxns out = [] \<and>
      (\<exists>cf w. cardFunds s cardFund = Some cf \<and> withdrawals s (sender e, cardFund) = Some w \<and>
         unat (pwr_nonce w) = unat (cf_withdrawalNonce cf) + 1 \<and>
         cardFunds (st out) cardFund = Some (cf\<lparr>cf_withdrawalNonce := pwr_nonce w\<rparr>) \<and>
         logs out = [Withdrawal cardFund (sender e) (pwr_asset w) 0 (pwr_createdAt w) 0
                       (pwr_nonce w) WithdrawalTypePermissionLess])"
    if "cardFundExecutePermissionlessWithdrawal e s cardFund 0 = Inr out" for out
    using executePermissionless_success [OF that] by auto
  have approved: "(\<forall>f. AssetTransfer f \<notin> set (itxns out)) \<and> (\<forall>f. Payment f \<notin> set (itxns out)) \<and>
      (\<exists>cf. cardFunds s cardFund = Some cf \<and>
         unat nonce = unat (cf_withdrawalNonce cf) + 1 \<and>
         cardFunds (st out) cardFund = Some (cf\<lparr>cf_withdrawalNonce := nonce\<rparr>)) \<and>
      logs out = [Withdrawal cardFund (sender e) asset 0 0 expiresAt nonce WithdrawalTypeApproved] \<and>
      (\<forall>e' asset' amount' expiresAt' sg' out'.
         cardFundExecuteApprovedWithdrawal e' (st out) cardFund asset' amount' expiresAt' nonce sg'
           \<noteq> Inr out')"
    if ok: "cardFundExecuteApprovedWithdrawal e s cardFund asset 0 expiresAt nonce sg = Inr out"
    for out
  proof -
    from ok obtain cf calls where
      cf: "cardFunds s cardFund = Some cf"
      and room: "unat (cf_withdrawalNonce cf) + 1 < 2 ^ 64"
      and n: "nonce = cf_withdrawalNonce cf + 1"
      and calls: "ensureOpcodeBudget e (opcodeBudget e) = Inr calls"
      and out: "out = \<lparr>ret = Void,
               st = s\<lparr>cardFunds := (cardFunds s)(cardFund \<mapsto> cf\<lparr>cf_withdrawalNonce := nonce\<rparr>)\<rparr>,
               itxns = calls,
               logs = [Withdrawal cardFund (sender e) asset 0 0 expiresAt nonce
                         WithdrawalTypeApproved]\<rparr>"
      unfolding executeApproved_success_iff by auto
    from ensureOpcodeBudget_calls [OF calls]
    have only: "set calls \<subseteq> {IncreaseOpcodeBudget}"
      by (metis set_replicate_conv_if empty_subsetI subset_refl)
    then have none: "\<forall>f. AssetTransfer f \<notin> set calls" "\<forall>f. Payment f \<notin> set calls" by auto
    from unat_plus_one [OF room] n have un: "unat nonce = unat (cf_withdrawalNonce cf) + 1" by simp
    have after: "cardFunds (st out) cardFund = Some (cf\<lparr>cf_withdrawalNonce := nonce\<rparr>)"
      by (simp add: out)
    have spent: "cardFundExecuteApprovedWithdrawal e' (st out) cardFund asset' amount' expiresAt'
        nonce sg' \<noteq> Inr out'" for e' asset' amount' expiresAt' sg' out'
      by (rule executeApproved_stale_nonce [OF after]) simp
    from none cf un after spent show ?thesis by (auto simp: out)
  qed
  show ?thesis
    apply (intro conjI)
     apply (intro allI impI, erule permissionless)
    apply (intro allI impI, erule approved)
    done
qed

theorem zero_amount_withdrawal_consumes_nonce_witness:
  "cardFundExecutePermissionlessWithdrawal (exampleEnv 3 87400 0) exampleRequest 201 0 =
     Inr \<lparr>ret = Void, st = exampleWithdrawn, itxns = [],
          logs = [Withdrawal 201 3 5 0 1000 0 1 ''permissionless'']\<rparr>
   \<and> cardFundExecuteApprovedWithdrawal
       ((exampleEnv 3 1000 0)\<lparr>opcodeBudget := 3000, ed25519VerifyBare := (\<lambda>h sg pk. sg = 5 \<and> pk = 2)\<rparr>)
       exampleFund 201 5 0 2000 1 5 =
     Inr \<lparr>ret = Void, st = exampleWithdrawn, itxns = [],
          logs = [Withdrawal 201 3 5 0 0 2000 1 ''approved'']\<rparr>
   \<and> cf_withdrawalNonce (the (cardFunds exampleFund 201)) = 0
   \<and> cf_withdrawalNonce (the (cardFunds exampleWithdrawn 201)) = 1
   \<and> cardFundExecuteApprovedWithdrawal
       ((exampleEnv 3 1000 0)\<lparr>opcodeBudget := 3000, ed25519VerifyBare := (\<lambda>h sg pk. sg = 5 \<and> pk = 2)\<rparr>)
       exampleWithdrawn 201 5 50 2000 1 5 = Inl NONCE_INVALID"
proof -
  let ?e = "(exampleEnv 3 1000 0)\<lparr>opcodeBudget := 3000,
    ed25519VerifyBare := (\<lambda>h sg pk. sg = 5 \<and> pk = 2)\<rparr>"
  have perm: "cardFundExecutePermissionlessWithdrawal (exampleEnv 3 87400 0) exampleRequest 201 0 =
     Inr \<lparr>ret = Void, st = exampleWithdrawn, itxns = [],
          logs = [Withdrawal 201 3 5 0 1000 0 1 ''permissionless'']\<rparr>"
    by (simp add: cardFundExecutePermissionlessWithdrawal_def withdrawFunds_def isCardFundOwner_def
        check_defs example_defs exampleWithdrawn_def fun_eq_iff
        WithdrawalTypePermissionLess_def WithdrawalTypeApproved_def)
  have appr: "cardFundExecuteApprovedWithdrawal ?e exampleFund 201 5 0 2000 1 5 =
     Inr \<lparr>ret = Void, st = exampleWithdrawn, itxns = [],
          logs = [Withdrawal 201 3 5 0 0 2000 1 ''approved'']\<rparr>"
    by (simp add: cardFundExecuteApprovedWithdrawal_def withdrawFunds_def isCardFundOwner_def
        ensureOpcodeBudget.simps check_defs example_defs exampleWithdrawn_def fun_eq_iff
        WithdrawalTypePermissionLess_def WithdrawalTypeApproved_def)
  note T = zero_amount_withdrawal_consumes_nonce [where e = ?e and s = exampleFund
      and cardFund = 201 and asset = 5 and expiresAt = 2000 and nonce = 1 and sg = 5,
      THEN conjunct2, rule_format, OF appr]
  from T have "cardFundExecuteApprovedWithdrawal ?e exampleWithdrawn 201 5 50 2000 1 5 \<noteq> Inr out"
    for out by simp
  moreover have "cardFundExecuteApprovedWithdrawal ?e exampleWithdrawn 201 5 50 2000 1 5 =
      Inl NONCE_INVALID \<or> (\<exists>out. cardFundExecuteApprovedWithdrawal ?e exampleWithdrawn 201 5 50 2000 1 5
        = Inr out)"
    by (simp add: cardFundExecuteApprovedWithdrawal_def isCardFundOwner_def
        check_defs example_defs exampleWithdrawn_def)
  ultimately have spent: "cardFundExecuteApprovedWithdrawal ?e exampleWithdrawn 201 5 50 2000 1 5 =
      Inl NONCE_INVALID" by blast
  have nonces: "cf_withdrawalNonce (the (cardFunds exampleFund 201)) = 0"
    "cf_withdrawalNonce (the (cardFunds exampleWithdrawn 201)) = 1"
    by (simp_all add: example_defs exampleWithdrawn_def)
  from perm appr nonces spent show ?thesis by (intro conjI)
qed

end
